(* ===== verification/Prelude.thy ===== *)
theory Prelude
  imports Main "HOL-Library.Word" "HOL-Library.State_Monad"
begin

text \<open>
  What every component shares: the C integer types of the 32-bit Windows build of WinLIRC,
  their arithmetic, and a small calculus for state-passing code.

  \<^item> A signed 32-bit integer (\<open>int\<close>, \<open>lirc_t\<close>) is an \<^typ>\<open>int\<close>; every operation of the
    source that can leave the 32-bit range goes through \<open>i32\<close>, which wraps around as the
    machine does. \<open>u32\<close> and \<open>i64\<close> do the same for \<open>unsigned int\<close>/\<open>unsigned long\<close> (32 bits
    on Windows) and \<open>__int64\<close>.
  \<^item> An \<open>ir_code\<close> (\<open>unsigned __int64\<close>) is a \<^typ>\<open>64 word\<close>. A shift by a count outside
    0..63 is the value of the 32-bit run-time helpers \<open>__allshl\<close>/\<open>__aullshr\<close>, zero.
  \<^item> Code that updates memory is a computation of \<open>HOL-Library.State_Monad\<close>. The locale
    \<open>step_relation\<close> proves, once, how a reflexive and transitive relation between the state
    before and the state after passes through the constructs of that monad; each component
    interprets it for its own invariants and frame conditions.
\<close>

unbundle bit_operations_syntax

named_theorems c_arith \<open>definitions of the C integer operations\<close>
named_theorems small \<open>a C operation whose result is in range is the mathematical one\<close>

type_synonym lirc_t = int
type_synonym ir_code = "64 word"

subsection \<open>Machine integers\<close>

definition i32 :: "int \<Rightarrow> int" where
  "i32 x = signed_take_bit 31 x"

definition u32 :: "int \<Rightarrow> int" where
  "u32 x = take_bit 32 x"

definition i64 :: "int \<Rightarrow> int" where
  "i64 x = signed_take_bit 63 x"

definition add32 :: "int \<Rightarrow> int \<Rightarrow> int" where [c_arith]:
  "add32 a b = i32 (a + b)"

definition sub32 :: "int \<Rightarrow> int \<Rightarrow> int" where [c_arith]:
  "sub32 a b = i32 (a - b)"

definition mul32 :: "int \<Rightarrow> int \<Rightarrow> int" where [c_arith]:
  "mul32 a b = i32 (a * b)"

text \<open>Division and remainder of C round towards zero.\<close>

definition quot :: "int \<Rightarrow> int \<Rightarrow> int" where
  "quot a b = sgn a * sgn b * (\<bar>a\<bar> div \<bar>b\<bar>)"

definition rmd :: "int \<Rightarrow> int \<Rightarrow> int" where
  "rmd a b = a - quot a b * b"

definition abs32 :: "int \<Rightarrow> int" where [c_arith]:
  "abs32 a = i32 \<bar>a\<bar>"

definition in32 :: "int \<Rightarrow> bool" where
  "in32 x \<longleftrightarrow> - (2 ^ 31) \<le> x \<and> x < 2 ^ 31"

lemma i32_id [small]: "in32 x \<Longrightarrow> i32 x = x"
  by (simp add: i32_def in32_def signed_take_bit_int_eq_self)

lemma in32_i32 [simp, intro]: "in32 (i32 x)"
  using signed_take_bit_int_greater_eq_minus_exp [of 31 x] signed_take_bit_int_less_exp [of 31 x]
  by (simp add: i32_def in32_def)

lemma i32_idem [simp]: "i32 (i32 x) = i32 x"
  by (rule i32_id) (rule in32_i32)

lemma u32_id [small]: "0 \<le> x \<Longrightarrow> x < 2 ^ 32 \<Longrightarrow> u32 x = x"
  by (simp add: u32_def take_bit_int_eq_self)

lemma u32_range [simp]: "0 \<le> u32 x" "u32 x < 2 ^ 32"
  using take_bit_int_less_exp [of 32 x] by (simp_all add: u32_def)

lemma i64_id [small]: "- (2 ^ 63) \<le> x \<Longrightarrow> x < 2 ^ 63 \<Longrightarrow> i64 x = x"
  by (simp add: i64_def signed_take_bit_int_eq_self)

lemma quot_nonneg: "0 \<le> a \<Longrightarrow> 0 < b \<Longrightarrow> quot a b = a div b"
  by (cases "a = 0") (simp_all add: quot_def sgn_if)

lemma rmd_nonneg: "0 \<le> a \<Longrightarrow> 0 < b \<Longrightarrow> rmd a b = a mod b"
  by (simp add: rmd_def quot_nonneg minus_div_mult_eq_mod)

lemma quot_zero [simp]: "quot 0 b = 0"
  by (simp add: quot_def)

subsection \<open>Shifts of a 64-bit code\<close>

definition shl64 :: "ir_code \<Rightarrow> int \<Rightarrow> ir_code" where
  "shl64 w n = (if 0 \<le> n \<and> n < 64 then push_bit (nat n) w else 0)"

definition shr64 :: "ir_code \<Rightarrow> int \<Rightarrow> ir_code" where
  "shr64 w n = (if 0 \<le> n \<and> n < 64 then drop_bit (nat n) w else 0)"

lemma bit_shl64:
  "bit (shl64 w n) k \<longleftrightarrow> 0 \<le> n \<and> nat n \<le> k \<and> k < 64 \<and> bit w (k - nat n)"
  by (auto simp: shl64_def bit_simps)

lemma bit_shr64: "bit (shr64 w n) k \<longleftrightarrow> 0 \<le> n \<and> bit w (nat n + k)"
  using bit_imp_le_length [of w "nat n + k"] by (auto simp: shr64_def bit_simps)

lemma shl64_0 [simp]: "shl64 w 0 = w" and shr64_0 [simp]: "shr64 w 0 = w"
  by (simp_all add: shl64_def shr64_def)

lemma shl64_zero [simp]: "shl64 0 n = 0" and shr64_zero [simp]: "shr64 0 n = 0"
  by (simp_all add: shl64_def shr64_def)

subsection \<open>State-passing code\<close>

abbreviation rd :: "('s \<Rightarrow> 'a) \<Rightarrow> ('s, 'a) state" where
  "rd f \<equiv> State (\<lambda>s. (f s, s))"

abbreviation wr :: "('s \<Rightarrow> 's) \<Rightarrow> ('s, unit) state" where
  "wr f \<equiv> State (\<lambda>s. ((), f s))"

abbreviation ret :: "'a \<Rightarrow> ('s, 'a) state" where
  "ret \<equiv> State_Monad.return"

abbreviation exec :: "('s, 'a) state \<Rightarrow> 's \<Rightarrow> 's" where
  "exec m s \<equiv> snd (run_state m s)"

abbreviation result :: "('s, 'a) state \<Rightarrow> 's \<Rightarrow> 'a" where
  "result m s \<equiv> fst (run_state m s)"

lemma run_if [simp]:
  "run_state (if b then m else n) s = (if b then run_state m s else run_state n s)"
  by simp

lemma run_bind: "run_state (m \<bind> f) s = run_state (f (result m s)) (exec m s)"
  by (simp add: split_def)

lemma run_step: "run_state m s = (x, t) \<Longrightarrow> run_state (m \<bind> f) s = run_state (f x) t"
  by simp

lemma run_unit: "run_state m s = ((), exec m s)"
  by (simp add: prod_eq_iff)

locale step_relation =
  fixes R :: "'s \<Rightarrow> 's \<Rightarrow> bool"
  assumes R_refl: "R s s"
    and R_trans: "R s t \<Longrightarrow> R t u \<Longrightarrow> R s u"
begin

lemma ret: "state_io_rel R (State_Monad.return x)"
  by (simp add: state_io_rel_def R_refl)

lemma rd: "state_io_rel R (rd f)"
  by (simp add: state_io_rel_def R_refl)

lemma wr: "(\<And>s. R s (f s)) \<Longrightarrow> state_io_rel R (wr f)"
  by (simp add: state_io_rel_def)

lemma bind:
  assumes "state_io_rel R m" and "\<And>x. state_io_rel R (f x)"
  shows "state_io_rel R (m \<bind> f)"
  using assms by (auto simp: state_io_rel_def split: prod.split) (metis R_trans snd_conv)

lemma cond:
  "(b \<Longrightarrow> state_io_rel R m) \<Longrightarrow> (\<not> b \<Longrightarrow> state_io_rel R n) \<Longrightarrow>
   state_io_rel R (if b then m else n)"
  by simp

lemma case_opt:
  "(x = None \<Longrightarrow> state_io_rel R m) \<Longrightarrow> (\<And>y. x = Some y \<Longrightarrow> state_io_rel R (f y)) \<Longrightarrow>
   state_io_rel R (case x of None \<Rightarrow> m | Some y \<Rightarrow> f y)"
  by (cases x) auto

lemma case_pair:
  "(\<And>a b. state_io_rel R (f a b)) \<Longrightarrow> state_io_rel R (case p of (a, b) \<Rightarrow> f a b)"
  by (cases p) auto

lemmas flow = ret rd bind cond case_opt case_pair

end

text \<open>Preservation of a state predicate, seen as a relation.\<close>

definition keeping :: "('s \<Rightarrow> bool) \<Rightarrow> 's \<Rightarrow> 's \<Rightarrow> bool" where
  "keeping P s t \<longleftrightarrow> (P s \<longrightarrow> P t)"

definition same :: "('s \<Rightarrow> 'a) \<Rightarrow> 's \<Rightarrow> 's \<Rightarrow> bool" where
  "same f s t \<longleftrightarrow> f t = f s"

interpretation keeping: step_relation "keeping P" for P :: "'s \<Rightarrow> bool"
  by unfold_locales (auto simp: keeping_def)

interpretation same: step_relation "same f" for f :: "'s \<Rightarrow> 'a"
  by unfold_locales (auto simp: same_def)

end
