(* ===== verification/LircDefs.thy ===== *)
theory LircDefs
  imports Prelude
begin

text \<open>
  \<open>DLL/Common/LIRCDefines.h\<close> (repeated in \<open>winlirc/remote.h\<close>): the data of a remote control
  and the inline functions on it.

  A pointer into the remote's \<open>codes\<close> array is its index, a pointer to a node of a code's
  \<open>next\<close> chain is the node's position in the chain, and \<open>NULL\<close> is \<^const>\<open>None\<close>. An array
  that ends at an entry with a null name is the list of the entries before it. The chain of
  remotes linked by \<open>next\<close> is a list, so \<^verbatim>\<open>struct ir_remote\<close> has no \<open>next\<close> field here.
  Fields keep the source's names after a prefix for their structure: \<open>n_\<close> for
  \<open>struct ir_ncode\<close>, \<open>r_\<close> for \<open>struct ir_remote\<close>.
\<close>

subsection \<open>Constants\<close>

abbreviation (input) PULSE_BIT :: int where "PULSE_BIT \<equiv> 0x01000000"
abbreviation (input) PULSE_MASK :: int where "PULSE_MASK \<equiv> 0x00FFFFFF"
abbreviation (input) PACKET_SIZE :: int where "PACKET_SIZE \<equiv> 256"
abbreviation (input) RBUF_SIZE :: int where "RBUF_SIZE \<equiv> 256"
abbreviation (input) WBUF_SIZE :: int where "WBUF_SIZE \<equiv> 2048"
abbreviation (input) REC_SYNC :: nat where "REC_SYNC \<equiv> 8"

abbreviation (input) IR_PROTOCOL_MASK :: int where "IR_PROTOCOL_MASK \<equiv> 0x07ff"
abbreviation (input) RAW_CODES :: int where "RAW_CODES \<equiv> 0x0001"
abbreviation (input) RC5 :: int where "RC5 \<equiv> 0x0002"
abbreviation (input) SHIFT_ENC :: int where "SHIFT_ENC \<equiv> RC5"
abbreviation (input) RC6 :: int where "RC6 \<equiv> 0x0004"
abbreviation (input) RCMM :: int where "RCMM \<equiv> 0x0008"
abbreviation (input) SPACE_ENC :: int where "SPACE_ENC \<equiv> 0x0010"
abbreviation (input) SPACE_FIRST :: int where "SPACE_FIRST \<equiv> 0x0020"
abbreviation (input) GOLDSTAR :: int where "GOLDSTAR \<equiv> 0x0040"
abbreviation (input) GRUNDIG :: int where "GRUNDIG \<equiv> 0x0080"
abbreviation (input) BO :: int where "BO \<equiv> 0x0100"
abbreviation (input) SERIAL :: int where "SERIAL \<equiv> 0x0200"
abbreviation (input) XMP :: int where "XMP \<equiv> 0x0400"
abbreviation (input) REVERSE :: int where "REVERSE \<equiv> 0x0800"
abbreviation (input) NO_HEAD_REP :: int where "NO_HEAD_REP \<equiv> 0x1000"
abbreviation (input) NO_FOOT_REP :: int where "NO_FOOT_REP \<equiv> 0x2000"
abbreviation (input) CONST_LENGTH :: int where "CONST_LENGTH \<equiv> 0x4000"
abbreviation (input) REPEAT_HEADER :: int where "REPEAT_HEADER \<equiv> 0x8000"
abbreviation (input) COMPAT_REVERSE :: int where "COMPAT_REVERSE \<equiv> 0x00010000"

abbreviation (input) IR_PARITY_NONE :: int where "IR_PARITY_NONE \<equiv> 0"
abbreviation (input) IR_PARITY_EVEN :: int where "IR_PARITY_EVEN \<equiv> 1"
abbreviation (input) IR_PARITY_ODD :: int where "IR_PARITY_ODD \<equiv> 2"

abbreviation (input) LIRC_MODE_RAW :: int where "LIRC_MODE_RAW \<equiv> 0x00000001"
abbreviation (input) LIRC_MODE_PULSE :: int where "LIRC_MODE_PULSE \<equiv> 0x00000002"
abbreviation (input) LIRC_MODE_MODE2 :: int where "LIRC_MODE_MODE2 \<equiv> 0x00000004"
abbreviation (input) LIRC_MODE_LIRCCODE :: int where "LIRC_MODE_LIRCCODE \<equiv> 0x00000010"

subsection \<open>Data\<close>

record ir_ncode =
  n_name :: string
  n_code :: ir_code
  n_length :: int
  n_signals :: "lirc_t list option"
  n_next :: "ir_code list"
  n_current :: "nat option"
  n_transmit_state :: "nat option"

record mytimeval =
  tv_sec :: int
  tv_usec :: int

record ir_remote =
  r_name :: "string option"
  r_codes :: "ir_ncode list option"
  r_bits :: int
  r_flags :: int
  r_eps :: int
  r_aeps :: int
  r_phead :: lirc_t
  r_shead :: lirc_t
  r_pthree :: lirc_t
  r_sthree :: lirc_t
  r_ptwo :: lirc_t
  r_stwo :: lirc_t
  r_pone :: lirc_t
  r_sone :: lirc_t
  r_pzero :: lirc_t
  r_szero :: lirc_t
  r_plead :: lirc_t
  r_ptrail :: lirc_t
  r_pfoot :: lirc_t
  r_sfoot :: lirc_t
  r_prepeat :: lirc_t
  r_srepeat :: lirc_t
  r_pre_data_bits :: int
  r_pre_data :: ir_code
  r_post_data_bits :: int
  r_post_data :: ir_code
  r_pre_p :: lirc_t
  r_pre_s :: lirc_t
  r_post_p :: lirc_t
  r_post_s :: lirc_t
  r_gap :: lirc_t
  r_gap2 :: lirc_t
  r_repeat_gap :: lirc_t
  r_toggle_bit :: int
  r_toggle_bit_mask :: ir_code
  r_min_repeat :: int
  r_min_code_repeat :: int
  r_freq :: int
  r_duty_cycle :: int
  r_toggle_mask :: ir_code
  r_rc6_mask :: ir_code
  r_baud :: int
  r_bits_in_byte :: int
  r_parity :: int
  r_stop_bits :: int
  r_ignore_mask :: ir_code
  r_toggle_bit_mask_state :: ir_code
  r_toggle_mask_state :: int
  r_repeat_countdown :: int
  r_last_code :: "nat option"
  r_toggle_code :: "nat option"
  r_reps :: int
  r_last_send :: mytimeval
  r_min_remaining_gap :: lirc_t
  r_max_remaining_gap :: lirc_t


text \<open>What \<open>s_malloc\<close> returns for a \<open>struct ir_remote\<close>: every field zero.\<close>

definition zero_time :: mytimeval where
  "zero_time = \<lparr>tv_sec = 0, tv_usec = 0\<rparr>"

definition zero_remote :: ir_remote where
  "zero_remote = \<lparr>r_name = None, r_codes = None, r_bits = 0, r_flags = 0, r_eps = 0, r_aeps = 0,
     r_phead = 0, r_shead = 0, r_pthree = 0, r_sthree = 0, r_ptwo = 0, r_stwo = 0,
     r_pone = 0, r_sone = 0, r_pzero = 0, r_szero = 0, r_plead = 0, r_ptrail = 0,
     r_pfoot = 0, r_sfoot = 0, r_prepeat = 0, r_srepeat = 0,
     r_pre_data_bits = 0, r_pre_data = 0, r_post_data_bits = 0, r_post_data = 0,
     r_pre_p = 0, r_pre_s = 0, r_post_p = 0, r_post_s = 0,
     r_gap = 0, r_gap2 = 0, r_repeat_gap = 0, r_toggle_bit = 0, r_toggle_bit_mask = 0,
     r_min_repeat = 0, r_min_code_repeat = 0, r_freq = 0, r_duty_cycle = 0,
     r_toggle_mask = 0, r_rc6_mask = 0, r_baud = 0, r_bits_in_byte = 0, r_parity = 0,
     r_stop_bits = 0, r_ignore_mask = 0, r_toggle_bit_mask_state = 0, r_toggle_mask_state = 0,
     r_repeat_countdown = 0, r_last_code = None, r_toggle_code = None, r_reps = 0,
     r_last_send = zero_time, r_min_remaining_gap = 0, r_max_remaining_gap = 0\<rparr>"

subsection \<open>Code chains\<close>

text \<open>The node after node \<open>i\<close> of a chain with the given codes; \<^const>\<open>None\<close> after the last.\<close>

definition next_of :: "ir_code list \<Rightarrow> nat \<Rightarrow> nat option" where
  "next_of chain i = (if Suc i < length chain then Some (Suc i) else None)"

definition first_of :: "ir_code list \<Rightarrow> nat option" where
  "first_of chain = (if chain = [] then None else Some 0)"

definition get_ir_code :: "ir_ncode \<Rightarrow> nat option \<Rightarrow> ir_code" where
  "get_ir_code ncode node =
     (if n_next ncode \<noteq> [] \<and> node \<noteq> None then n_next ncode ! the node else n_code ncode)"

definition get_next_ir_code_node :: "ir_ncode \<Rightarrow> nat option \<Rightarrow> nat option" where
  "get_next_ir_code_node ncode node =
     (case node of None \<Rightarrow> first_of (n_next ncode) | Some i \<Rightarrow> next_of (n_next ncode) i)"

subsection \<open>Bits\<close>

definition bit_count :: "ir_remote \<Rightarrow> int" where
  "bit_count remote =
     add32 (add32 (r_pre_data_bits remote) (r_bits remote)) (r_post_data_bits remote)"

function bits_set_loop :: "ir_code \<Rightarrow> int \<Rightarrow> int" where
  "bits_set_loop data acc =
     (if data \<noteq> 0
      then bits_set_loop (drop_bit 1 data) (if data AND 1 \<noteq> 0 then acc + 1 else acc)
      else acc)"
  by pat_completeness auto
termination
proof (relation "measure (\<lambda>(data, acc). unat data)")
  fix data :: ir_code and acc :: int
  assume "data \<noteq> 0"
  then have "unat data \<noteq> 0" by (simp add: unat_eq_0)
  then show "((drop_bit 1 data, if data AND 1 \<noteq> 0 then acc + 1 else acc), data, acc)
      \<in> measure (\<lambda>(data, acc). unat data)"
    by (simp add: drop_bit_Suc unat_div)
qed simp

declare bits_set_loop.simps [simp del]

definition bits_set :: "ir_code \<Rightarrow> int" where
  "bits_set data = bits_set_loop data 0"

definition reverse :: "ir_code \<Rightarrow> int \<Rightarrow> ir_code" where
  "reverse data bits =
     fold (\<lambda>i c. c OR shl64 (if data AND shl64 1 (int i) \<noteq> 0 then 1 else 0) (bits - 1 - int i))
       [0..<nat bits] 0"

definition is_pulse :: "lirc_t \<Rightarrow> bool" where
  "is_pulse data \<longleftrightarrow> data AND PULSE_BIT \<noteq> 0"

definition is_space :: "lirc_t \<Rightarrow> bool" where
  "is_space data \<longleftrightarrow> \<not> is_pulse data"

definition gen_mask :: "int \<Rightarrow> ir_code" where
  "gen_mask bits = fold (\<lambda>_ mask. shl64 mask 1 OR 1) [0..<nat bits] 0"

subsection \<open>Protocol and layout tests\<close>

definition has_repeat :: "ir_remote \<Rightarrow> bool" where
  "has_repeat remote \<longleftrightarrow> r_prepeat remote > 0 \<and> r_srepeat remote > 0"

definition set_protocol :: "ir_remote \<Rightarrow> int \<Rightarrow> ir_remote" where
  "set_protocol remote protocol =
     remote\<lparr>r_flags := (r_flags remote AND NOT IR_PROTOCOL_MASK) OR protocol\<rparr>"

definition protocol :: "ir_remote \<Rightarrow> int" where
  "protocol remote = r_flags remote AND IR_PROTOCOL_MASK"

definition is_raw :: "ir_remote \<Rightarrow> bool" where
  "is_raw remote \<longleftrightarrow> protocol remote = RAW_CODES"

definition is_space_enc :: "ir_remote \<Rightarrow> bool" where
  "is_space_enc remote \<longleftrightarrow> protocol remote = SPACE_ENC"

definition is_space_first :: "ir_remote \<Rightarrow> bool" where
  "is_space_first remote \<longleftrightarrow> protocol remote = SPACE_FIRST"

definition is_rc5 :: "ir_remote \<Rightarrow> bool" where
  "is_rc5 remote \<longleftrightarrow> protocol remote = RC5"

definition is_rc6 :: "ir_remote \<Rightarrow> bool" where
  "is_rc6 remote \<longleftrightarrow> protocol remote = RC6 \<or> r_rc6_mask remote \<noteq> 0"

definition is_biphase :: "ir_remote \<Rightarrow> bool" where
  "is_biphase remote \<longleftrightarrow> is_rc5 remote \<or> is_rc6 remote"

definition is_rcmm :: "ir_remote \<Rightarrow> bool" where
  "is_rcmm remote \<longleftrightarrow> protocol remote = RCMM"

definition is_goldstar :: "ir_remote \<Rightarrow> bool" where
  "is_goldstar remote \<longleftrightarrow> protocol remote = GOLDSTAR"

definition is_grundig :: "ir_remote \<Rightarrow> bool" where
  "is_grundig remote \<longleftrightarrow> protocol remote = GRUNDIG"

definition is_bo :: "ir_remote \<Rightarrow> bool" where
  "is_bo remote \<longleftrightarrow> protocol remote = BO"

definition is_serial :: "ir_remote \<Rightarrow> bool" where
  "is_serial remote \<longleftrightarrow> protocol remote = SERIAL"

definition is_xmp :: "ir_remote \<Rightarrow> bool" where
  "is_xmp remote \<longleftrightarrow> protocol remote = XMP"

definition has_flag :: "ir_remote \<Rightarrow> int \<Rightarrow> bool" where
  "has_flag remote f \<longleftrightarrow> r_flags remote AND f \<noteq> 0"

definition is_const :: "ir_remote \<Rightarrow> bool" where
  "is_const remote \<longleftrightarrow> has_flag remote CONST_LENGTH"

definition has_repeat_gap :: "ir_remote \<Rightarrow> bool" where
  "has_repeat_gap remote \<longleftrightarrow> r_repeat_gap remote > 0"

definition has_pre :: "ir_remote \<Rightarrow> bool" where
  "has_pre remote \<longleftrightarrow> r_pre_data_bits remote > 0"

definition has_post :: "ir_remote \<Rightarrow> bool" where
  "has_post remote \<longleftrightarrow> r_post_data_bits remote > 0"

definition has_header :: "ir_remote \<Rightarrow> bool" where
  "has_header remote \<longleftrightarrow> r_phead remote > 0 \<and> r_shead remote > 0"

definition has_foot :: "ir_remote \<Rightarrow> bool" where
  "has_foot remote \<longleftrightarrow> r_pfoot remote > 0 \<and> r_sfoot remote > 0"

definition has_toggle_bit_mask :: "ir_remote \<Rightarrow> bool" where
  "has_toggle_bit_mask remote \<longleftrightarrow> r_toggle_bit_mask remote > 0"

definition has_ignore_mask :: "ir_remote \<Rightarrow> bool" where
  "has_ignore_mask remote \<longleftrightarrow> r_ignore_mask remote > 0"

definition has_toggle_mask :: "ir_remote \<Rightarrow> bool" where
  "has_toggle_mask remote \<longleftrightarrow> r_toggle_mask remote > 0"

subsection \<open>Gaps and time\<close>

definition min_gap :: "ir_remote \<Rightarrow> lirc_t" where
  "min_gap remote =
     (if r_gap2 remote \<noteq> 0 \<and> r_gap2 remote < r_gap remote then r_gap2 remote else r_gap remote)"

definition max_gap :: "ir_remote \<Rightarrow> lirc_t" where
  "max_gap remote = (if r_gap2 remote > r_gap remote then r_gap2 remote else r_gap remote)"

definition time_elapsed :: "mytimeval \<Rightarrow> mytimeval \<Rightarrow> int" where
  "time_elapsed since current =
     (let secs = i64 (tv_sec current - tv_sec since);
          diff = i64 (1000000 * secs + tv_usec current - tv_usec since)
      in u32 diff)"

subsection \<open>Composite codes\<close>

definition gen_ir_code :: "ir_remote \<Rightarrow> ir_code \<Rightarrow> ir_code \<Rightarrow> ir_code \<Rightarrow> ir_code" where
  "gen_ir_code remote pre code post =
     (let all = pre AND gen_mask (r_pre_data_bits remote);
          all = shl64 all (r_bits remote);
          all = all OR (if is_raw remote then code else code AND gen_mask (r_bits remote));
          all = shl64 all (r_post_data_bits remote)
      in all OR (post AND gen_mask (r_post_data_bits remote)))"

definition match_ir_code :: "ir_remote \<Rightarrow> ir_code \<Rightarrow> ir_code \<Rightarrow> bool" where
  "match_ir_code remote a b \<longleftrightarrow>
     r_ignore_mask remote OR a = r_ignore_mask remote OR b \<or>
     r_ignore_mask remote OR a = r_ignore_mask remote OR (b XOR r_toggle_bit_mask remote)"

subsection \<open>Tolerances\<close>

definition expect :: "ir_remote \<Rightarrow> lirc_t \<Rightarrow> lirc_t \<Rightarrow> bool" where
  "expect remote delta exdelta \<longleftrightarrow>
     abs32 (sub32 exdelta delta) \<le> quot (mul32 exdelta (r_eps remote)) 100 \<or>
     abs32 (sub32 exdelta delta) \<le> r_aeps remote"

definition expect_at_least :: "ir_remote \<Rightarrow> lirc_t \<Rightarrow> lirc_t \<Rightarrow> bool" where
  "expect_at_least remote delta exdelta \<longleftrightarrow>
     add32 delta (quot (mul32 exdelta (r_eps remote)) 100) \<ge> exdelta \<or>
     add32 delta (r_aeps remote) \<ge> exdelta"

definition expect_at_most :: "ir_remote \<Rightarrow> lirc_t \<Rightarrow> lirc_t \<Rightarrow> bool" where
  "expect_at_most remote delta exdelta \<longleftrightarrow>
     delta \<le> add32 exdelta (quot (mul32 exdelta (r_eps remote)) 100) \<or>
     delta \<le> add32 exdelta (r_aeps remote)"


subsection \<open>Facts about the bit loops\<close>

lemma gen_mask_mask: "gen_mask bits = mask (nat bits)"
proof -
  have "fold (\<lambda>_ m. shl64 m 1 OR 1) [0..<n] 0 = (mask n :: ir_code)" for n
  proof (induction n)
    case 0
    show ?case by simp
  next
    case (Suc n)
    have "shl64 (mask n) 1 OR 1 = (mask (Suc n) :: ir_code)"
      by (rule bit_word_eqI) (auto simp: bit_shl64 bit_or_iff bit_mask_iff bit_1_iff less_Suc_eq_le)
    with Suc show ?case by simp
  qed
  then show ?thesis by (simp add: gen_mask_def)
qed

lemma bit_gen_mask: "bit (gen_mask bits) k \<longleftrightarrow> k < 64 \<and> int k < bits"
  by (auto simp: gen_mask_mask bit_mask_iff)

lemma and_gen_mask_0 [simp]: "x AND gen_mask 0 = 0"
  by (simp add: gen_mask_mask)

lemma and_shl64_1_nz: "0 \<le> i \<Longrightarrow> i < 64 \<Longrightarrow> data AND shl64 1 i \<noteq> 0 \<longleftrightarrow> bit data (nat i)"
proof -
  assume i: "0 \<le> i" "i < 64"
  then have "shl64 1 i = push_bit (nat i) 1"
    by (simp add: shl64_def)
  then show "data AND shl64 1 i \<noteq> 0 \<longleftrightarrow> bit data (nat i)"
    by (simp add: bit_iff_and_push_bit_not_eq_0)
qed

lemma bit_reverse_upto:
  assumes "n \<le> m" and "m \<le> 64"
  shows "bit (fold (\<lambda>i c. c OR shl64 (if data AND shl64 1 (int i) \<noteq> 0 then 1 else 0)
      (int m - 1 - int i)) [0..<n] 0) k \<longleftrightarrow> m - n \<le> k \<and> k < m \<and> bit data (m - 1 - k)"
  using assms(1)
proof (induction n)
  case 0
  show ?case by simp
next
  case (Suc n)
  have "data AND shl64 1 (int n) \<noteq> 0 \<longleftrightarrow> bit data n"
    using and_shl64_1_nz [of "int n" data] Suc.prems assms(2) by simp
  moreover have "bit (shl64 (if bit data n then 1 else 0) (int m - 1 - int n)) k
      \<longleftrightarrow> bit data n \<and> k = m - 1 - n"
    using Suc.prems assms(2) by (auto simp: bit_shl64 bit_1_iff nat_diff_distrib)
  ultimately have A: "bit (fold (\<lambda>i c. c OR shl64 (if data AND shl64 1 (int i) \<noteq> 0 then 1 else 0)
      (int m - 1 - int i)) [0..<Suc n] 0) k \<longleftrightarrow>
      (m - n \<le> k \<and> k < m \<and> bit data (m - 1 - k)) \<or> (bit data n \<and> k = m - 1 - n)"
    using Suc by (simp add: bit_or_iff)
  have "m - 1 - k = n" if "k = m - 1 - n"
    using that Suc.prems by simp
  moreover have "m - Suc n \<le> k \<longleftrightarrow> m - n \<le> k \<or> k = m - 1 - n"
    using Suc.prems by arith
  moreover have "m - 1 - n < m"
    using Suc.prems by simp
  ultimately have "(m - n \<le> k \<and> k < m \<and> bit data (m - 1 - k)) \<or> (bit data n \<and> k = m - 1 - n) \<longleftrightarrow>
      m - Suc n \<le> k \<and> k < m \<and> bit data (m - 1 - k)"
    by (cases "k = m - 1 - n") auto
  with A show ?case
    by (simp only:)
qed

lemma bit_reverse:
  assumes "0 \<le> bits" and "bits \<le> 64"
  shows "bit (reverse data bits) k \<longleftrightarrow> int k < bits \<and> bit data (nat (bits - 1 - int k))"
proof -
  have "nat bits - 1 - k = nat (bits - 1 - int k)"
    using assms by (simp add: nat_diff_distrib)
  moreover have "k < nat bits \<longleftrightarrow> int k < bits"
    using assms by auto
  ultimately show ?thesis
    using bit_reverse_upto [of "nat bits" "nat bits" data k] assms by (simp add: reverse_def)
qed


lemma bits_set_loop_card: "bits_set_loop data acc = acc + int (card {k. bit data k})"
proof (induction data acc rule: bits_set_loop.induct)
  case (1 data acc)
  show ?case
  proof (cases "data = 0")
    case True
    then show ?thesis by (subst bits_set_loop.simps) (simp add: bot_fun_def)
  next
    case False
    have fin: "finite {k. bit w k}" for w :: ir_code
      by (rule finite_subset [of _ "{..<64}"]) (auto dest: bit_imp_le_length)
    have "{k. bit data k} = (if bit data 0 then {0} else {}) \<union> Suc ` {k. bit (drop_bit 1 data) k}"
    proof (rule set_eqI)
      fix k show "k \<in> {k. bit data k} \<longleftrightarrow>
        k \<in> (if bit data 0 then {0} else {}) \<union> Suc ` {k. bit (drop_bit 1 data) k}"
        by (cases k) (auto simp: bit_drop_bit_eq)
    qed
    moreover have "card (Suc ` {k. bit (drop_bit 1 data) k}) = card {k. bit (drop_bit 1 data) k}"
      by (rule card_image) simp
    ultimately have "card {k. bit data k} =
        (if bit data 0 then 1 else 0) + card {k. bit (drop_bit 1 data) k}"
      using fin [of "drop_bit 1 data"] by (simp add: card_insert_if)
    moreover have "data AND 1 \<noteq> 0 \<longleftrightarrow> bit data 0"
      by (simp add: and_one_eq bit_0 odd_iff_mod_2_eq_one)
    ultimately show ?thesis
      using False "1.IH" by (subst bits_set_loop.simps) simp
  qed
qed

lemma bits_set_card: "bits_set data = int (card {k. bit data k})"
  by (simp add: bits_set_def bits_set_loop_card)

subsection \<open>Layout of a composite code\<close>

lemma shl64_mask_disjoint:
  "0 \<le> n \<Longrightarrow> bit (shl64 w n) k \<Longrightarrow> \<not> int k < n"
  by (auto simp: bit_shl64)

lemma bit_gen_ir_code:
  assumes "0 \<le> r_bits remote" and "0 \<le> r_post_data_bits remote"
    and "r_bits remote + r_post_data_bits remote < 64" and "\<not> is_raw remote"
  shows "bit (gen_ir_code remote pre code post) k \<longleftrightarrow> k < 64 \<and>
    (if int k < r_post_data_bits remote then bit post k
     else if int k < r_post_data_bits remote + r_bits remote
       then bit code (k - nat (r_post_data_bits remote))
     else int k < r_post_data_bits remote + r_bits remote + r_pre_data_bits remote \<and>
       bit pre (k - nat (r_post_data_bits remote) - nat (r_bits remote)))"
  using assms
  by (auto simp: gen_ir_code_def Let_def bit_or_iff bit_and_iff bit_shl64 bit_gen_mask
      dest: bit_imp_le_length)


text \<open>
  \<open>reverse\<close> is its own inverse on the low \<open>bits\<close> bits and clears the others, for every
  width an \<open>ir_code\<close> has. \<open>send_data\<close> and the \<open>REVERSE\<close> handling of the configuration
  rely on it.
\<close>

theorem reverse_reverse:
  assumes "0 \<le> bits" and "bits \<le> 64"
  shows "reverse (reverse data bits) bits = data AND gen_mask bits"
proof (rule bit_word_eqI)
  fix k assume "k < LENGTH(64)"
  with assms show "bit (reverse (reverse data bits) bits) k \<longleftrightarrow> bit (data AND gen_mask bits) k"
    by (auto simp: bit_reverse bit_and_iff bit_gen_mask)
qed

theorem reverse_reverse_witness:
  "reverse (reverse 0xABCD 12) 12 = 0xABCD AND gen_mask 12"
  by (rule reverse_reverse) simp_all

text \<open>
  The three fields of a composite code are recovered by the shifts and masks with which
  \<open>receive_decode\<close> takes a ready-made code apart: no field leaks into another as long as the
  three widths fit into 64 bits.
\<close>

theorem gen_ir_code_fields:
  assumes "0 \<le> r_pre_data_bits remote" and "0 \<le> r_bits remote" and "0 \<le> r_post_data_bits remote"
    and "r_pre_data_bits remote + r_bits remote + r_post_data_bits remote \<le> 64"
    and "r_bits remote + r_post_data_bits remote < 64" and "\<not> is_raw remote"
  shows "gen_ir_code remote pre code post AND gen_mask (r_post_data_bits remote)
           = post AND gen_mask (r_post_data_bits remote) \<and>
     shr64 (gen_ir_code remote pre code post) (r_post_data_bits remote) AND gen_mask (r_bits remote)
           = code AND gen_mask (r_bits remote) \<and>
     shr64 (shr64 (gen_ir_code remote pre code post) (r_post_data_bits remote)) (r_bits remote)
           = pre AND gen_mask (r_pre_data_bits remote)"
  using assms
  by - (intro conjI; rule bit_word_eqI;
    auto simp: bit_gen_ir_code bit_and_iff bit_gen_mask bit_shr64 nat_add_distrib)

theorem gen_ir_code_fields_witness:
  "shr64 (gen_ir_code (zero_remote\<lparr>r_bits := 8, r_post_data_bits := 4, r_pre_data_bits := 16\<rparr>)
     0xBEEF 0x5A 0x3) 4 AND gen_mask 8 = 0x5A AND gen_mask 8"
  using gen_ir_code_fields [of "zero_remote\<lparr>r_bits := 8, r_post_data_bits := 4, r_pre_data_bits := 16\<rparr>"
      "0xBEEF" "0x5A" "0x3"]
  by (simp add: zero_remote_def is_raw_def protocol_def)

text \<open>
  Two codes match exactly when they agree on every bit outside the ignore mask, or agree
  there after the bits of the toggle-bit mask are inverted, all of them together.
\<close>

theorem match_ir_code_iff:
  "match_ir_code remote a b \<longleftrightarrow>
     (\<forall>k<64. bit (r_ignore_mask remote) k \<or> (bit a k \<longleftrightarrow> bit b k)) \<or>
     (\<forall>k<64. bit (r_ignore_mask remote) k \<or>
        (bit a k \<longleftrightarrow> (bit b k \<noteq> bit (r_toggle_bit_mask remote) k)))"
  by (auto simp: match_ir_code_def bit_eq_iff bit_or_iff bit_xor_iff)

theorem match_ir_code_iff_witness:
  "match_ir_code (zero_remote\<lparr>r_toggle_bit_mask := 0x800\<rparr>) 0x123 0x923"
proof (rule match_ir_code_iff [THEN iffD2], rule disjI2)
  have "(0x123 :: ir_code) = 0x923 XOR 0x800" by simp
  then show "\<forall>k<64. bit (r_ignore_mask (zero_remote\<lparr>r_toggle_bit_mask := 0x800\<rparr>)) k \<or>
      (bit (0x123 :: ir_code) k \<longleftrightarrow> (bit (0x923 :: ir_code) k \<noteq>
        bit (r_toggle_bit_mask (zero_remote\<lparr>r_toggle_bit_mask := 0x800\<rparr>)) k))"
    by (simp only: bit_xor_iff) simp
qed

subsection \<open>Tolerances as intervals\<close>

text \<open>
  A remote whose tolerances are the usual ones, and durations for which none of the products
  and sums of the tests leaves 32 bits.
\<close>

definition sane_eps :: "ir_remote \<Rightarrow> bool" where
  "sane_eps remote \<longleftrightarrow> 0 \<le> r_eps remote \<and> r_eps remote \<le> 100 \<and>
     0 \<le> r_aeps remote \<and> r_aeps remote \<le> PULSE_MASK"

definition duration :: "int \<Rightarrow> bool" where
  "duration t \<longleftrightarrow> 0 \<le> t \<and> t \<le> PULSE_MASK"

definition tolerance :: "ir_remote \<Rightarrow> lirc_t \<Rightarrow> int" where
  "tolerance remote ex = max (ex * r_eps remote div 100) (r_aeps remote)"

lemma eps_part:
  assumes "sane_eps remote" and "duration ex"
  shows "quot (mul32 ex (r_eps remote)) 100 = ex * r_eps remote div 100"
    and "0 \<le> ex * r_eps remote div 100" and "ex * r_eps remote div 100 \<le> ex"
proof -
  from assms have "0 \<le> ex * r_eps remote" and le: "ex * r_eps remote \<le> ex * 100"
    by (auto simp: sane_eps_def duration_def intro: mult_left_mono)
  moreover from assms(2) have "ex * 100 < 2 ^ 31"
    by (simp add: duration_def)
  ultimately have "mul32 ex (r_eps remote) = ex * r_eps remote"
    by (simp add: mul32_def small in32_def)
  with \<open>0 \<le> ex * r_eps remote\<close> show "quot (mul32 ex (r_eps remote)) 100 = ex * r_eps remote div 100"
    by (simp add: quot_nonneg)
  show "0 \<le> ex * r_eps remote div 100"
    using \<open>0 \<le> ex * r_eps remote\<close> by (simp add: pos_imp_zdiv_nonneg_iff)
  show "ex * r_eps remote div 100 \<le> ex"
    using le zdiv_mono1 [OF le, of 100] by simp
qed

lemma tolerance_tests:
  assumes "sane_eps remote" and "duration delta" and "duration ex"
  shows expect_iff: "expect remote delta ex \<longleftrightarrow> \<bar>ex - delta\<bar> \<le> tolerance remote ex"
    and expect_at_least_iff: "expect_at_least remote delta ex \<longleftrightarrow> ex - tolerance remote ex \<le> delta"
    and expect_at_most_iff: "expect_at_most remote delta ex \<longleftrightarrow> delta \<le> ex + tolerance remote ex"
proof -
  note e = eps_part [OF assms(1) assms(3)]
  have r: "sub32 ex delta = ex - delta" "abs32 (ex - delta) = \<bar>ex - delta\<bar>"
    "add32 delta (ex * r_eps remote div 100) = delta + ex * r_eps remote div 100"
    "add32 ex (ex * r_eps remote div 100) = ex + ex * r_eps remote div 100"
    "add32 delta (r_aeps remote) = delta + r_aeps remote"
    "add32 ex (r_aeps remote) = ex + r_aeps remote"
    using e assms by (auto simp: c_arith duration_def sane_eps_def in32_def intro!: i32_id)
  show "expect remote delta ex \<longleftrightarrow> \<bar>ex - delta\<bar> \<le> tolerance remote ex"
    by (auto simp: expect_def e(1) r tolerance_def)
  show "expect_at_least remote delta ex \<longleftrightarrow> ex - tolerance remote ex \<le> delta"
    by (auto simp: expect_at_least_def e(1) r tolerance_def)
  show "expect_at_most remote delta ex \<longleftrightarrow> delta \<le> ex + tolerance remote ex"
    by (auto simp: expect_at_most_def e(1) r tolerance_def)
qed

text \<open>
  On durations a receiver can deliver, the three tolerance tests are comparisons with the
  interval of radius \<open>max (eps% of the nominal value) aeps\<close>, free of overflow: \<open>expect\<close> is
  membership, \<open>expect_at_least\<close> and \<open>expect_at_most\<close> its two sides.
\<close>

theorem expect_interval:
  assumes "sane_eps remote" and "duration delta" and "duration ex"
  shows "(expect remote delta ex \<longleftrightarrow> \<bar>ex - delta\<bar> \<le> tolerance remote ex) \<and>
    (expect_at_least remote delta ex \<longleftrightarrow> ex - tolerance remote ex \<le> delta) \<and>
    (expect_at_most remote delta ex \<longleftrightarrow> delta \<le> ex + tolerance remote ex)"
  using expect_iff [OF assms] expect_at_least_iff [OF assms] expect_at_most_iff [OF assms]
  by simp

theorem expect_interval_witness:
  "expect (zero_remote\<lparr>r_eps := 30, r_aeps := 100\<rparr>) 700 560
     \<longleftrightarrow> \<bar>560 - 700\<bar> \<le> tolerance (zero_remote\<lparr>r_eps := 30, r_aeps := 100\<rparr>) 560"
  using expect_interval [of "zero_remote\<lparr>r_eps := 30, r_aeps := 100\<rparr>" 700 560]
  by (simp add: sane_eps_def duration_def zero_remote_def)

lemma expect_refl: "sane_eps remote \<Longrightarrow> duration t \<Longrightarrow> expect remote t t"
  using eps_part(2) [of remote t] by (auto simp: expect_iff tolerance_def sane_eps_def)

lemma min_gap_le_max_gap: "min_gap remote \<le> max_gap remote"
  by (auto simp: min_gap_def max_gap_def)

end
