(* ===== verification/CText.thy ===== *)
theory CText
  imports Prelude
begin

text \<open>
  Text as the C library reads and prints it, for the components that exchange lines: comparison
  without case, \<open>strtok\<close>, the number readers \<open>strtoul\<close> and \<open>strtol\<close> with base 0, and the formats
  \<open>%x\<close>, \<open>%016llx\<close> and \<open>%d\<close> of \<open>printf\<close>. A string is a list of characters without the final null.
\<close>

subsection \<open>Characters\<close>

definition tolower :: "char \<Rightarrow> char" where
  "tolower c = (if of_char c \<in> {65..<91 :: nat} then char_of (of_char c + 32 :: nat) else c)"

definition strcasecmp :: "string \<Rightarrow> string \<Rightarrow> bool" where
  "strcasecmp a b \<longleftrightarrow> map tolower a = map tolower b"

subsection \<open>Words\<close>

text \<open>The words that repeated calls of \<open>strtok\<close> find between the separators \<open>sep\<close>.\<close>

fun words :: "(char \<Rightarrow> bool) \<Rightarrow> string \<Rightarrow> string list" where
  "words sep [] = []"
| "words sep (c # cs) =
    (if sep c then words sep cs
     else (case cs of
         [] \<Rightarrow> [[c]]
       | d # _ \<Rightarrow> if sep d then [c] # words sep cs
                 else (case words sep cs of [] \<Rightarrow> [[c]] | w # ws \<Rightarrow> (c # w) # ws)))"

subsection \<open>Reading numbers\<close>

text \<open>The C library's \<open>strtoul\<close> with base 0, 32 bits wide: magnitude, sign and the rest.\<close>

definition isspace :: "char \<Rightarrow> bool" where
  "isspace c \<longleftrightarrow> of_char c = (32 :: nat) \<or> of_char c \<in> {9..13 :: nat}"

definition digit_of :: "char \<Rightarrow> nat option" where
  "digit_of c = (let i = of_char c :: nat in
     if 48 \<le> i \<and> i \<le> 57 then Some (i - 48)
     else if 97 \<le> i \<and> i \<le> 122 then Some (i - 97 + 10)
     else if 65 \<le> i \<and> i \<le> 90 then Some (i - 65 + 10)
     else None)"

definition is_digit :: "nat \<Rightarrow> char \<Rightarrow> bool" where
  "is_digit base c \<longleftrightarrow> (case digit_of c of None \<Rightarrow> False | Some d \<Rightarrow> d < base)"

definition digits_value :: "nat \<Rightarrow> string \<Rightarrow> int" where
  "digits_value base ds = foldl (\<lambda>n c. n * int base + int (the (digit_of c))) 0 ds"

text \<open>An optional sign, and the base that the prefix of a number stands for.\<close>

definition sign_of :: "string \<Rightarrow> bool \<times> string" where
  "sign_of s = (if take 1 s = ''-'' then (True, drop 1 s) else if take 1 s = ''+'' then (False, drop 1 s) else (False, s))"

definition has_hex_prefix :: "string \<Rightarrow> bool" where
  "has_hex_prefix s \<longleftrightarrow> take 2 s = ''0x'' \<or> take 2 s = ''0X''"

definition base_of :: "string \<Rightarrow> nat \<times> string" where
  "base_of s = (if has_hex_prefix s then (16, drop 2 s) else if take 1 s = ''0'' then (8, s) else (10, s))"

definition strto_core :: "string \<Rightarrow> (bool \<times> int) \<times> string" where
  "strto_core s =
    (let (neg, s2) = sign_of (dropWhile isspace s);
         (base, s3) = base_of s2;
         ds = takeWhile (is_digit base) s3
     in if ds = [] then ((False, 0), s)
        else ((neg, digits_value base ds), dropWhile (is_digit base) s3))"

definition strtoul :: "string \<Rightarrow> int \<times> string" where
  "strtoul s =
    (let ((neg, n), rest) = strto_core s
     in (if n \<ge> 2 ^ 32 then 2 ^ 32 - 1 else if neg then u32 (- n) else n, rest))"

definition strtol :: "string \<Rightarrow> int \<times> string" where
  "strtol s =
    (let ((neg, n), rest) = strto_core s;
         v = (if neg then - n else n)
     in (if v \<ge> 2 ^ 31 then 2 ^ 31 - 1 else if v < - (2 ^ 31) then - (2 ^ 31) else v, rest))"

text \<open>\<open>atoi\<close>: decimal digits only.\<close>

definition atoi :: "string \<Rightarrow> int" where
  "atoi s =
    (let (neg, s2) = sign_of (dropWhile isspace s);
         n = digits_value 10 (takeWhile (is_digit 10) s2);
         v = (if neg then - n else n)
     in if v \<ge> 2 ^ 31 then 2 ^ 31 - 1 else if v < - (2 ^ 31) then - (2 ^ 31) else v)"

text \<open>\<open>%i\<close> of \<open>scanf\<close>: the base of \<open>strtol\<close>, but a number too big is cut to 32 bits.\<close>

definition scan_int :: "string \<Rightarrow> int" where
  "scan_int s = (let ((neg, n), _) = strto_core s in i32 (if neg then - n else n))"

subsection \<open>Printing numbers\<close>

definition hex_digit :: "nat \<Rightarrow> char" where
  "hex_digit d = (if d < 10 then char_of (48 + d) else char_of (87 + d))"

fun hex_digits :: "nat \<Rightarrow> nat \<Rightarrow> string" where
  "hex_digits 0 v = []"
| "hex_digits (Suc n) v = hex_digits n (v div 16) @ [hex_digit (v mod 16)]"

text \<open>\<open>%02x\<close> of an \<open>unsigned int\<close>: as many digits as it needs, at least two.\<close>

definition hex_width :: "nat \<Rightarrow> nat" where
  "hex_width v =
    (if v < 16 ^ 2 then 2 else if v < 16 ^ 3 then 3 else if v < 16 ^ 4 then 4 else if v < 16 ^ 5 then 5
     else if v < 16 ^ 6 then 6 else if v < 16 ^ 7 then 7 else 8)"

text \<open>\<open>%X\<close> has capital letters.\<close>

definition upper_hex :: "char \<Rightarrow> char" where
  "upper_hex c = (if of_char c \<ge> (97 :: nat) then char_of (of_char c - 32 :: nat) else c)"

text \<open>\<open>%d\<close> of a number that is not negative.\<close>

fun dec_digits :: "nat \<Rightarrow> string" where
  "dec_digits n = (if n < 10 then [char_of (48 + n)] else dec_digits (n div 10) @ [char_of (48 + n mod 10)])"

declare dec_digits.simps [simp del]

text \<open>
  \<open>%d\<close>, \<open>%lu\<close> of an \<open>unsigned long\<close> of 32 bits, and \<open>%0*llX\<close>: as many hexadecimal digits as the number
  needs, at least \<open>w\<close>. A width without the zero fills up with blanks, in front or, with a minus, behind.
\<close>

definition dec_int :: "int \<Rightarrow> string" where
  "dec_int n = (if n < 0 then ''-'' @ dec_digits (nat (- n)) else dec_digits (nat n))"

definition ulong :: "int \<Rightarrow> string" where
  "ulong n = dec_digits (nat (u32 n))"

fun hex_len :: "nat \<Rightarrow> nat" where
  "hex_len n = (if n < 16 then 1 else Suc (hex_len (n div 16)))"

declare hex_len.simps [simp del]

definition hex_number :: "nat \<Rightarrow> nat \<Rightarrow> string" where
  "hex_number w v = map upper_hex (hex_digits (max w (hex_len v)) v)"

definition pad_left :: "nat \<Rightarrow> string \<Rightarrow> string" where
  "pad_left w s = replicate (w - length s) (CHR '' '') @ s"

definition pad_right :: "nat \<Rightarrow> string \<Rightarrow> string" where
  "pad_right w s = s @ replicate (w - length s) (CHR '' '')"

subsection \<open>What is printed can be read\<close>

fun of_hex :: "string \<Rightarrow> nat" where
  "of_hex [] = 0"
| "of_hex (c # cs) = (if of_char c < (58::nat) then of_char c - 48 else of_char c - 87) * 16 ^ length cs + of_hex cs"

lemma of_hex_append: "of_hex (xs @ ys) = of_hex xs * 16 ^ length ys + of_hex ys"
  by (induction xs) (simp_all add: algebra_simps power_add)

lemma length_hex_digits [simp]: "length (hex_digits n v) = n"
  by (induction n arbitrary: v) simp_all

lemma of_hex_digits: "of_hex (hex_digits n v) = v mod 16 ^ n"
proof (induction n arbitrary: v)
  case 0
  show ?case by simp
next
  case (Suc n)
  have "of_hex [hex_digit d] = d" if "d < 16" for d
    using that by (simp add: hex_digit_def)
  then have "of_hex (hex_digits (Suc n) v) = (v div 16 mod 16 ^ n) * 16 + v mod 16"
    using Suc by (simp add: of_hex_append)
  also have "\<dots> = v mod 16 ^ Suc n"
    using mod_mult2_eq [of v 16 "16 ^ n"] by simp
  finally show ?case .
qed

lemma hex_width_enough: "v < 2 ^ 32 \<Longrightarrow> v < 16 ^ hex_width v"
  by (simp add: hex_width_def)

subsection \<open>Words and numbers that are printed and read back\<close>

lemma words_sep [simp]: "sep c \<Longrightarrow> words sep (c # cs) = words sep cs"
  by simp

lemma words_word:
  "w \<noteq> [] \<Longrightarrow> \<forall>c\<in>set w. \<not> sep c \<Longrightarrow> rest = [] \<or> sep (hd rest) \<Longrightarrow> words sep (w @ rest) = w # words sep rest"
proof (induction w)
  case Nil
  then show ?case by simp
next
  case (Cons c w)
  show ?case
  proof (cases w)
    case Nil
    with Cons.prems show ?thesis by (cases rest) auto
  next
    case (Cons d w')
    with Cons.IH Cons.prems show ?thesis by simp
  qed
qed

lemma digits_value_append:
  "digits_value base (xs @ ys) = digits_value base xs * int base ^ length ys + digits_value base ys"
proof -
  have *: "foldl (\<lambda>n c. n * int base + int (the (digit_of c))) a ys =
      a * int base ^ length ys + foldl (\<lambda>n c. n * int base + int (the (digit_of c))) 0 ys" for a ys
  proof (induction ys arbitrary: a rule: rev_induct)
    case Nil
    show ?case by simp
  next
    case (snoc y ys)
    from snoc [of a] show ?case by (simp add: algebra_simps)
  qed
  show ?thesis by (simp add: digits_value_def * [of "foldl _ 0 xs"])
qed

lemma digit_of_dec: "d < 10 \<Longrightarrow> digit_of (char_of (48 + d)) = Some d"
  by (simp add: digit_of_def)

lemma digit_of_hex: "d < 16 \<Longrightarrow> digit_of (hex_digit d) = Some d"
  by (simp add: digit_of_def hex_digit_def)

lemma dec_digits_nonempty [simp]: "dec_digits n \<noteq> []"
  by (subst dec_digits.simps) simp

lemma dec_digits_are_digits: "c \<in> set (dec_digits n) \<Longrightarrow> \<exists>d<10::nat. c = char_of (48 + d)"
proof (induction n rule: dec_digits.induct)
  case (1 n)
  show ?case
  proof (cases "n < 10")
    case True
    with 1(2) show ?thesis by (subst (asm) dec_digits.simps) auto
  next
    case False
    with 1(2) have "c \<in> set (dec_digits (n div 10)) \<or> c = char_of (48 + n mod 10)"
      by (subst (asm) dec_digits.simps) auto
    with 1(1) False show ?thesis by (auto intro: exI [of _ "n mod 10"])
  qed
qed

lemma dec_digits_value: "digits_value 10 (dec_digits n) = int n"
proof (induction n rule: dec_digits.induct)
  case (1 n)
  have one: "digits_value 10 [char_of (48 + d)] = int d" if "d < 10" for d
    using digit_of_dec [OF that] by (simp add: digits_value_def)
  show ?case
  proof (cases "n < 10")
    case True
    then show ?thesis by (simp add: dec_digits.simps [of n] one)
  next
    case False
    then have "digits_value 10 (dec_digits n) = int (n div 10) * 10 + int (n mod 10)"
      using 1 one [of "n mod 10"] by (simp add: dec_digits.simps [of n] digits_value_append)
    then show ?thesis by (simp add: zdiv_int zmod_int)
  qed
qed

lemma digit_of_zero: "digit_of (CHR ''0'') = Some 0"
  by (simp add: digit_of_def)

lemma dec_digits_first: "0 < n \<Longrightarrow> hd (dec_digits n) \<noteq> CHR ''0''"
proof (induction n rule: dec_digits.induct)
  case (1 n)
  have "char_of (48 + d) \<noteq> CHR ''0''" if "0 < d" "d < 10" for d :: nat
    using digit_of_dec [of d] digit_of_zero that by auto
  with 1 show ?case
    by (cases "n < 10") (simp_all add: dec_digits.simps [of n])
qed

lemma hex_digits_value: "digits_value 16 (hex_digits n v) = int (v mod 16 ^ n)"
proof (induction n arbitrary: v)
  case 0
  show ?case by (simp add: digits_value_def)
next
  case (Suc n)
  have "digits_value 16 [hex_digit (v mod 16)] = int (v mod 16)"
    using digit_of_hex [of "v mod 16"] by (simp add: digits_value_def)
  then have "digits_value 16 (hex_digits (Suc n) v) = int ((v div 16 mod 16 ^ n) * 16 + v mod 16)"
    by (simp add: digits_value_append Suc)
  also have "(v div 16 mod 16 ^ n) * 16 + v mod 16 = v mod 16 ^ Suc n"
    using mod_mult2_eq [of v 16 "16 ^ n"] by simp
  finally show ?case .
qed

lemma hex_digits_are_digits: "c \<in> set (hex_digits n v) \<Longrightarrow> \<exists>d<16. c = hex_digit d"
  by (induction n arbitrary: v) (auto intro: exI [of _ "_ mod 16"])

lemma strto_core_dec:
  assumes "rest = [] \<or> \<not> is_digit 10 (hd rest) \<and> hd rest \<noteq> CHR ''x'' \<and> hd rest \<noteq> CHR ''X''"
  shows "strto_core (dec_digits n @ rest) = ((False, int n), rest)"
proof -
  obtain c ds where c: "dec_digits n = c # ds"
    by (cases "dec_digits n") auto
  have digit: "is_digit 10 (char_of (48 + d))" if "d < 10" for d :: nat
    using digit_of_dec [OF that] that by (simp add: is_digit_def)
  have all: "\<forall>x\<in>set (dec_digits n). is_digit 10 x"
    using dec_digits_are_digits [of _ n] digit by blast
  have "is_digit 10 c"
    using all c by simp
  then have plain: "\<not> isspace c" "c \<noteq> CHR ''-''" "c \<noteq> CHR ''+''"
    by (auto simp: is_digit_def digit_of_def isspace_def Let_def split: if_splits)
  have tw: "takeWhile (is_digit 10) (dec_digits n @ rest) = dec_digits n"
    "dropWhile (is_digit 10) (dec_digits n @ rest) = rest"
    using all assms by (cases rest; simp add: takeWhile_append2 dropWhile_append2)+
  show ?thesis
  proof (cases "n = 0")
    case True
    have z: "dec_digits 0 = ''0''" by code_simp
    have eight: "is_digit 8 (CHR ''0'')" "digits_value 8 ''0'' = 0" "\<not> isspace (CHR ''0'')"
      by code_simp+
    have "\<not> is_digit 8 x" if "\<not> is_digit 10 x" for x
      using that by (auto simp: is_digit_def split: option.splits)
    with assms have "takeWhile (is_digit 8) (CHR ''0'' # rest) = ''0''" "dropWhile (is_digit 8) (CHR ''0'' # rest) = rest"
      using eight by (cases rest; simp)+
    with True z eight assms show ?thesis
      by (cases rest) (auto simp: strto_core_def sign_of_def base_of_def has_hex_prefix_def Let_def)
  next
    case False
    with dec_digits_first [of n] c have "c \<noteq> CHR ''0''" by simp
    with plain c tw show ?thesis
      using dec_digits_value [of n]
      by (auto simp: strto_core_def sign_of_def base_of_def has_hex_prefix_def Let_def)
  qed
qed

lemma scan_int_dec: "int n < 2 ^ 31 \<Longrightarrow> scan_int (dec_digits n) = int n"
  using strto_core_dec [of "[]" n] by (simp add: scan_int_def small in32_def)

lemma dec_digit_char:
  assumes "c \<in> set (dec_digits n)"
  shows "is_digit 10 c \<and> \<not> isspace c"
proof -
  from dec_digits_are_digits [OF assms] obtain d :: nat where "d < 10" "c = char_of (48 + d)"
    by blast
  then have "is_digit 10 c" using digit_of_dec [of d] by (simp add: is_digit_def)
  then show ?thesis
    by (auto simp: is_digit_def digit_of_def isspace_def Let_def split: if_splits)
qed

lemma hex_digit_char:
  assumes "c \<in> set (hex_digits n v)"
  shows "is_digit 16 c \<and> \<not> isspace c"
proof -
  from hex_digits_are_digits [OF assms] obtain d where "d < 16" "c = hex_digit d"
    by blast
  then have "is_digit 16 c" using digit_of_hex [of d] by (simp add: is_digit_def)
  then show ?thesis
    by (auto simp: is_digit_def digit_of_def isspace_def Let_def split: if_splits)
qed

end
