(* ===== verification/Config.thy ===== *)
theory Config
  imports LircDefs CText
begin

text \<open>
  The parser of the remote configuration files, \<open>winlirc/config.cpp\<close> with the tables of
  \<open>config.h\<close>: the number readers, the lines inside a remote (\<open>defineRemote\<close>, \<open>defineCode\<close>,
  \<open>addSignal\<close>), the line loop with its modes and includes (\<open>read_config_recursive\<close>), the
  post-processing of each remote and \<open>sort_by_bit_count\<close>.

  A string is a list of ASCII characters. The file system is a map from paths to file contents. The
  state \<open>cfg\<close> holds the static \<open>parse_error\<close> and the local variables of the line loop; \<open>cf_ub\<close> is
  set where the source follows a null pointer. The chain of remotes behind \<open>top_rem\<close> is a list and
  \<open>rem\<close> an index into it. Memory is never exhausted. The C library functions the parser calls
  (\<open>strtoul\<close>, \<open>strtok\<close>, \<open>fgets\<close>, \<open>_splitpath\<close>, \<open>_stricmp\<close>) are modelled for what it uses of them.
\<close>

subsection \<open>Characters and numbers\<close>

text \<open>The entry of the table \<open>convert\<close> of \<open>strtouq\<close>; \<^const>\<open>None\<close> is -1.\<close>

definition convert :: "char \<Rightarrow> nat option" where
  "convert c = (let i = of_char c :: nat in
     if 48 \<le> i \<and> i \<le> 57 then Some (i - 48)
     else if 97 \<le> i \<and> i \<le> 102 then Some (i - 97 + 10)
     else if 65 \<le> i \<and> i \<le> 70 then Some (i - 65 + 10)
     else None)"

definition is_blank :: "char \<Rightarrow> bool" where
  "is_blank c \<longleftrightarrow> c = CHR 0x09 \<or> c = CHR '' ''"

fun strtouq_digits :: "string \<Rightarrow> nat \<Rightarrow> ir_code \<Rightarrow> ir_code \<times> string" where
  "strtouq_digits [] base res = (res, [])"
| "strtouq_digits (c # cs) base res =
    (case convert c of
       None \<Rightarrow> (res, c # cs)
     | Some d \<Rightarrow> strtouq_digits cs base (res * of_nat base + of_nat d))"

text \<open>\<open>strtouq\<close> with base 0: the value and the rest of the string.\<close>

definition strtouq :: "string \<Rightarrow> ir_code \<times> string" where
  "strtouq val =
    (let val = dropWhile is_blank val
     in case val of
          CHR ''0'' # c # cs \<Rightarrow>
            if c = CHR ''x'' \<or> c = CHR ''X'' then strtouq_digits cs 16 0 else strtouq_digits (c # cs) 8 0
        | CHR ''0'' # [] \<Rightarrow> strtouq_digits [] 8 0
        | _ \<Rightarrow> strtouq_digits val 10 0)"

subsection \<open>The state of the parser\<close>

datatype directive = ID_none | ID_remote | ID_codes | ID_raw_codes | ID_raw_name

definition no_code_entry :: ir_ncode where
  "no_code_entry = \<lparr>n_name = [], n_code = 0, n_length = 0, n_signals = None, n_next = [],
     n_current = None, n_transmit_state = None\<rparr>"

record cfg =
  cf_error :: bool
  cf_ub :: bool
  cf_remotes :: "ir_remote list"
  cf_rem :: nat
  cf_mode :: directive
  cf_codes_list :: "ir_ncode list"
  cf_raw_codes :: "ir_ncode list"
  cf_signals :: "lirc_t list"
  cf_raw_code :: ir_ncode

definition cfg_init :: cfg where
  "cfg_init = \<lparr>cf_error = False, cf_ub = False, cf_remotes = [], cf_rem = 0, cf_mode = ID_none,
     cf_codes_list = [], cf_raw_codes = [], cf_signals = [], cf_raw_code = no_code_entry\<rparr>"

definition fail :: "(cfg, unit) state" where
  "fail = wr (\<lambda>s. s\<lparr>cf_error := True\<rparr>)"

definition crash :: "(cfg, unit) state" where
  "crash = wr (\<lambda>s. s\<lparr>cf_ub := True\<rparr>)"

definition set_rem :: "(ir_remote \<Rightarrow> ir_remote) \<Rightarrow> (cfg, unit) state" where
  "set_rem f = wr (\<lambda>s. s\<lparr>cf_remotes := (cf_remotes s)[cf_rem s := f (cf_remotes s ! cf_rem s)]\<rparr>)"

subsection \<open>Readers of one value\<close>

definition s_strtocode :: "string \<Rightarrow> (cfg, ir_code) state" where
  "s_strtocode val =
    (let (code, rest) = strtouq val
     in if rest \<noteq> [] \<or> val = [] then do { fail; ret 0 } else ret code)"

definition s_strtoul :: "string \<Rightarrow> (cfg, int) state" where
  "s_strtoul val =
    (let (n, rest) = strtoul val
     in if val = [] \<or> rest \<noteq> [] then do { fail; ret 0 } else ret n)"

definition s_strtoi :: "string \<Rightarrow> (cfg, int) state" where
  "s_strtoi val =
    (let (n, rest) = strtol val
     in if val = [] \<or> rest \<noteq> [] then do { fail; ret 0 } else ret n)"

definition s_strtoui :: "string \<Rightarrow> (cfg, int) state" where
  "s_strtoui val =
    (let (n, rest) = strtoul val
     in if val = [] \<or> rest \<noteq> [] then do { fail; ret 0 } else ret n)"

definition s_strtolirc_t :: "string \<Rightarrow> (cfg, lirc_t) state" where
  "s_strtolirc_t val =
    (let (n, rest) = strtoul val
     in if val = [] \<or> rest \<noteq> [] then do { fail; ret 0 } else ret (i32 n))"

definition checkMode :: "directive \<Rightarrow> (cfg, bool) state" where
  "checkMode c_mode = do {
     is_mode \<leftarrow> rd cf_mode;
     if is_mode \<noteq> c_mode then do { fail; ret False } else ret True
   }"

definition addSignal :: "string \<Rightarrow> (cfg, bool) state" where
  "addSignal val = do {
     t \<leftarrow> s_strtolirc_t val;
     err \<leftarrow> rd cf_error;
     if err then ret False
     else do { wr (\<lambda>s. s\<lparr>cf_signals := cf_signals s @ [t]\<rparr>); ret True }
   }"

definition defineCode :: "string \<Rightarrow> string \<Rightarrow> (cfg, ir_ncode) state" where
  "defineCode key val = do {
     c \<leftarrow> s_strtocode val;
     ret (no_code_entry\<lparr>n_name := key, n_code := c\<rparr>)
   }"

definition defineNode :: "ir_ncode \<Rightarrow> string \<Rightarrow> (cfg, ir_ncode) state" where
  "defineNode code val = do {
     c \<leftarrow> s_strtocode val;
     ret (code\<lparr>n_next := n_next code @ [c]\<rparr>)
   }"

subsection \<open>Flags\<close>

definition all_flags :: "(string \<times> int) list" where
  "all_flags =
    [(''RAW_CODES'', RAW_CODES), (''RC5'', RC5), (''SHIFT_ENC'', SHIFT_ENC), (''RC6'', RC6),
     (''RCMM'', RCMM), (''SPACE_ENC'', SPACE_ENC), (''SPACE_FIRST'', SPACE_FIRST),
     (''GOLDSTAR'', GOLDSTAR), (''GRUNDIG'', GRUNDIG), (''BO'', BO), (''SERIAL'', SERIAL), (''XMP'', XMP),
     (''REVERSE'', REVERSE), (''NO_HEAD_REP'', NO_HEAD_REP), (''NO_FOOT_REP'', NO_FOOT_REP),
     (''CONST_LENGTH'', CONST_LENGTH), (''REPEAT_HEADER'', REPEAT_HEADER)]"

fun split_at :: "char \<Rightarrow> string \<Rightarrow> string list" where
  "split_at sep [] = [[]]"
| "split_at sep (c # cs) =
    (if c = sep then [] # split_at sep cs
     else (case split_at sep cs of [] \<Rightarrow> [[c]] | w # ws \<Rightarrow> (c # w) # ws))"

definition flag_of :: "string \<Rightarrow> int option" where
  "flag_of flag = map_option snd (find (\<lambda>(nm, f). strcasecmp nm flag) all_flags)"

text \<open>The loop over the flags between the bars; \<^const>\<open>None\<close> is a parse error.\<close>

fun parse_flag_list :: "string list \<Rightarrow> int \<Rightarrow> int option" where
  "parse_flag_list [] flags = Some flags"
| "parse_flag_list (flag # rest) flags =
    (case flag_of flag of
       None \<Rightarrow> None
     | Some f \<Rightarrow>
         if f AND IR_PROTOCOL_MASK \<noteq> 0 \<and> flags AND IR_PROTOCOL_MASK \<noteq> 0 then None
         else parse_flag_list rest (flags OR f))"

definition parseFlags :: "string \<Rightarrow> (cfg, int) state" where
  "parseFlags val = (case parse_flag_list (split_at (CHR ''|'') val) 0 of
       None \<Rightarrow> do { fail; ret 0 }
     | Some flags \<Rightarrow> ret flags)"

subsection \<open>A line inside a remote\<close>

text \<open>Keys with one value; the result is the number of values used, \<^const>\<open>None\<close> for another key.\<close>

definition set_int :: "(int \<Rightarrow> ir_remote \<Rightarrow> ir_remote) \<Rightarrow> (cfg, int) state \<Rightarrow> (cfg, int) state" where
  "set_int f m = do { n \<leftarrow> m; set_rem (f n); ret 1 }"

definition set_code_field :: "(ir_code \<Rightarrow> ir_remote \<Rightarrow> ir_remote) \<Rightarrow> string \<Rightarrow> (cfg, int) state" where
  "set_code_field f val = do { c \<leftarrow> s_strtocode val; set_rem (f c); ret 1 }"

definition set_pair :: "(lirc_t \<Rightarrow> ir_remote \<Rightarrow> ir_remote) \<Rightarrow> (lirc_t \<Rightarrow> ir_remote \<Rightarrow> ir_remote) \<Rightarrow>
    string \<Rightarrow> string \<Rightarrow> (cfg, int) state" where
  "set_pair f g val val2 = do {
     p \<leftarrow> s_strtolirc_t val;
     set_rem (f p);
     q \<leftarrow> s_strtolirc_t val2;
     set_rem (g q);
     ret 2
   }"

definition serial_mode :: "string \<Rightarrow> (cfg, int) state" where
  "serial_mode val =
    (case val of
       [] \<Rightarrow> do { fail; ret 0 }
     | b # rest \<Rightarrow>
         if of_char b < (53 :: nat) \<or> of_char b > (57 :: nat) then do { fail; ret 0 }
         else do {
           set_rem (\<lambda>rem. rem\<lparr>r_bits_in_byte := of_char b - 48\<rparr>);
           (case rest of
              [] \<Rightarrow> do { fail; ret 0 }
            | p # stop \<Rightarrow>
                let p = tolower p
                in if p \<noteq> CHR ''n'' \<and> p \<noteq> CHR ''e'' \<and> p \<noteq> CHR ''o'' then do { fail; ret 0 }
                   else do {
                     set_rem (\<lambda>rem. rem\<lparr>r_parity := (if p = CHR ''n'' then IR_PARITY_NONE
                       else if p = CHR ''e'' then IR_PARITY_EVEN else IR_PARITY_ODD)\<rparr>);
                     if stop = ''1.5'' then do { set_rem (\<lambda>rem. rem\<lparr>r_stop_bits := 3\<rparr>); ret 1 }
                     else do {
                       n \<leftarrow> s_strtoui stop;
                       set_rem (\<lambda>rem. rem\<lparr>r_stop_bits := u32 (n * 2)\<rparr>);
                       ret 1
                     }
                   })
         })"

definition define_pair :: "string \<Rightarrow> string \<Rightarrow> string \<Rightarrow> (cfg, int) state" where
  "define_pair key val val2 =
    (if strcasecmp ''header'' key then
       set_pair (\<lambda>p rem. rem\<lparr>r_phead := p\<rparr>) (\<lambda>s rem. rem\<lparr>r_shead := s\<rparr>) val val2
     else if strcasecmp ''three'' key then
       set_pair (\<lambda>p rem. rem\<lparr>r_pthree := p\<rparr>) (\<lambda>s rem. rem\<lparr>r_sthree := s\<rparr>) val val2
     else if strcasecmp ''two'' key then
       set_pair (\<lambda>p rem. rem\<lparr>r_ptwo := p\<rparr>) (\<lambda>s rem. rem\<lparr>r_stwo := s\<rparr>) val val2
     else if strcasecmp ''one'' key then
       set_pair (\<lambda>p rem. rem\<lparr>r_pone := p\<rparr>) (\<lambda>s rem. rem\<lparr>r_sone := s\<rparr>) val val2
     else if strcasecmp ''zero'' key then
       set_pair (\<lambda>p rem. rem\<lparr>r_pzero := p\<rparr>) (\<lambda>s rem. rem\<lparr>r_szero := s\<rparr>) val val2
     else if strcasecmp ''foot'' key then
       set_pair (\<lambda>p rem. rem\<lparr>r_pfoot := p\<rparr>) (\<lambda>s rem. rem\<lparr>r_sfoot := s\<rparr>) val val2
     else if strcasecmp ''repeat'' key then
       set_pair (\<lambda>p rem. rem\<lparr>r_prepeat := p\<rparr>) (\<lambda>s rem. rem\<lparr>r_srepeat := s\<rparr>) val val2
     else if strcasecmp ''pre'' key then
       set_pair (\<lambda>p rem. rem\<lparr>r_pre_p := p\<rparr>) (\<lambda>s rem. rem\<lparr>r_pre_s := s\<rparr>) val val2
     else if strcasecmp ''post'' key then
       set_pair (\<lambda>p rem. rem\<lparr>r_post_p := p\<rparr>) (\<lambda>s rem. rem\<lparr>r_post_s := s\<rparr>) val val2
     else do { fail; ret 0 })"

definition define_gap :: "string \<Rightarrow> string option \<Rightarrow> (cfg, int) state" where
  "define_gap val val2 = do {
     (case val2 of
        None \<Rightarrow> ret ()
      | Some v \<Rightarrow> do { n \<leftarrow> s_strtoul v; set_rem (\<lambda>rem. rem\<lparr>r_gap2 := i32 n\<rparr>) });
     n \<leftarrow> s_strtoul val;
     set_rem (\<lambda>rem. rem\<lparr>r_gap := i32 n\<rparr>);
     ret (if val2 \<noteq> None then 2 else 1)
   }"

definition defineRemote :: "string \<Rightarrow> string \<Rightarrow> string option \<Rightarrow> (cfg, int) state" where
  "defineRemote key val val2 =
    (if strcasecmp ''name'' key then do { set_rem (\<lambda>rem. rem\<lparr>r_name := Some val\<rparr>); ret 1 }
     else if strcasecmp ''bits'' key then set_int (\<lambda>n rem. rem\<lparr>r_bits := n\<rparr>) (s_strtoi val)
     else if strcasecmp ''flags'' key then set_int (\<lambda>n rem. rem\<lparr>r_flags := r_flags rem OR n\<rparr>) (parseFlags val)
     else if strcasecmp ''eps'' key then set_int (\<lambda>n rem. rem\<lparr>r_eps := n\<rparr>) (s_strtoi val)
     else if strcasecmp ''aeps'' key then set_int (\<lambda>n rem. rem\<lparr>r_aeps := n\<rparr>) (s_strtoi val)
     else if strcasecmp ''plead'' key then set_int (\<lambda>n rem. rem\<lparr>r_plead := n\<rparr>) (s_strtolirc_t val)
     else if strcasecmp ''ptrail'' key then set_int (\<lambda>n rem. rem\<lparr>r_ptrail := n\<rparr>) (s_strtolirc_t val)
     else if strcasecmp ''pre_data_bits'' key then set_int (\<lambda>n rem. rem\<lparr>r_pre_data_bits := n\<rparr>) (s_strtoi val)
     else if strcasecmp ''pre_data'' key then set_code_field (\<lambda>c rem. rem\<lparr>r_pre_data := c\<rparr>) val
     else if strcasecmp ''post_data_bits'' key then set_int (\<lambda>n rem. rem\<lparr>r_post_data_bits := n\<rparr>) (s_strtoi val)
     else if strcasecmp ''post_data'' key then set_code_field (\<lambda>c rem. rem\<lparr>r_post_data := c\<rparr>) val
     else if strcasecmp ''gap'' key then define_gap val val2
     else if strcasecmp ''repeat_gap'' key then set_int (\<lambda>n rem. rem\<lparr>r_repeat_gap := i32 n\<rparr>) (s_strtoul val)
     else if strcasecmp ''toggle_bit'' key then set_int (\<lambda>n rem. rem\<lparr>r_toggle_bit := n\<rparr>) (s_strtoi val)
     else if strcasecmp ''toggle_bit_mask'' key then set_code_field (\<lambda>c rem. rem\<lparr>r_toggle_bit_mask := c\<rparr>) val
     else if strcasecmp ''toggle_mask'' key then set_code_field (\<lambda>c rem. rem\<lparr>r_toggle_mask := c\<rparr>) val
     else if strcasecmp ''rc6_mask'' key then set_code_field (\<lambda>c rem. rem\<lparr>r_rc6_mask := c\<rparr>) val
     else if strcasecmp ''ignore_mask'' key then set_code_field (\<lambda>c rem. rem\<lparr>r_ignore_mask := c\<rparr>) val
     else if strcasecmp ''repeat_bit'' key then set_int (\<lambda>n rem. rem\<lparr>r_toggle_bit := n\<rparr>) (s_strtoi val)
     else if strcasecmp ''suppress_repeat'' key then ret 1
     else if strcasecmp ''min_repeat'' key then set_int (\<lambda>n rem. rem\<lparr>r_min_repeat := n\<rparr>) (s_strtoi val)
     else if strcasecmp ''min_code_repeat'' key then set_int (\<lambda>n rem. rem\<lparr>r_min_code_repeat := n\<rparr>) (s_strtoi val)
     else if strcasecmp ''frequency'' key then set_int (\<lambda>n rem. rem\<lparr>r_freq := n\<rparr>) (s_strtoui val)
     else if strcasecmp ''duty_cycle'' key then set_int (\<lambda>n rem. rem\<lparr>r_duty_cycle := n\<rparr>) (s_strtoui val)
     else if strcasecmp ''baud'' key then set_int (\<lambda>n rem. rem\<lparr>r_baud := n\<rparr>) (s_strtoui val)
     else if strcasecmp ''serial_mode'' key then serial_mode val
     else (case val2 of
         Some v2 \<Rightarrow> define_pair key val v2
       | None \<Rightarrow> do { fail; ret 0 }))"

subsection \<open>Checks and post-processing\<close>

text \<open>\<^const>\<open>None\<close> where the loop over the codes follows a null pointer.\<close>

definition mask_code :: "int \<Rightarrow> ir_ncode \<Rightarrow> ir_ncode" where
  "mask_code bits nc = nc\<lparr>n_code := n_code nc AND gen_mask bits,
     n_next := map (\<lambda>c. c AND gen_mask bits) (n_next nc)\<rparr>"

definition sanityChecks :: "ir_remote \<Rightarrow> (bool \<times> ir_remote) option" where
  "sanityChecks rem =
    (if r_name rem = None then Some (False, rem)
     else if is_raw rem then Some (True, rem)
     else (case r_codes rem of
         None \<Rightarrow> None
       | Some ncs \<Rightarrow> Some (True, rem\<lparr>r_pre_data := r_pre_data rem AND gen_mask (r_pre_data_bits rem),
           r_post_data := r_post_data rem AND gen_mask (r_post_data_bits rem),
           r_codes := Some (map (mask_code (r_bits rem)) ncs)\<rparr>)))"

definition kick_reverse :: "ir_remote \<Rightarrow> ir_remote option" where
  "kick_reverse rem =
    (if \<not> is_raw rem \<and> has_flag rem REVERSE then
       (let rem = (if has_pre rem then rem\<lparr>r_pre_data := reverse (r_pre_data rem) (r_pre_data_bits rem)\<rparr> else rem);
            rem = (if has_post rem then rem\<lparr>r_post_data := reverse (r_post_data rem) (r_post_data_bits rem)\<rparr> else rem)
        in case r_codes rem of
             None \<Rightarrow> None
           | Some ncs \<Rightarrow> Some (rem\<lparr>
               r_codes := Some (map (\<lambda>nc. nc\<lparr>n_code := reverse (n_code nc) (r_bits rem)\<rparr>) ncs),
               r_flags := (r_flags rem AND NOT REVERSE) OR COMPAT_REVERSE\<rparr>))
     else Some rem)"

definition fix_toggle :: "ir_remote \<Rightarrow> ir_remote" where
  "fix_toggle rem =
    (let rem = (if has_flag rem RC6 \<and> r_rc6_mask rem = 0 \<and> r_toggle_bit rem > 0
           then rem\<lparr>r_rc6_mask := shl64 1 (bit_count rem - r_toggle_bit rem)\<rparr> else rem);
         rem = (if r_toggle_bit rem > 0
           then (if has_toggle_bit_mask rem then rem
                 else rem\<lparr>r_toggle_bit_mask := shl64 1 (bit_count rem - r_toggle_bit rem)\<rparr>)\<lparr>r_toggle_bit := 0\<rparr>
           else rem)
     in if has_toggle_bit_mask rem \<and> \<not> is_raw rem then
          (case r_codes rem of
             None \<Rightarrow> rem
           | Some ncs \<Rightarrow>
               let st = (case ncs of [] \<Rightarrow> 0 | nc # _ \<Rightarrow> n_code nc) AND r_toggle_bit_mask rem
               in rem\<lparr>r_toggle_bit_mask_state := (if st \<noteq> 0 then st XOR r_toggle_bit_mask rem else st)\<rparr>)
        else rem)"

definition fix_serial :: "ir_remote \<Rightarrow> ir_remote" where
  "fix_serial rem =
    (if is_serial rem then
       (let rem = (if r_baud rem > 0 then
              (let base = i32 (1000000 div r_baud rem);
                   rem = (if r_pzero rem = 0 \<and> r_szero rem = 0 then rem\<lparr>r_pzero := base\<rparr> else rem)
               in if r_pone rem = 0 \<and> r_sone rem = 0 then rem\<lparr>r_sone := base\<rparr> else rem)
            else rem)
        in if r_bits_in_byte rem = 0 then rem\<lparr>r_bits_in_byte := 8\<rparr> else rem)
     else rem)"

definition fix_repeat :: "ir_remote \<Rightarrow> ir_remote" where
  "fix_repeat rem =
    (if r_min_code_repeat rem > 0 \<and> (\<not> has_repeat rem \<or> r_min_code_repeat rem > r_min_repeat rem)
     then rem\<lparr>r_min_code_repeat := 0\<rparr> else rem)"

definition finish_remote :: "ir_remote \<Rightarrow> ir_remote option" where
  "finish_remote rem = map_option (\<lambda>rem. fix_repeat (fix_serial (fix_toggle rem))) (kick_reverse rem)"

text \<open>\<open>sort_by_bit_count\<close> inserts each remote behind those with no more bits.\<close>

fun insert_by_bit_count :: "ir_remote \<Rightarrow> ir_remote list \<Rightarrow> ir_remote list" where
  "insert_by_bit_count rem [] = [rem]"
| "insert_by_bit_count rem (scan # rest) =
    (if bit_count scan \<le> bit_count rem then scan # insert_by_bit_count rem rest else rem # scan # rest)"

definition sort_by_bit_count :: "ir_remote list \<Rightarrow> ir_remote list" where
  "sort_by_bit_count remotes = foldl (\<lambda>top rem. insert_by_bit_count rem top) [] remotes"

subsection \<open>Include paths\<close>

text \<open>The name between quotes or angle brackets.\<close>

definition lirc_parse_include :: "string \<Rightarrow> string option" where
  "lirc_parse_include s =
    (if length s < 2 then None
     else
       let n = length (dropWhile is_blank (rev (drop 1 s)))
       in if n = 0 then None
          else if hd s \<noteq> CHR 0x22 \<and> hd s \<noteq> CHR ''<'' then None
          else if hd s = CHR 0x22 \<and> s ! n \<noteq> CHR 0x22 then None
          else if hd s = CHR ''<'' \<and> s ! n \<noteq> CHR ''>'' then None
          else Some (take (n - 1) (drop 1 s)))"

definition is_sep :: "char \<Rightarrow> bool" where
  "is_sep c \<longleftrightarrow> c = CHR ''/'' \<or> c = CHR 0x5C"

text \<open>
  \<open>dirname\<close>: the directory part of \<open>_splitpath\<close>, without the drive, with forward slashes and
  without the trailing one.
\<close>

definition dirname :: "string \<Rightarrow> string" where
  "dirname path =
    (let path = (case path of d # c # rest \<Rightarrow> if c = CHR '':'' then rest else path | _ \<Rightarrow> path);
         dir = rev (dropWhile (\<lambda>c. \<not> is_sep c) (rev path));
         dir = map (\<lambda>c. if c = CHR 0x5C then CHR ''/'' else c) dir
     in if dir \<noteq> [] \<and> last dir = CHR ''/'' then butlast dir else dir)"

text \<open>\<open>dst_size\<close> is \<open>FILENAME_MAX+1\<close>, 261.\<close>

definition lirc_parse_relative :: "string \<Rightarrow> string option \<Rightarrow> string option" where
  "lirc_parse_relative child current =
    (case current of
       None \<Rightarrow> Some child
     | Some cur \<Rightarrow>
         if child \<noteq> [] \<and> hd child = CHR ''/'' then Some child
         else if length cur \<ge> 261 then None
         else
           let dir = dirname cur
           in if length dir + 1 + length child + 1 > 261 then None
              else Some (dir @ [CHR ''/''] @ child))"

subsection \<open>Lines\<close>

text \<open>\<open>fgets(buf,LINE_LEN,f)\<close>: up to 1023 characters, up to and including the next newline.\<close>

fun fgets :: "nat \<Rightarrow> string \<Rightarrow> string \<times> string" where
  "fgets 0 s = ([], s)"
| "fgets (Suc n) [] = ([], [])"
| "fgets (Suc n) (c # cs) =
    (if c = CHR 0x0A then ([c], cs) else (let (buf, rest) = fgets n cs in (c # buf, rest)))"

lemma fgets_shorter: "s \<noteq> [] \<Longrightarrow> length (snd (fgets (Suc n) s)) < length s"
proof (induction n arbitrary: s)
  case 0
  then show ?case by (cases s) auto
next
  case (Suc n)
  then obtain c cs where s: "s = c # cs" by (cases s) auto
  show ?case
  proof (cases "cs = []")
    case True
    with s show ?thesis by simp
  next
    case False
    with Suc.IH [of cs] s show ?thesis by (auto split: prod.split)
  qed
qed

function buffers :: "string \<Rightarrow> string list" where
  "buffers s = (if s = [] then [] else (let (buf, rest) = fgets 1023 s in buf # buffers rest))"
  by pat_completeness auto
termination
proof (relation "measure length")
  fix s x xa y
  assume "s \<noteq> []" "x = fgets 1023 s" "(xa, y) = x"
  then show "(y, s) \<in> measure length"
    using fgets_shorter [of s 1022] by (simp add: eval_nat_numeral) (metis snd_conv)
qed simp

text \<open>The words \<open>strtok\<close> finds.\<close>

definition tokens :: "string \<Rightarrow> string list" where
  "tokens = words is_blank"

text \<open>The line ending is cut off: a newline, and a carriage return in front of it.\<close>

definition chomp :: "string \<Rightarrow> string" where
  "chomp buf =
    (let n = length buf;
         line = (if n > 0 \<and> last buf = CHR 0x0A then butlast buf else buf)
     in if n > 1 \<and> buf ! (n - 2) = CHR 0x0D then take (n - 2) buf else line)"

subsection \<open>The line loop\<close>

fun add_nodes :: "ir_ncode \<Rightarrow> string list \<Rightarrow> (cfg, ir_ncode) state" where
  "add_nodes code [] = ret code"
| "add_nodes code (v # vs) = do {
     err \<leftarrow> rd cf_error;
     if err \<or> take 1 v = ''#'' then ret code
     else do { code \<leftarrow> defineNode code v; add_nodes code vs }
   }"

text \<open>A button of \<open>begin codes\<close>: a name, a code and the codes of its further parts.\<close>

definition add_button :: "string \<Rightarrow> string \<Rightarrow> string list \<Rightarrow> (cfg, unit) state" where
  "add_button key val vals = do {
     code \<leftarrow> defineCode key val;
     code \<leftarrow> add_nodes code vals;
     wr (\<lambda>s. s\<lparr>cf_codes_list := cf_codes_list s @ [code]\<rparr>)
   }"

text \<open>The raw button read so far is complete; an even number of durations is an error.\<close>

definition end_raw_button :: "(cfg, unit) state" where
  "end_raw_button = do {
     wr (\<lambda>s. s\<lparr>cf_raw_code := (cf_raw_code s)\<lparr>n_signals := Some (cf_signals s), n_length := int (length (cf_signals s))\<rparr>\<rparr>);
     sigs \<leftarrow> rd cf_signals;
     (if even (length sigs) then fail else ret ());
     wr (\<lambda>s. s\<lparr>cf_raw_codes := cf_raw_codes s @ [cf_raw_code s]\<rparr>)
   }"

fun add_signals :: "string list \<Rightarrow> (cfg, unit) state" where
  "add_signals [] = ret ()"
| "add_signals (v # vs) = do { ok \<leftarrow> addSignal v; if ok then add_signals vs else ret () }"

definition raw_line :: "string \<Rightarrow> string \<Rightarrow> string list \<Rightarrow> (cfg, unit) state" where
  "raw_line key val vals = do {
     mode \<leftarrow> rd cf_mode;
     if strcasecmp ''name'' key then do {
       (if mode = ID_raw_name then end_raw_button else ret ());
       wr (\<lambda>s. s\<lparr>cf_raw_code := (cf_raw_code s)\<lparr>n_name := val, n_code := n_code (cf_raw_code s) + 1\<rparr>,
         cf_signals := [], cf_mode := ID_raw_name\<rparr>)
     }
     else if mode = ID_raw_codes then fail
     else add_signals (key # val # vals)
   }"

text \<open>Remotes are appended behind \<open>rem\<close>; whatever followed it is unlinked.\<close>

definition link_remotes :: "ir_remote list \<Rightarrow> (cfg, unit) state" where
  "link_remotes xs = wr (\<lambda>s.
     if cf_remotes s = [] then s\<lparr>cf_remotes := xs, cf_rem := 0\<rparr>
     else s\<lparr>cf_remotes := take (Suc (cf_rem s)) (cf_remotes s) @ xs,
       cf_rem := (if xs = [] then cf_rem s else Suc (cf_rem s))\<rparr>)"

definition has_codes :: "cfg \<Rightarrow> bool" where
  "has_codes s \<longleftrightarrow> r_codes (cf_remotes s ! cf_rem s) \<noteq> None"

definition begin_line :: "string \<Rightarrow> string \<Rightarrow> string list \<Rightarrow> (cfg, unit) state" where
  "begin_line key val vals = do {
     mode \<leftarrow> rd cf_mode;
     if strcasecmp ''codes'' val then do {
       ok \<leftarrow> checkMode ID_remote;
       if \<not> ok then ret ()
       else do {
         dup \<leftarrow> rd has_codes;
         if dup then fail else wr (\<lambda>s. s\<lparr>cf_codes_list := [], cf_mode := ID_codes\<rparr>)
       }
     }
     else if strcasecmp ''raw_codes'' val then do {
       ok \<leftarrow> checkMode ID_remote;
       if \<not> ok then ret ()
       else do {
         dup \<leftarrow> rd has_codes;
         if dup then fail
         else do {
           set_rem (\<lambda>rem. set_protocol rem RAW_CODES);
           wr (\<lambda>s. s\<lparr>cf_raw_code := (cf_raw_code s)\<lparr>n_code := 0\<rparr>, cf_raw_codes := [], cf_mode := ID_raw_codes\<rparr>)
         }
       }
     }
     else if strcasecmp ''remote'' val then do {
       ok \<leftarrow> checkMode ID_none;
       if \<not> ok then ret ()
       else do { wr (\<lambda>s. s\<lparr>cf_mode := ID_remote\<rparr>); link_remotes [zero_remote] }
     }
     else if mode = ID_codes then add_button key val vals
     else fail
   }"

definition end_remote :: "(cfg, unit) state" where
  "end_remote = do {
     rem \<leftarrow> rd (\<lambda>s. cf_remotes s ! cf_rem s);
     (case sanityChecks rem of
        None \<Rightarrow> crash
      | Some (ok, rem') \<Rightarrow>
          if \<not> ok then fail
          else do {
            set_rem (\<lambda>_. rem'\<lparr>r_last_code := None\<rparr>);
            wr (\<lambda>s. s\<lparr>cf_remotes := take (Suc (cf_rem s)) (cf_remotes s), cf_mode := ID_none\<rparr>)
          })
   }"

definition end_line :: "string \<Rightarrow> string \<Rightarrow> string list \<Rightarrow> (cfg, unit) state" where
  "end_line key val vals = do {
     mode \<leftarrow> rd cf_mode;
     if strcasecmp ''codes'' val then do {
       ok \<leftarrow> checkMode ID_codes;
       if \<not> ok then ret ()
       else do {
         ncs \<leftarrow> rd cf_codes_list;
         set_rem (\<lambda>rem. rem\<lparr>r_codes := Some ncs\<rparr>);
         wr (\<lambda>s. s\<lparr>cf_mode := ID_remote\<rparr>)
       }
     }
     else if strcasecmp ''raw_codes'' val then do {
       (if mode = ID_raw_name then do { end_raw_button; wr (\<lambda>s. s\<lparr>cf_mode := ID_raw_codes\<rparr>) } else ret ());
       ok \<leftarrow> checkMode ID_raw_codes;
       if \<not> ok then ret ()
       else do {
         ncs \<leftarrow> rd cf_raw_codes;
         set_rem (\<lambda>rem. rem\<lparr>r_codes := Some ncs\<rparr>);
         wr (\<lambda>s. s\<lparr>cf_mode := ID_remote\<rparr>)
       }
     }
     else if strcasecmp ''remote'' val then do {
       ok \<leftarrow> checkMode ID_remote;
       if \<not> ok then ret () else end_remote
     }
     else if mode = ID_codes then add_button key val vals
     else fail
   }"

text \<open>
  An include line. \<open>inc\<close> reads the file of a path: \<^const>\<open>None\<close> where it cannot be opened, otherwise
  its parse error, whether it followed a null pointer, and its remotes. \<open>deep\<close> says that the nesting
  limit is exceeded.
\<close>

definition include_line :: "(string \<Rightarrow> (bool \<times> bool \<times> ir_remote list) option) \<Rightarrow> bool \<Rightarrow> string option \<Rightarrow>
    string \<Rightarrow> (cfg, unit) state" where
  "include_line inc deep name val =
    (if deep then fail
     else (case lirc_parse_include val of
         None \<Rightarrow> fail
       | Some child \<Rightarrow>
           (case lirc_parse_relative child name of
              None \<Rightarrow> fail
            | Some path \<Rightarrow>
                (case inc path of
                   None \<Rightarrow> ret ()
                 | Some (err, ub, xs) \<Rightarrow> do {
                     link_remotes xs;
                     wr (\<lambda>s. s\<lparr>cf_error := err, cf_ub := (cf_ub s \<or> ub)\<rparr>)
                   }))))"

definition config_line :: "(string \<Rightarrow> (bool \<times> bool \<times> ir_remote list) option) \<Rightarrow> bool \<Rightarrow> string option \<Rightarrow>
    string \<Rightarrow> (cfg, unit) state" where
  "config_line inc deep name buf =
    (let l = chomp buf
     in if take 1 l = ''#'' then ret ()
        else (case tokens l of
            [] \<Rightarrow> ret ()
          | [key] \<Rightarrow> do {
              mode \<leftarrow> rd cf_mode;
              if mode = ID_raw_name then do { _ \<leftarrow> addSignal key; ret () } else fail
            }
          | key # val # vals \<Rightarrow>
              if strcasecmp ''include'' key then include_line inc deep name val
              else if strcasecmp ''begin'' key then begin_line key val vals
              else if strcasecmp ''end'' key then end_line key val vals
              else do {
                mode \<leftarrow> rd cf_mode;
                (case mode of
                   ID_none \<Rightarrow> ret ()
                 | ID_remote \<Rightarrow> do {
                     _ \<leftarrow> defineRemote key val (case vals of [] \<Rightarrow> None | v # _ \<Rightarrow> Some v);
                     ret ()
                   }
                 | ID_codes \<Rightarrow> add_button key val vals
                 | _ \<Rightarrow> raw_line key val vals)
              }))"

fun config_lines :: "(string \<Rightarrow> (bool \<times> bool \<times> ir_remote list) option) \<Rightarrow> bool \<Rightarrow> string option \<Rightarrow>
    string list \<Rightarrow> (cfg, unit) state" where
  "config_lines inc deep name [] = ret ()"
| "config_lines inc deep name (buf # bufs) = do {
     config_line inc deep name buf;
     err \<leftarrow> rd (\<lambda>s. cf_error s \<or> cf_ub s);
     if err then ret () else config_lines inc deep name bufs
   }"

definition finish_config :: "cfg \<Rightarrow> bool \<times> bool \<times> ir_remote list" where
  "finish_config s =
    (if cf_error s \<or> cf_mode s \<noteq> ID_none then (True, cf_ub s, [])
     else let rems = map finish_remote (cf_remotes s)
          in if cf_ub s \<or> None \<in> set rems then (False, True, [])
             else (False, False, sort_by_bit_count (map the rems)))"

text \<open>
  \<open>read_config_recursive\<close>: the parse error, whether a null pointer was followed, and the remotes.
  The first argument is the number of levels of includes that are still allowed, \<open>MAX_INCLUDES+1\<close> for
  the file itself.
\<close>

fun read_config_recursive :: "nat \<Rightarrow> (string \<Rightarrow> string option) \<Rightarrow> string option \<Rightarrow> string \<Rightarrow>
    bool \<times> bool \<times> ir_remote list" where
  "read_config_recursive 0 files name f =
     finish_config (exec (config_lines (\<lambda>_. None) True name (buffers f)) cfg_init)"
| "read_config_recursive (Suc n) files name f =
     finish_config (exec (config_lines
       (\<lambda>path. map_option (read_config_recursive n files (Some path)) (files path))
       False name (buffers f)) cfg_init)"

definition read_config :: "(string \<Rightarrow> string option) \<Rightarrow> string option \<Rightarrow> string \<Rightarrow> bool \<times> bool \<times> ir_remote list" where
  "read_config files name f = read_config_recursive 11 files name f"

end
