(* ===== verification/Device.thy ===== *)
theory Device
  imports LircDefs
begin

text \<open>
  The sample FIFO that every receiver plugin keeps between its capture thread and the decoder
  (\<open>DLL/Common/fifo.h\<close>, repeated as \<open>setData\<close>/\<open>getData\<close>/\<open>dataReady\<close> in the plugins), the
  function table \<open>struct hardware\<close> of \<open>DLL/Common/Hardware.h\<close>, and the mode-2 hardware functions
  of the plugins (\<open>DLL/Irdroid/Hardware.cpp\<close>) over that FIFO.

  Two interfaces are stated as locales. \<open>bounded_queue\<close> is what the plugins rely on when they use
  the ring buffer; \<open>sample_source\<close> is what the decoder relies on when it calls through \<open>hw\<close>. Both
  are interpreted below on the code's own definitions.
\<close>

subsection \<open>The ring buffer\<close>

record fifo =
  dataBuffer :: "lirc_t list"
  bufferStart :: "8 word"
  bufferEnd :: "8 word"

definition fifo_init :: fifo where
  "fifo_init = \<lparr>dataBuffer = replicate 256 0, bufferStart = 0, bufferEnd = 0\<rparr>"

definition fifo_push :: "lirc_t \<Rightarrow> fifo \<Rightarrow> fifo" where
  "fifo_push value f =
     f\<lparr>dataBuffer := (dataBuffer f)[unat (bufferEnd f) := value], bufferEnd := bufferEnd f + 1\<rparr>"

definition fifo_pop :: "fifo \<Rightarrow> lirc_t \<times> fifo" where
  "fifo_pop f = (dataBuffer f ! unat (bufferStart f), f\<lparr>bufferStart := bufferStart f + 1\<rparr>)"

definition fifo_empty :: "fifo \<Rightarrow> bool" where
  "fifo_empty f \<longleftrightarrow> bufferStart f = bufferEnd f"

definition fifo_clear :: "fifo \<Rightarrow> fifo" where
  "fifo_clear f = f\<lparr>bufferStart := 0, bufferEnd := 0\<rparr>"

text \<open>\<open>getData\<close> of the plugins: nothing happens on an empty buffer.\<close>

definition getData :: "fifo \<Rightarrow> (lirc_t \<times> fifo) option" where
  "getData f = (if fifo_empty f then None else Some (fifo_pop f))"

subsection \<open>The queue interface\<close>

locale bounded_queue =
  fixes push :: "'a \<Rightarrow> 'q \<Rightarrow> 'q"
    and pop :: "'q \<Rightarrow> 'a \<times> 'q"
    and is_empty :: "'q \<Rightarrow> bool"
    and clear :: "'q \<Rightarrow> 'q"
    and contents :: "'q \<Rightarrow> 'a list"
    and invar :: "'q \<Rightarrow> bool"
    and capacity :: nat
  assumes contents_push:
      "invar q \<Longrightarrow> length (contents q) < capacity \<Longrightarrow> contents (push x q) = contents q @ [x]"
    and contents_pop: "invar q \<Longrightarrow> contents q = x # xs \<Longrightarrow> fst (pop q) = x \<and> contents (snd (pop q)) = xs"
    and is_empty_iff: "invar q \<Longrightarrow> is_empty q \<longleftrightarrow> contents q = []"
    and contents_clear: "invar q \<Longrightarrow> contents (clear q) = []"
    and invar_push: "invar q \<Longrightarrow> invar (push x q)"
    and invar_pop: "invar q \<Longrightarrow> invar (snd (pop q))"
    and invar_clear: "invar q \<Longrightarrow> invar (clear q)"
begin

lemma invar_push_all: "invar q \<Longrightarrow> invar (fold push xs q)"
  by (induction xs arbitrary: q) (simp_all add: invar_push)

lemma contents_push_all:
  "invar q \<Longrightarrow> length (contents q) + length xs \<le> capacity \<Longrightarrow>
   contents (fold push xs q) = contents q @ xs"
proof (induction xs arbitrary: q)
  case Nil
  then show ?case by simp
next
  case (Cons x xs)
  then have "contents (push x q) = contents q @ [x]"
    by (simp add: contents_push)
  with Cons show ?case
    by (simp add: invar_push)
qed

lemma drain_in_order:
  "invar q \<Longrightarrow> contents q = xs \<Longrightarrow>
   map (\<lambda>i. fst (pop (((snd \<circ> pop) ^^ i) q))) [0..<length xs] = xs"
proof (induction xs arbitrary: q)
  case Nil
  then show ?case by simp
next
  case (Cons x xs)
  then have q': "fst (pop q) = x" "contents (snd (pop q)) = xs" "invar (snd (pop q))"
    using contents_pop [of q x xs] invar_pop [of q] by simp_all
  have "map (\<lambda>i. fst (pop (((snd \<circ> pop) ^^ i) (snd (pop q))))) [0..<length xs] = xs"
    using Cons.IH [OF q'(3) q'(2)] .
  then have "map (\<lambda>i. fst (pop (((snd \<circ> pop) ^^ Suc i) q))) [0..<length xs] = xs"
    by (simp add: funpow_swap1)
  then show ?case
    by (simp add: q' map_Suc_upt [symmetric] upt_conv_Cons del: upt_Suc funpow.simps)
       (simp add: o_def)
qed

end

definition fifo_contents :: "fifo \<Rightarrow> lirc_t list" where
  "fifo_contents f =
     map (\<lambda>i. dataBuffer f ! unat (bufferStart f + of_nat i))
       [0..<unat (bufferEnd f - bufferStart f)]"

definition fifo_invar :: "fifo \<Rightarrow> bool" where
  "fifo_invar f \<longleftrightarrow> length (dataBuffer f) = 256"

lemma unat_lt_256 [simp]: "unat (w :: 8 word) < 256"
  using unsigned_less [of w] by simp

lemma unat_plus_1_8: "unat (d :: 8 word) < 255 \<Longrightarrow> unat (d + 1) = Suc (unat d)"
  by (simp add: unat_word_ariths)

lemma contents_fifo_push:
  assumes "fifo_invar f" and "length (fifo_contents f) < 255"
  shows "fifo_contents (fifo_push x f) = fifo_contents f @ [x]"
proof -
  let ?n = "unat (bufferEnd f - bufferStart f)"
  have n: "?n < 255"
    using assms(2) by (simp add: fifo_contents_def)
  have len: "unat (bufferEnd f + 1 - bufferStart f) = Suc ?n"
    using unat_plus_1_8 [OF n] by (simp add: algebra_simps)
  have at_n: "bufferStart f + of_nat ?n = bufferEnd f"
    by simp
  have before: "bufferStart f + of_nat i \<noteq> bufferEnd f" if "i < ?n" for i
  proof
    assume "bufferStart f + of_nat i = bufferEnd f"
    then have "of_nat i = bufferEnd f - bufferStart f"
      by (simp add: algebra_simps)
    then have "unat (of_nat i :: 8 word) = ?n" by simp
    moreover have "unat (of_nat i :: 8 word) = i"
      using that n by (simp add: unat_of_nat)
    ultimately show False using that by simp
  qed
  have "unat (bufferStart f + of_nat i) \<noteq> unat (bufferEnd f)" if "i < ?n" for i
    using before [OF that] by (simp add: word_unat_eq_iff)
  then have "map (\<lambda>i. (dataBuffer f)[unat (bufferEnd f) := x] ! unat (bufferStart f + of_nat i)) [0..<?n]
      = fifo_contents f"
    by (auto simp: fifo_contents_def) (metis nth_list_update_neq)
  then show ?thesis
    using assms(1) at_n
    by (simp add: fifo_push_def fifo_invar_def len fifo_contents_def [of "f\<lparr>dataBuffer := _, bufferEnd := _\<rparr>"])
qed

lemma contents_fifo_pop:
  assumes "fifo_contents f = x # xs"
  shows "fst (fifo_pop f) = x \<and> fifo_contents (snd (fifo_pop f)) = xs"
proof -
  let ?n = "unat (bufferEnd f - bufferStart f)"
  from assms have "?n \<noteq> 0"
    by (intro notI) (simp add: fifo_contents_def)
  then obtain m where m: "?n = Suc m"
    by (cases ?n) auto
  then have "unat (bufferEnd f - (bufferStart f + 1)) = m"
    by unat_arith
  moreover have "[0..<Suc m] = 0 # map Suc [0..<m]"
    by (simp add: upt_conv_Cons map_Suc_upt)
  ultimately show ?thesis
    using assms m
    by (auto simp: fifo_contents_def fifo_pop_def add.assoc simp del: upt_Suc)
qed

lemma fifo_empty_iff: "fifo_empty f \<longleftrightarrow> fifo_contents f = []"
  by (auto simp: fifo_empty_def fifo_contents_def unat_eq_0)

interpretation fq: bounded_queue fifo_push fifo_pop fifo_empty fifo_clear fifo_contents fifo_invar 255
proof unfold_locales
  fix q and x :: lirc_t and xs
  show "fifo_invar q \<Longrightarrow> length (fifo_contents q) < 255 \<Longrightarrow>
      fifo_contents (fifo_push x q) = fifo_contents q @ [x]"
    by (rule contents_fifo_push)
  show "fifo_invar q \<Longrightarrow> fifo_contents q = x # xs \<Longrightarrow>
      fst (fifo_pop q) = x \<and> fifo_contents (snd (fifo_pop q)) = xs"
    by (simp add: contents_fifo_pop)
  show "fifo_empty q \<longleftrightarrow> fifo_contents q = []"
    by (rule fifo_empty_iff)
qed (simp_all add: fifo_invar_def fifo_push_def fifo_pop_def fifo_clear_def fifo_contents_def)


text \<open>
  C17: the ring buffer is a queue. What a capture thread pushes into an empty buffer, at most
  255 samples, is what the decoder pops, in that order, wherever the 8-bit indices stand.
\<close>

theorem fifo_delivers_in_order:
  assumes "fifo_invar f" and "fifo_empty f" and "length xs \<le> 255"
  shows "map (\<lambda>i. fst (fifo_pop (((snd \<circ> fifo_pop) ^^ i) (fold fifo_push xs f)))) [0..<length xs] = xs"
proof -
  have "fifo_contents (fold fifo_push xs f) = xs"
    using assms fq.contents_push_all [of f xs] by (simp add: fifo_empty_iff)
  with assms(1) show ?thesis
    by (intro fq.drain_in_order fq.invar_push_all)
qed

theorem fifo_delivers_in_order_witness:
  "map (\<lambda>i. fst (fifo_pop (((snd \<circ> fifo_pop) ^^ i)
     (fold fifo_push [16777215, 9000, 4500] (fifo_init\<lparr>bufferStart := 254, bufferEnd := 254\<rparr>)))))
     [0..<length [16777215, 9000, 4500 :: int]] = [16777215, 9000, 4500]"
  by (rule fifo_delivers_in_order) (simp_all add: fifo_invar_def fifo_empty_def fifo_init_def)

lemma fold_push_end:
  "bufferEnd (fold fifo_push xs f) = bufferEnd f + of_nat (length xs)"
  "bufferStart (fold fifo_push xs f) = bufferStart f"
  by (induction xs arbitrary: f) (simp_all add: fifo_push_def algebra_simps)

text \<open>
  There is no overflow check. A burst of exactly 256 samples that arrives while the decoder
  is idle leaves the buffer looking empty: every one of them is lost.
\<close>

theorem fifo_overflow_loses_all:
  assumes "fifo_empty f" and "length xs = 256"
  shows "fifo_empty (fold fifo_push xs f)"
  using assms by (simp add: fifo_empty_def fold_push_end)

theorem fifo_overflow_loses_all_witness:
  "fifo_empty (fold fifo_push (replicate 256 500) fifo_init)"
  by (rule fifo_overflow_loses_all) (simp_all add: fifo_empty_def fifo_init_def)

subsection \<open>The hardware function table\<close>

record 'd hardware =
  hw_rec_mode :: int
  hw_code_length :: int
  hw_wait_for_data :: "lirc_t \<Rightarrow> 'd \<Rightarrow> 'd"
  hw_data_ready :: "'d \<Rightarrow> bool"
  hw_readdata :: "lirc_t \<Rightarrow> 'd \<Rightarrow> lirc_t \<times> 'd"

text \<open>
  What the decoder needs of a receiver: the samples still to come form a list that waiting does
  not change, waiting ends with data as long as there is some to come, and a read takes the
  first sample.
\<close>

locale sample_source =
  fixes hw :: "'d hardware"
    and coming :: "'d \<Rightarrow> lirc_t list"
    and sound :: "'d \<Rightarrow> bool"
  assumes coming_wait: "sound d \<Longrightarrow> coming (hw_wait_for_data hw t d) = coming d"
    and sound_wait: "sound d \<Longrightarrow> sound (hw_wait_for_data hw t d)"
    and ready_wait: "sound d \<Longrightarrow> hw_data_ready hw (hw_wait_for_data hw t d) \<longleftrightarrow> coming d \<noteq> []"
    and coming_read: "sound d \<Longrightarrow> hw_data_ready hw d \<Longrightarrow> coming d = fst (hw_readdata hw t d) # coming (snd (hw_readdata hw t d))"
    and sound_read: "sound d \<Longrightarrow> sound (snd (hw_readdata hw t d))"

subsection \<open>The mode-2 plugins\<close>

text \<open>
  While \<open>waitTillDataIsReady\<close> blocks, the capture thread pushes what the receiver delivers, or
  the exit event is set. Which of the two happens is the environment's choice, so the device
  carries the list of what its waits will meet; an empty batch is a wait that times out. The
  exit event is a manual-reset event, so it stays.
\<close>

datatype wake = Samples "lirc_t list" | Exit

record mode2_dev =
  dev_fifo :: fifo
  dev_wakes :: "wake list"

definition waitTillDataIsReady :: "lirc_t \<Rightarrow> mode2_dev \<Rightarrow> bool \<times> mode2_dev" where
  "waitTillDataIsReady maxUSecs d =
     (if fifo_empty (dev_fifo d) then
        (case dev_wakes d of
           [] \<Rightarrow> (True, d)
         | Exit # _ \<Rightarrow> (False, d)
         | Samples xs # ws \<Rightarrow> (True, d\<lparr>dev_fifo := fold fifo_push xs (dev_fifo d), dev_wakes := ws\<rparr>))
      else (True, d))"

definition mode2_wait_for_data :: "lirc_t \<Rightarrow> mode2_dev \<Rightarrow> mode2_dev" where
  "mode2_wait_for_data timeout d = snd (waitTillDataIsReady timeout d)"

definition mode2_data_ready :: "mode2_dev \<Rightarrow> bool" where
  "mode2_data_ready d \<longleftrightarrow> \<not> fifo_empty (dev_fifo d)"

definition mode2_readData :: "lirc_t \<Rightarrow> mode2_dev \<Rightarrow> lirc_t \<times> mode2_dev" where
  "mode2_readData timeout d =
     (let d' = snd (waitTillDataIsReady timeout d)
      in case getData (dev_fifo d') of
           None \<Rightarrow> (0, d')
         | Some (x, f) \<Rightarrow> (x, d'\<lparr>dev_fifo := f\<rparr>))"

definition mode2_hw :: "mode2_dev hardware" where
  "mode2_hw = \<lparr>hw_rec_mode = LIRC_MODE_MODE2, hw_code_length = 0,
     hw_wait_for_data = mode2_wait_for_data, hw_data_ready = mode2_data_ready,
     hw_readdata = mode2_readData\<rparr>"

fun wakes_coming :: "wake list \<Rightarrow> lirc_t list" where
  "wakes_coming [] = []"
| "wakes_coming (Exit # _) = []"
| "wakes_coming (Samples xs # ws) = xs @ wakes_coming ws"

definition mode2_coming :: "mode2_dev \<Rightarrow> lirc_t list" where
  "mode2_coming d = fifo_contents (dev_fifo d) @ wakes_coming (dev_wakes d)"

text \<open>No batch overruns the FIFO, and no wait is cut short by its time-out.\<close>

definition batch_ok :: "wake \<Rightarrow> bool" where
  "batch_ok w \<longleftrightarrow> (case w of Exit \<Rightarrow> True | Samples xs \<Rightarrow> xs \<noteq> [] \<and> length xs \<le> 255)"

definition mode2_sound :: "mode2_dev \<Rightarrow> bool" where
  "mode2_sound d \<longleftrightarrow> fifo_invar (dev_fifo d) \<and> list_all batch_ok (dev_wakes d)"

lemma mode2_wait:
  assumes "mode2_sound d"
  shows mode2_coming_wait: "mode2_coming (snd (waitTillDataIsReady t d)) = mode2_coming d"
    and mode2_sound_wait: "mode2_sound (snd (waitTillDataIsReady t d))"
    and mode2_ready_wait: "fifo_empty (dev_fifo (snd (waitTillDataIsReady t d))) \<longleftrightarrow> mode2_coming d = []"
proof -
  let ?f = "dev_fifo d"
  have inv: "fifo_invar ?f" and ok: "list_all batch_ok (dev_wakes d)"
    using assms by (simp_all add: mode2_sound_def)
  have push: "fifo_contents (fold fifo_push xs ?f) = xs" "fifo_invar (fold fifo_push xs ?f)"
    if "fifo_contents ?f = []" "length xs \<le> 255" for xs
    using that inv fq.contents_push_all [of ?f xs] fq.invar_push_all [of ?f xs] by simp_all
  show "mode2_coming (snd (waitTillDataIsReady t d)) = mode2_coming d"
    "mode2_sound (snd (waitTillDataIsReady t d))"
    "fifo_empty (dev_fifo (snd (waitTillDataIsReady t d))) \<longleftrightarrow> mode2_coming d = []"
    using inv ok push
    by (auto simp: waitTillDataIsReady_def mode2_coming_def mode2_sound_def batch_ok_def
        fifo_empty_iff split: list.splits wake.splits)
qed

interpretation mode2: sample_source mode2_hw mode2_coming mode2_sound
proof unfold_locales
  fix d t
  assume d: "mode2_sound d"
  show "mode2_coming (hw_wait_for_data mode2_hw t d) = mode2_coming d"
    "mode2_sound (hw_wait_for_data mode2_hw t d)"
    "hw_data_ready mode2_hw (hw_wait_for_data mode2_hw t d) \<longleftrightarrow> mode2_coming d \<noteq> []"
    using mode2_wait [OF d, of t]
    by (simp_all add: mode2_hw_def mode2_wait_for_data_def mode2_data_ready_def)
  show "mode2_sound (snd (hw_readdata mode2_hw t d))"
    using mode2_sound_wait [OF d, of t]
    by (auto simp: mode2_hw_def mode2_readData_def Let_def getData_def mode2_sound_def
        fifo_pop_def fifo_invar_def)
next
  fix d t
  assume d: "mode2_sound d" and "hw_data_ready mode2_hw d"
  then have ne: "\<not> fifo_empty (dev_fifo d)"
    by (simp add: mode2_hw_def mode2_data_ready_def)
  then obtain x xs where c: "fifo_contents (dev_fifo d) = x # xs"
    by (cases "fifo_contents (dev_fifo d)") (auto simp: fifo_empty_iff)
  have "waitTillDataIsReady t d = (True, d)"
    using ne by (simp add: waitTillDataIsReady_def)
  then show "mode2_coming d = fst (hw_readdata mode2_hw t d) # mode2_coming (snd (hw_readdata mode2_hw t d))"
    using ne contents_fifo_pop [OF c] c
    by (cases "fifo_pop (dev_fifo d)")
      (simp add: mode2_hw_def mode2_readData_def getData_def mode2_coming_def)
qed

end
