(* ===== verification/RecBuffer.thy ===== *)
theory RecBuffer
  imports Device
begin

text \<open>
  The receive buffer of \<open>DLL/Common/Receive.cpp\<close> and the primitives that read pulses and spaces
  from it: \<open>get_next_rec_buffer\<close>, \<open>rewind\<close>/\<open>clear\<close>/\<open>unget\<close>, \<open>expectpulse\<close> and \<open>expectspace\<close>.

  The state \<open>rx\<close> holds every variable the decoder of a plugin keeps between calls: the global
  \<open>rec_buffer\<close> (fields \<open>rb_\<close>), the device behind \<open>hw\<close>, the remotes the server passed in, the
  globals \<open>last_remote\<close> and \<open>decoding\<close> of \<open>IRRemote.cpp\<close> with the static \<open>last_decoded\<close> of
  \<open>set_code\<close> (pointers as indices into the remotes), and the readings \<open>gettimeofday\<close> will give.
  \<open>rx_ub\<close> is set where the C code has no defined behaviour (an index outside \<open>data\<close>, a
  division by zero, a null pointer followed), \<open>rx_hang\<close> where a loop has been cut off; while
  both are false the model is what the code does.
\<close>

record 'd rx =
  rb_data :: "lirc_t list"
  rb_decoded :: ir_code
  rb_rptr :: int
  rb_wptr :: int
  rb_too_long :: bool
  rb_is_biphase :: bool
  rb_pendingp :: lirc_t
  rb_pendings :: lirc_t
  rb_sum :: lirc_t
  rx_dev :: 'd
  rx_remotes :: "ir_remote list"
  rx_last_remote :: "nat option"
  rx_last_decoded :: "nat option"
  rx_decoding :: "nat option"
  rx_clock :: "mytimeval list"
  rx_ub :: bool
  rx_hang :: bool

subsection \<open>Memory\<close>

definition undefined_behaviour :: "('d rx, unit) state" where
  "undefined_behaviour = wr (\<lambda>s. s\<lparr>rx_ub := True\<rparr>)"

definition in_data :: "'d rx \<Rightarrow> int \<Rightarrow> bool" where
  "in_data s i \<longleftrightarrow> 0 \<le> i \<and> i < int (length (rb_data s))"

definition data_at :: "int \<Rightarrow> ('d rx, lirc_t) state" where
  "data_at i = State (\<lambda>s. if in_data s i then (rb_data s ! nat i, s) else (0, s\<lparr>rx_ub := True\<rparr>))"

definition set_data_at :: "int \<Rightarrow> lirc_t \<Rightarrow> ('d rx, unit) state" where
  "set_data_at i v = wr (\<lambda>s. if in_data s i then s\<lparr>rb_data := (rb_data s)[nat i := v]\<rparr>
     else s\<lparr>rx_ub := True\<rparr>)"

definition remote_at :: "nat \<Rightarrow> ('d rx, ir_remote) state" where
  "remote_at r = rd (\<lambda>s. rx_remotes s ! r)"

definition update_remote :: "nat \<Rightarrow> (ir_remote \<Rightarrow> ir_remote) \<Rightarrow> ('d rx, unit) state" where
  "update_remote r f = wr (\<lambda>s. s\<lparr>rx_remotes := (rx_remotes s)[r := f (rx_remotes s ! r)]\<rparr>)"

definition gettimeofday :: "('d rx, mytimeval) state" where
  "gettimeofday = State (\<lambda>s. case rx_clock s of
       [] \<Rightarrow> (zero_time, s)
     | [t] \<Rightarrow> (t, s)
     | t # ts \<Rightarrow> (t, s\<lparr>rx_clock := ts\<rparr>))"

subsection \<open>The buffer\<close>

definition lirc_t_max :: "lirc_t \<Rightarrow> lirc_t \<Rightarrow> lirc_t" where
  "lirc_t_max a b = (if a > b then a else b)"

definition set_pending_pulse :: "lirc_t \<Rightarrow> ('d rx, unit) state" where
  "set_pending_pulse deltap = wr (\<lambda>s. s\<lparr>rb_pendingp := deltap\<rparr>)"

definition set_pending_space :: "lirc_t \<Rightarrow> ('d rx, unit) state" where
  "set_pending_space deltas = wr (\<lambda>s. s\<lparr>rb_pendings := deltas\<rparr>)"

definition add_sum :: "lirc_t \<Rightarrow> ('d rx, unit) state" where
  "add_sum d = wr (\<lambda>s. s\<lparr>rb_sum := add32 (rb_sum s) (d AND PULSE_MASK)\<rparr>)"

definition sub_sum :: "lirc_t \<Rightarrow> ('d rx, unit) state" where
  "sub_sum d = wr (\<lambda>s. s\<lparr>rb_sum := sub32 (rb_sum s) (d AND PULSE_MASK)\<rparr>)"

definition get_next_rec_buffer_internal :: "'d hardware \<Rightarrow> lirc_t \<Rightarrow> ('d rx, lirc_t) state" where
  "get_next_rec_buffer_internal hw maxusec = do {
     rptr \<leftarrow> rd rb_rptr;
     wptr \<leftarrow> rd rb_wptr;
     if rptr < wptr then do {
       d \<leftarrow> data_at rptr;
       add_sum d;
       wr (rb_rptr_update (\<lambda>_. rptr + 1));
       ret d
     }
     else if wptr < RBUF_SIZE then do {
       let t = mul32 2 maxusec;
       wr (\<lambda>s. s\<lparr>rx_dev := hw_wait_for_data hw (if t < 100000 then 100000 else t) (rx_dev s)\<rparr>);
       ready \<leftarrow> rd (\<lambda>s. hw_data_ready hw (rx_dev s));
       if \<not> ready then ret 0
       else do {
         data \<leftarrow> State (\<lambda>s. let (x, d) = hw_readdata hw 0 (rx_dev s) in (x, s\<lparr>rx_dev := d\<rparr>));
         set_data_at wptr data;
         if data = 0 then ret 0
         else do {
           d \<leftarrow> data_at rptr;
           add_sum d;
           wr (\<lambda>s. s\<lparr>rb_wptr := wptr + 1, rb_rptr := rptr + 1\<rparr>);
           data_at rptr
         }
       }
     }
     else do {
       wr (\<lambda>s. s\<lparr>rb_too_long := True\<rparr>);
       ret 0
     }
   }"

definition get_next_rec_buffer :: "'d hardware \<Rightarrow> lirc_t \<Rightarrow> ('d rx, lirc_t) state" where
  "get_next_rec_buffer hw maxusec = get_next_rec_buffer_internal hw maxusec"

definition init_rec_buffer :: "('d rx, unit) state" where
  "init_rec_buffer = wr (\<lambda>s. s\<lparr>rb_data := replicate 256 0, rb_decoded := 0, rb_rptr := 0,
     rb_wptr := 0, rb_too_long := False, rb_is_biphase := False, rb_pendingp := 0,
     rb_pendings := 0, rb_sum := 0\<rparr>)"

definition rewind_rec_buffer :: "('d rx, unit) state" where
  "rewind_rec_buffer = do {
     wr (\<lambda>s. s\<lparr>rb_rptr := 0, rb_too_long := False\<rparr>);
     set_pending_pulse 0;
     set_pending_space 0;
     wr (\<lambda>s. s\<lparr>rb_sum := 0\<rparr>)
   }"

definition clear_rec_buffer :: "'d hardware \<Rightarrow> ('d rx, unit) state" where
  "clear_rec_buffer hw = do {
     (if hw_rec_mode hw = LIRC_MODE_LIRCCODE then ret ()
     else do {
       rptr \<leftarrow> rd rb_rptr;
       wptr \<leftarrow> rd rb_wptr;
       let move = wptr - rptr;
       if move > 0 \<and> rptr > 0 then
         wr (\<lambda>s. s\<lparr>rb_data := take (nat move) (drop (nat rptr) (rb_data s)) @ drop (nat move) (rb_data s),
           rb_wptr := wptr - rptr\<rparr>)
       else do {
         data \<leftarrow> State (\<lambda>s. let (x, d) = hw_readdata hw 0 (rx_dev s) in (x, s\<lparr>rx_dev := d\<rparr>));
         wr (\<lambda>s. s\<lparr>rb_wptr := 0\<rparr>);
         set_data_at 0 data;
         wr (\<lambda>s. s\<lparr>rb_wptr := 1\<rparr>)
       }
     });
     rewind_rec_buffer;
     wr (\<lambda>s. s\<lparr>rb_is_biphase := False\<rparr>)
   }"

definition unget_rec_buffer :: "int \<Rightarrow> ('d rx, unit) state" where
  "unget_rec_buffer count = (if count = 1 \<or> count = 2 then do {
     wr (\<lambda>s. s\<lparr>rb_rptr := rb_rptr s - count\<rparr>);
     rptr \<leftarrow> rd rb_rptr;
     d \<leftarrow> data_at rptr;
     sub_sum d;
     if count = 2 then do {
       d \<leftarrow> data_at (rptr + 1);
       sub_sum d
     } else ret ()
   } else ret ())"

definition unget_rec_buffer_delta :: "lirc_t \<Rightarrow> ('d rx, unit) state" where
  "unget_rec_buffer_delta delta = do {
     wr (\<lambda>s. s\<lparr>rb_rptr := rb_rptr s - 1\<rparr>);
     sub_sum delta;
     rptr \<leftarrow> rd rb_rptr;
     set_data_at rptr delta
   }"

definition get_next_pulse :: "'d hardware \<Rightarrow> lirc_t \<Rightarrow> ('d rx, lirc_t) state" where
  "get_next_pulse hw maxusec = do {
     data \<leftarrow> get_next_rec_buffer hw maxusec;
     if data = 0 then ret 0
     else if \<not> is_pulse data then ret 0
     else ret (data AND PULSE_MASK)
   }"

definition get_next_space :: "'d hardware \<Rightarrow> lirc_t \<Rightarrow> ('d rx, lirc_t) state" where
  "get_next_space hw maxusec = do {
     data \<leftarrow> get_next_rec_buffer hw maxusec;
     if data = 0 then ret 0
     else if \<not> is_space data then ret 0
     else ret data
   }"

definition sync_pending_pulse :: "'d hardware \<Rightarrow> ir_remote \<Rightarrow> ('d rx, bool) state" where
  "sync_pending_pulse hw remote = do {
     pendingp \<leftarrow> rd rb_pendingp;
     if pendingp > 0 then do {
       deltap \<leftarrow> get_next_pulse hw pendingp;
       if deltap = 0 then ret False
       else if \<not> expect remote deltap pendingp then ret False
       else do { set_pending_pulse 0; ret True }
     }
     else ret True
   }"

definition sync_pending_space :: "'d hardware \<Rightarrow> ir_remote \<Rightarrow> ('d rx, bool) state" where
  "sync_pending_space hw remote = do {
     pendings \<leftarrow> rd rb_pendings;
     if pendings > 0 then do {
       deltas \<leftarrow> get_next_space hw pendings;
       if deltas = 0 then ret False
       else if \<not> expect remote deltas pendings then ret False
       else do { set_pending_space 0; ret True }
     }
     else ret True
   }"

definition expectpulse :: "'d hardware \<Rightarrow> ir_remote \<Rightarrow> lirc_t \<Rightarrow> ('d rx, bool) state" where
  "expectpulse hw remote exdelta = do {
     ok \<leftarrow> sync_pending_space hw remote;
     if \<not> ok then ret False
     else do {
       pendingp \<leftarrow> rd rb_pendingp;
       deltap \<leftarrow> get_next_pulse hw (add32 pendingp exdelta);
       if deltap = 0 then ret False
       else if pendingp > 0 then
         (if pendingp > deltap then ret False
          else if \<not> expect remote (sub32 deltap pendingp) exdelta then ret False
          else do { set_pending_pulse 0; ret True })
       else ret (expect remote deltap exdelta)
     }
   }"

definition expectspace :: "'d hardware \<Rightarrow> ir_remote \<Rightarrow> lirc_t \<Rightarrow> ('d rx, bool) state" where
  "expectspace hw remote exdelta = do {
     ok \<leftarrow> sync_pending_pulse hw remote;
     if \<not> ok then ret False
     else do {
       pendings \<leftarrow> rd rb_pendings;
       deltas \<leftarrow> get_next_space hw (add32 pendings exdelta);
       if deltas = 0 then ret False
       else if pendings > 0 then
         (if pendings > deltas then ret False
          else if \<not> expect remote (sub32 deltas pendings) exdelta then ret False
          else do { set_pending_space 0; ret True })
       else ret (expect remote deltas exdelta)
     }
   }"

end
