(* ===== verification/Receive.thy ===== *)
theory Receive
  imports RecBuffer
begin

text \<open>
  The decoder of \<open>DLL/Common/Receive.cpp\<close> on top of the receive buffer: one bit
  (\<open>expectone\<close>, \<open>expectzero\<close>), synchronisation, header, foot, lead, trail, gap and repeat, the
  data field of each protocol (\<open>get_data\<close>) and the whole signal (\<open>receive_decode\<close>).

  Functions that only read the remote take its value; \<open>sync_rec_buffer\<close>, \<open>get_data\<close> and their
  callers, which write to it, take its index. The \<open>for\<close> loops recurse on the number of rounds
  left; the \<open>while\<close> loop of the serial protocol, which does not end for every configuration,
  runs on fuel and sets \<open>rx_hang\<close> when it is cut off.
\<close>

subsection \<open>Bits\<close>

definition expectone :: "'d hardware \<Rightarrow> ir_remote \<Rightarrow> int \<Rightarrow> ('d rx, bool) state" where
  "expectone hw remote bitno =
    (if is_biphase remote then do {
       let all_bits = bit_count remote;
       let mask = shl64 1 (all_bits - 1 - bitno);
       let twice = mask AND r_rc6_mask remote \<noteq> 0;
       let sone = (if twice then mul32 2 (r_sone remote) else r_sone remote);
       let pone = (if twice then mul32 2 (r_pone remote) else r_pone remote);
       ok \<leftarrow> (if r_sone remote > 0 then expectspace hw remote sone else ret True);
       if \<not> ok then do { unget_rec_buffer 1; ret False }
       else do { set_pending_pulse pone; ret True }
     }
     else if is_space_first remote then do {
       ok \<leftarrow> (if r_sone remote > 0 then expectspace hw remote (r_sone remote) else ret True);
       if \<not> ok then do { unget_rec_buffer 1; ret False }
       else do {
         ok \<leftarrow> (if r_pone remote > 0 then expectpulse hw remote (r_pone remote) else ret True);
         if \<not> ok then do { unget_rec_buffer 2; ret False } else ret True
       }
     }
     else do {
       ok \<leftarrow> (if r_pone remote > 0 then expectpulse hw remote (r_pone remote) else ret True);
       if \<not> ok then do { unget_rec_buffer 1; ret False }
       else if r_ptrail remote > 0 then do {
         ok \<leftarrow> (if r_sone remote > 0 then expectspace hw remote (r_sone remote) else ret True);
         if \<not> ok then do { unget_rec_buffer 2; ret False } else ret True
       }
       else do { set_pending_space (r_sone remote); ret True }
     })"

definition expectzero :: "'d hardware \<Rightarrow> ir_remote \<Rightarrow> int \<Rightarrow> ('d rx, bool) state" where
  "expectzero hw remote bitno =
    (if is_biphase remote then do {
       let all_bits = bit_count remote;
       let mask = shl64 1 (all_bits - 1 - bitno);
       let twice = mask AND r_rc6_mask remote \<noteq> 0;
       let pzero = (if twice then mul32 2 (r_pzero remote) else r_pzero remote);
       let szero = (if twice then mul32 2 (r_szero remote) else r_szero remote);
       ok \<leftarrow> expectpulse hw remote pzero;
       if \<not> ok then do { unget_rec_buffer 1; ret False }
       else do { set_pending_space szero; ret True }
     }
     else if is_space_first remote then do {
       ok \<leftarrow> (if r_szero remote > 0 then expectspace hw remote (r_szero remote) else ret True);
       if \<not> ok then do { unget_rec_buffer 1; ret False }
       else do {
         ok \<leftarrow> (if r_pzero remote > 0 then expectpulse hw remote (r_pzero remote) else ret True);
         if \<not> ok then do { unget_rec_buffer 2; ret False } else ret True
       }
     }
     else do {
       ok \<leftarrow> expectpulse hw remote (r_pzero remote);
       if \<not> ok then do { unget_rec_buffer 1; ret False }
       else if r_ptrail remote > 0 then do {
         ok \<leftarrow> expectspace hw remote (r_szero remote);
         if \<not> ok then do { unget_rec_buffer 2; ret False } else ret True
       }
       else do { set_pending_space (r_szero remote); ret True }
     })"

subsection \<open>Synchronisation, header, foot, lead, trail, gap, repeat\<close>

text \<open>
  The loop that skips signals until a space that could be the gap after \<open>last_remote\<close>'s last
  signal: \<open>None\<close> where the function gives up, otherwise the space. \<open>tries\<close> counts down from
  \<open>REC_SYNC\<close>.
\<close>

fun sync_loop :: "'d hardware \<Rightarrow> ir_remote \<Rightarrow> nat \<Rightarrow> lirc_t \<Rightarrow> ('d rx, lirc_t option) state" where
  "sync_loop hw last_rem tries deltas =
     (if expect_at_least last_rem deltas (r_min_remaining_gap last_rem) then ret (Some deltas)
      else do {
        deltap \<leftarrow> get_next_pulse hw 1000000;
        if deltap = 0 then ret None
        else do {
          deltas \<leftarrow> get_next_space hw 1000000;
          if deltas = 0 then ret None
          else (case tries of
              0 \<Rightarrow> ret None
            | Suc n \<Rightarrow> sync_loop hw last_rem n deltas)
        }
      })"

declare sync_loop.simps [simp del]

definition sync_rec_buffer :: "'d hardware \<Rightarrow> nat \<Rightarrow> ('d rx, lirc_t) state" where
  "sync_rec_buffer hw r = do {
     deltas \<leftarrow> get_next_space hw 1000000;
     if deltas = 0 then ret 0
     else do {
       remote \<leftarrow> remote_at r;
       last_remote \<leftarrow> rd rx_last_remote;
       found \<leftarrow> (case last_remote of
           None \<Rightarrow> ret (Some deltas)
         | Some l \<Rightarrow>
             if is_rcmm remote then ret (Some deltas)
             else do {
               last_rem \<leftarrow> remote_at l;
               found \<leftarrow> sync_loop hw last_rem REC_SYNC deltas;
               (case found of
                  None \<Rightarrow> ret None
                | Some deltas \<Rightarrow>
                    if has_toggle_mask remote \<and>
                       \<not> expect_at_most last_rem deltas (r_max_remaining_gap last_rem)
                    then do {
                      update_remote r (\<lambda>rem. rem\<lparr>r_toggle_mask_state := 0, r_toggle_code := None\<rparr>);
                      ret (Some deltas)
                    }
                    else ret (Some deltas))
             });
       (case found of
          None \<Rightarrow> ret 0
        | Some deltas \<Rightarrow> do { wr (\<lambda>s. s\<lparr>rb_sum := 0\<rparr>); ret deltas })
     }
   }"

definition get_header :: "'d hardware \<Rightarrow> ir_remote \<Rightarrow> ('d rx, bool) state" where
  "get_header hw remote =
    (if is_rcmm remote then do {
       deltap \<leftarrow> get_next_pulse hw (r_phead remote);
       if deltap = 0 then do { unget_rec_buffer 1; ret False }
       else do {
         deltas \<leftarrow> get_next_space hw (r_shead remote);
         if deltas = 0 then do { unget_rec_buffer 2; ret False }
         else if expect remote (add32 deltap deltas) (add32 (r_phead remote) (r_shead remote))
         then ret True
         else do { unget_rec_buffer 2; ret False }
       }
     }
     else if is_bo remote then do {
       ok \<leftarrow> expectpulse hw remote (r_pone remote);
       ok \<leftarrow> (if ok then expectspace hw remote (r_sone remote) else ret False);
       ok \<leftarrow> (if ok then expectpulse hw remote (r_pone remote) else ret False);
       ok \<leftarrow> (if ok then expectspace hw remote (r_sone remote) else ret False);
       ok \<leftarrow> (if ok then expectpulse hw remote (r_phead remote) else ret False);
       (if ok then expectspace hw remote (r_shead remote) else ret False)
     }
     else if r_shead remote = 0 then do {
       ok \<leftarrow> sync_pending_space hw remote;
       if \<not> ok then ret False
       else do { set_pending_pulse (r_phead remote); ret True }
     }
     else do {
       ok \<leftarrow> expectpulse hw remote (r_phead remote);
       if \<not> ok then do { unget_rec_buffer 1; ret False }
       else if has_flag remote NO_HEAD_REP then do {
         deltas \<leftarrow> get_next_space hw (r_shead remote);
         if deltas \<noteq> 0 then
           (if expect remote (r_shead remote) deltas then ret True
            else do { unget_rec_buffer 2; ret False })
         else do { set_pending_space (r_shead remote); ret True }
       }
       else do { set_pending_space (r_shead remote); ret True }
     })"

definition get_foot :: "'d hardware \<Rightarrow> ir_remote \<Rightarrow> ('d rx, bool) state" where
  "get_foot hw remote = do {
     ok \<leftarrow> expectspace hw remote (r_sfoot remote);
     if \<not> ok then ret False else expectpulse hw remote (r_pfoot remote)
   }"

definition get_lead :: "'d hardware \<Rightarrow> ir_remote \<Rightarrow> ('d rx, bool) state" where
  "get_lead hw remote =
    (if r_plead remote = 0 then ret True
     else do {
       ok \<leftarrow> sync_pending_space hw remote;
       if \<not> ok then ret False
       else do { set_pending_pulse (r_plead remote); ret True }
     })"

definition get_trail :: "'d hardware \<Rightarrow> ir_remote \<Rightarrow> ('d rx, bool) state" where
  "get_trail hw remote = do {
     ok \<leftarrow> (if r_ptrail remote \<noteq> 0 then expectpulse hw remote (r_ptrail remote) else ret True);
     if \<not> ok then ret False
     else do {
       pendingp \<leftarrow> rd rb_pendingp;
       if pendingp > 0 then sync_pending_pulse hw remote else ret True
     }
   }"

definition get_gap :: "'d hardware \<Rightarrow> ir_remote \<Rightarrow> lirc_t \<Rightarrow> ('d rx, bool) state" where
  "get_gap hw remote gap = do {
     data \<leftarrow> get_next_rec_buffer hw (sub32 gap (quot (mul32 gap (r_eps remote)) 100));
     if data = 0 then ret True
     else if \<not> is_space data then ret False
     else do {
       unget_rec_buffer 1;
       ret (expect_at_least remote data gap)
     }
   }"

text \<open>\<open>x > sum ? x-sum : 0\<close>, the part of a constant-length signal that is still to come.\<close>

definition rest_of :: "lirc_t \<Rightarrow> lirc_t \<Rightarrow> lirc_t" where
  "rest_of x used = (if x > used then sub32 x used else 0)"

definition repeat_rest :: "ir_remote \<Rightarrow> lirc_t \<Rightarrow> lirc_t \<Rightarrow> lirc_t" where
  "repeat_rest remote x used =
     (if is_const remote then rest_of x used
      else if has_repeat_gap remote then r_repeat_gap remote else x)"

definition get_repeat :: "'d hardware \<Rightarrow> ir_remote \<Rightarrow> ('d rx, bool) state" where
  "get_repeat hw remote = do {
     ok \<leftarrow> get_lead hw remote;
     if \<not> ok then ret False
     else do {
       ok \<leftarrow> (if is_biphase remote then do {
           ok \<leftarrow> expectspace hw remote (r_srepeat remote);
           if \<not> ok then ret False else expectpulse hw remote (r_prepeat remote)
         }
         else do {
           ok \<leftarrow> expectpulse hw remote (r_prepeat remote);
           if \<not> ok then ret False
           else do { set_pending_space (r_srepeat remote); ret True }
         });
       if \<not> ok then ret False
       else do {
         ok \<leftarrow> get_trail hw remote;
         if \<not> ok then ret False
         else do {
           used \<leftarrow> rd rb_sum;
           get_gap hw remote (repeat_rest remote (min_gap remote) used)
         }
       }
     }
   }"


subsection \<open>The data field\<close>

text \<open>The value with which the field decoders report failure, \<open>(ir_code) -1\<close>.\<close>

abbreviation (input) no_code :: ir_code where "no_code \<equiv> - 1"

definition sum_p :: "ir_remote \<Rightarrow> lirc_t" where
  "sum_p remote = add32 (add32 (add32 (r_pzero remote) (r_pone remote)) (r_ptwo remote)) (r_pthree remote)"

definition sum_s :: "ir_remote \<Rightarrow> lirc_t" where
  "sum_s remote = add32 (add32 (add32 (r_szero remote) (r_sone remote)) (r_stwo remote)) (r_sthree remote)"

text \<open>The symbol whose nominal length a pulse/space pair has; \<open>None\<close> if there is none.\<close>

definition symbol_of :: "ir_remote \<Rightarrow> lirc_t \<Rightarrow> nat option" where
  "symbol_of remote len =
     (if expect remote len (add32 (r_pzero remote) (r_szero remote)) then Some 0
      else if expect remote len (add32 (r_pone remote) (r_sone remote)) then Some 1
      else if expect remote len (add32 (r_ptwo remote) (r_stwo remote)) then Some 2
      else if expect remote len (add32 (r_pthree remote) (r_sthree remote)) then Some 3
      else None)"

fun rcmm_loop :: "'d hardware \<Rightarrow> ir_remote \<Rightarrow> nat \<Rightarrow> ir_code \<Rightarrow> ('d rx, ir_code) state" where
  "rcmm_loop hw remote 0 code = ret code"
| "rcmm_loop hw remote (Suc n) code = do {
     let code = shl64 code 2;
     deltap \<leftarrow> get_next_pulse hw (sum_p remote);
     deltas \<leftarrow> get_next_space hw (sum_s remote);
     if deltap = 0 \<or> deltas = 0 then ret no_code
     else (case symbol_of remote (add32 deltap deltas) of
         None \<Rightarrow> ret no_code
       | Some v \<Rightarrow> rcmm_loop hw remote n (code OR of_nat v))
   }"

definition get_data_rcmm :: "'d hardware \<Rightarrow> ir_remote \<Rightarrow> int \<Rightarrow> int \<Rightarrow> ('d rx, ir_code) state" where
  "get_data_rcmm hw remote bits fin =
    (if odd bits \<or> odd fin then ret no_code
     else do {
       ok \<leftarrow> sync_pending_space hw remote;
       if \<not> ok then ret 0
       else rcmm_loop hw remote (nat (bits div 2)) 0
     })"

text \<open>
  Grundig: two half-symbols make one bit pair. \<open>laststate\<close> is the half-symbol waiting for its
  partner, \<open>None\<close> if none is.
\<close>

function grundig_loop :: "'d hardware \<Rightarrow> ir_remote \<Rightarrow> nat \<Rightarrow> nat option \<Rightarrow> ir_code \<Rightarrow> ('d rx, ir_code) state" where
  "grundig_loop hw remote n laststate code =
    (if n = 0 then ret code
     else do {
       deltas \<leftarrow> get_next_space hw (sum_s remote);
       deltap \<leftarrow> get_next_pulse hw (sum_p remote);
       if deltas = 0 \<or> deltap = 0 then ret no_code
       else (case symbol_of remote (add32 deltas deltap) of
           None \<Rightarrow> ret no_code
         | Some s \<Rightarrow>
             if s = 3 then grundig_loop hw remote (n - 1) None (shl64 code 2)
             else if laststate = Some 2 \<and> s = 0 then grundig_loop hw remote (n - 1) None (shl64 code 2 OR 1)
             else if laststate = Some 1 \<and> s = 1 then grundig_loop hw remote (n - 1) None (shl64 code 2 OR 2)
             else if laststate = Some 0 \<and> s = 2 then grundig_loop hw remote (n - 1) None (shl64 code 2 OR 3)
             else if laststate = None then grundig_loop hw remote n (Some s) code
             else ret no_code)
     })"
  by pat_completeness auto
termination
  by (relation "measure (\<lambda>(hw, remote, n, laststate, code). 2 * n + (if laststate = None then 1 else 0))")
    auto

declare grundig_loop.simps [simp del]

definition get_data_grundig :: "'d hardware \<Rightarrow> ir_remote \<Rightarrow> int \<Rightarrow> int \<Rightarrow> ('d rx, ir_code) state" where
  "get_data_grundig hw remote bits fin =
    (if odd bits \<or> odd fin then ret no_code
     else do {
       ok \<leftarrow> sync_pending_pulse hw remote;
       if \<not> ok then ret no_code
       else grundig_loop hw remote (nat (bits div 2)) None 0
     })"

text \<open>The variables of the serial decoder's loop, and the constants it computes first.\<close>

record serial_state =
  ss_received :: int
  ss_space :: bool
  ss_stop_bit :: bool
  ss_delta :: lirc_t
  ss_origdelta :: lirc_t
  ss_parity :: bool
  ss_gap_delta :: lirc_t
  ss_code :: ir_code

record serial_consts =
  sc_base :: lirc_t
  sc_stop :: lirc_t
  sc_max_space :: lirc_t
  sc_max_pulse :: lirc_t
  sc_parity_bit :: int
  sc_bits :: int

definition serial_setup :: "ir_remote \<Rightarrow> int \<Rightarrow> serial_consts" where
  "serial_setup remote bits =
    (let base = i32 (1000000 div r_baud remote);
         stop = i32 (u32 (base * r_stop_bits remote) div 2);
         max_space = i32 (r_sone remote * r_bits_in_byte remote + stop);
         max_pulse = i32 (r_pzero remote * (1 + r_bits_in_byte remote));
         par = r_parity remote \<noteq> IR_PARITY_NONE
     in \<lparr>sc_base = base, sc_stop = stop,
          sc_max_space = (if par then add32 max_space (r_sone remote) else max_space),
          sc_max_pulse = (if par then add32 max_pulse (r_pzero remote) else max_pulse),
          sc_parity_bit = (if par then 1 else 0),
          sc_bits = (if par then i32 (bits + u32 bits div r_bits_in_byte remote) else bits)\<rparr>)"

text \<open>The bit part of one round, reached when no pending duration is left.\<close>

definition serial_bit :: "ir_remote \<Rightarrow> serial_consts \<Rightarrow> serial_state \<Rightarrow> ('d rx, serial_state option) state" where
  "serial_bit remote c t =
    (let expecting = (if ss_space t then r_sone remote else r_pzero remote)
     in if ss_delta t > expecting \<or> expect remote (ss_delta t) expecting then
          (let delta = sub32 (ss_delta t) (if expecting > ss_delta t then ss_delta t else expecting);
               received = ss_received t + 1;
               code = shl64 (ss_code t) 1 OR (if ss_space t then 1 else 0);
               par = (ss_parity t \<noteq> ss_space t);
               n = u32 (r_bits_in_byte remote + sc_parity_bit c);
               t' = t\<lparr>ss_delta := delta, ss_received := received, ss_code := code, ss_parity := par\<rparr>
           in if n = 0 then do { undefined_behaviour; ret None }
              else if u32 received mod n = 0 then
                (if r_parity remote = IR_PARITY_EVEN \<and> par \<or> r_parity remote = IR_PARITY_ODD \<and> \<not> par
                 then ret None
                 else if ss_space t \<and> delta = 0 then ret None
                 else do {
                   set_pending_space (sc_stop c);
                   ret (Some (t'\<lparr>ss_parity := False,
                     ss_code := shl64 (shr64 code n) (r_bits_in_byte remote) OR
                       reverse (shr64 code (sc_parity_bit c)) (i32 (r_bits_in_byte remote)),
                     ss_stop_bit := True,
                     ss_space := (if delta = 0 then \<not> ss_space t else ss_space t)\<rparr>))
                 })
              else ret (Some (t'\<lparr>ss_space := (if delta = 0 then \<not> ss_space t else ss_space t)\<rparr>)))
        else if ss_delta t = ss_origdelta t then ret None
        else ret (Some (t\<lparr>ss_delta := 0, ss_space := \<not> ss_space t\<rparr>)))"

text \<open>One round of the loop; \<open>None\<close> is the return of \<open>(ir_code) -1\<close>.\<close>

definition serial_step :: "'d hardware \<Rightarrow> ir_remote \<Rightarrow> serial_consts \<Rightarrow> serial_state \<Rightarrow> ('d rx, serial_state option) state" where
  "serial_step hw remote c t = do {
     t \<leftarrow> (if ss_delta t = 0 then do {
         delta \<leftarrow> (if ss_space t then get_next_space hw (sc_max_space c) else get_next_pulse hw (sc_max_pulse c));
         let delta = (if delta = 0 \<and> ss_space t \<and>
             u32 (ss_received t + r_bits_in_byte remote + sc_parity_bit c) \<ge> u32 (sc_bits c)
           then sc_max_space c else delta);
         ret (t\<lparr>ss_delta := delta, ss_origdelta := delta\<rparr>)
       } else ret t);
     if ss_delta t = 0 then ret None
     else do {
       pending \<leftarrow> rd (\<lambda>s. if ss_space t then rb_pendings s else rb_pendingp s);
       let matched = expect remote (ss_delta t) pending;
       if \<not> matched \<and> \<not> ss_delta t > pending then ret None
       else do {
         let t = (if matched then t\<lparr>ss_delta := 0\<rparr> else t\<lparr>ss_delta := sub32 (ss_delta t) pending\<rparr>);
         if pending > 0 then
           (if ss_stop_bit t then do {
              set_pending_pulse (sc_base c);
              set_pending_space 0;
              ret (Some (t\<lparr>ss_gap_delta := ss_delta t, ss_delta := 0, ss_stop_bit := False, ss_space := False\<rparr>))
            }
            else do {
              set_pending_pulse 0;
              set_pending_space 0;
              ret (Some (t\<lparr>ss_space := (if ss_delta t = 0 then \<not> ss_space t else ss_space t)\<rparr>))
            })
         else serial_bit remote c t
       }
     }
   }"

fun serial_loop :: "'d hardware \<Rightarrow> ir_remote \<Rightarrow> serial_consts \<Rightarrow> nat \<Rightarrow> serial_state \<Rightarrow> ('d rx, serial_state option) state" where
  "serial_loop hw remote c 0 t = do { wr (\<lambda>s. s\<lparr>rx_hang := True\<rparr>); ret None }"
| "serial_loop hw remote c (Suc n) t =
    (if ss_received t < sc_bits c \<or> ss_stop_bit t then do {
       t' \<leftarrow> serial_step hw remote c t;
       (case t' of None \<Rightarrow> ret None | Some t' \<Rightarrow> serial_loop hw remote c n t')
     }
     else ret (Some t))"

definition serial_fuel :: "int \<Rightarrow> nat" where
  "serial_fuel bits = nat (3 * bits) + 1000"

definition get_data_serial :: "'d hardware \<Rightarrow> ir_remote \<Rightarrow> int \<Rightarrow> ('d rx, ir_code) state" where
  "get_data_serial hw remote bits =
    (if r_baud remote = 0 \<or> (r_parity remote \<noteq> IR_PARITY_NONE \<and> r_bits_in_byte remote = 0)
     then do { undefined_behaviour; ret no_code }
     else do {
       let c = serial_setup remote bits;
       set_pending_pulse (sc_base c);
       pendingp \<leftarrow> rd rb_pendingp;
       t \<leftarrow> serial_loop hw remote c (serial_fuel (sc_bits c))
         \<lparr>ss_received = 0, ss_space = (pendingp = 0), ss_stop_bit = False, ss_delta = 0,
          ss_origdelta = 0, ss_parity = False, ss_gap_delta = 0, ss_code = 0\<rparr>;
       (case t of
          None \<Rightarrow> ret no_code
        | Some t \<Rightarrow> do {
            (if ss_gap_delta t \<noteq> 0 then unget_rec_buffer_delta (ss_gap_delta t) else ret ());
            set_pending_pulse 0;
            set_pending_space 0;
            ret (ss_code t)
          })
     })"

fun bo_loop :: "'d hardware \<Rightarrow> ir_remote \<Rightarrow> nat \<Rightarrow> bool \<Rightarrow> ir_code \<Rightarrow> ('d rx, ir_code) state" where
  "bo_loop hw remote 0 lastbit code = ret code"
| "bo_loop hw remote (Suc n) lastbit code = do {
     let code = shl64 code 1;
     deltap \<leftarrow> get_next_pulse hw (sum_p remote);
     deltas \<leftarrow> get_next_space hw (sum_s remote);
     if deltap = 0 \<or> deltas = 0 then ret no_code
     else do {
       let pzero = (if lastbit then r_pone remote else r_ptwo remote);
       let szero = (if lastbit then r_sone remote else r_stwo remote);
       let pone = (if lastbit then r_ptwo remote else r_pthree remote);
       let sone = (if lastbit then r_stwo remote else r_sthree remote);
       if expect remote deltap pzero \<and> expect remote deltas szero then bo_loop hw remote n False code
       else if expect remote deltap pone \<and> expect remote deltas sone
         then bo_loop hw remote n True (code OR 1)
       else ret no_code
     }
   }"

fun xmp_loop :: "'d hardware \<Rightarrow> ir_remote \<Rightarrow> nat \<Rightarrow> ir_code \<Rightarrow> ('d rx, ir_code) state" where
  "xmp_loop hw remote 0 code = ret code"
| "xmp_loop hw remote (Suc n) code = do {
     let code = shl64 code 4;
     deltap \<leftarrow> get_next_pulse hw (r_pzero remote);
     deltas \<leftarrow> get_next_space hw (add32 (r_szero remote) (mul32 16 (r_sone remote)));
     if deltap = 0 \<or> deltas = 0 then ret no_code
     else if r_sone remote = 0 then do { undefined_behaviour; ret no_code }
     else do {
       let over = sub32 (add32 deltap deltas) (add32 (r_pzero remote) (r_szero remote));
       let v = (word_of_int (quot (add32 over (quot (r_sone remote) 2)) (r_sone remote)) :: ir_code);
       if v \<ge> 16 then ret no_code
       else xmp_loop hw remote n (code OR v)
     }
   }"

definition get_data_xmp :: "'d hardware \<Rightarrow> ir_remote \<Rightarrow> int \<Rightarrow> int \<Rightarrow> ('d rx, ir_code) state" where
  "get_data_xmp hw remote bits fin =
    (if rmd bits 4 \<noteq> 0 \<or> rmd fin 4 \<noteq> 0 then ret no_code
     else do {
       ok \<leftarrow> sync_pending_space hw remote;
       if \<not> ok then ret 0
       else xmp_loop hw remote (nat (bits div 4)) 0
     })"

text \<open>
  Goldstar remotes have two pairs of timings for a one; \<open>get_data\<close> overwrites \<open>pone\<close>/\<open>sone\<close>
  before each bit.
\<close>

definition goldstar_one :: "int \<Rightarrow> ir_remote \<Rightarrow> ir_remote" where
  "goldstar_one pos rem =
    (if odd pos then rem\<lparr>r_pone := r_ptwo rem, r_sone := r_stwo rem\<rparr>
     else rem\<lparr>r_pone := r_pthree rem, r_sone := r_sthree rem\<rparr>)"

fun bits_loop :: "'d hardware \<Rightarrow> nat \<Rightarrow> nat \<Rightarrow> int \<Rightarrow> ir_code \<Rightarrow> ('d rx, ir_code) state" where
  "bits_loop hw r 0 pos code = ret code"
| "bits_loop hw r (Suc n) pos code = do {
     let code = shl64 code 1;
     remote \<leftarrow> remote_at r;
     (if is_goldstar remote then update_remote r (goldstar_one pos) else ret ());
     remote \<leftarrow> remote_at r;
     one \<leftarrow> expectone hw remote pos;
     if one then bits_loop hw r n (pos + 1) (code OR 1)
     else do {
       zero \<leftarrow> expectzero hw remote pos;
       if zero then bits_loop hw r n (pos + 1) code
       else ret no_code
     }
   }"

definition get_data :: "'d hardware \<Rightarrow> nat \<Rightarrow> int \<Rightarrow> int \<Rightarrow> ('d rx, ir_code) state" where
  "get_data hw r bits fin = do {
     remote \<leftarrow> remote_at r;
     if is_rcmm remote then get_data_rcmm hw remote bits fin
     else if is_grundig remote then get_data_grundig hw remote bits fin
     else if is_serial remote then get_data_serial hw remote bits
     else if is_bo remote then bo_loop hw remote (nat bits) True 0
     else if is_xmp remote then get_data_xmp hw remote bits fin
     else bits_loop hw r (nat bits) fin 0
   }"

definition get_pre :: "'d hardware \<Rightarrow> nat \<Rightarrow> ('d rx, ir_code) state" where
  "get_pre hw r = do {
     remote \<leftarrow> remote_at r;
     pre \<leftarrow> get_data hw r (r_pre_data_bits remote) 0;
     if pre = no_code then ret no_code
     else do {
       remote \<leftarrow> remote_at r;
       if r_pre_p remote > 0 \<and> r_pre_s remote > 0 then do {
         ok \<leftarrow> expectpulse hw remote (r_pre_p remote);
         if \<not> ok then ret no_code
         else do { set_pending_space (r_pre_s remote); ret pre }
       }
       else ret pre
     }
   }"

definition get_post :: "'d hardware \<Rightarrow> nat \<Rightarrow> ('d rx, ir_code) state" where
  "get_post hw r = do {
     remote \<leftarrow> remote_at r;
     ok \<leftarrow> (if r_post_p remote > 0 \<and> r_post_s remote > 0 then do {
         ok \<leftarrow> expectpulse hw remote (r_post_p remote);
         if \<not> ok then ret False
         else do { set_pending_space (r_post_s remote); ret True }
       } else ret True);
     if \<not> ok then ret no_code
     else get_data hw r (r_post_data_bits remote) (add32 (r_pre_data_bits remote) (r_bits remote))
   }"


subsection \<open>The whole signal\<close>

text \<open>
  What \<open>receive_decode\<close> stores through its pointer arguments when it returns 1. It writes none
  of them when it returns 0, which is \<^const>\<open>None\<close>.
\<close>

record decoded =
  d_pre :: ir_code
  d_code :: ir_code
  d_post :: ir_code
  d_repeat_flag :: bool
  d_min_remaining_gap :: lirc_t
  d_max_remaining_gap :: lirc_t

text \<open>
  The first part of \<open>receive_decode\<close>, for the modes that deliver pulses and spaces: it rejects
  the signal, accepts it as a repeat of the last code, or goes on with \<open>header\<close> and \<open>sync\<close>.
\<close>

datatype stage = Reject | Accept decoded | Continue bool lirc_t

definition is_timing_mode :: "'d hardware \<Rightarrow> bool" where
  "is_timing_mode hw \<longleftrightarrow> hw_rec_mode hw = LIRC_MODE_MODE2 \<or> hw_rec_mode hw = LIRC_MODE_PULSE \<or>
     hw_rec_mode hw = LIRC_MODE_RAW"

definition codes_at :: "ir_remote \<Rightarrow> nat \<Rightarrow> ir_ncode" where
  "codes_at remote i = the (r_codes remote) ! i"

text \<open>
  The repeat signal: \<open>Accept\<close>/\<open>Reject\<close> end the decoding, \<open>Continue\<close> falls through after the
  buffer has been rewound and synchronised again.
\<close>

definition receive_repeat :: "'d hardware \<Rightarrow> nat \<Rightarrow> lirc_t \<Rightarrow> ('d rx, stage) state" where
  "receive_repeat hw r sync = do {
     remote \<leftarrow> remote_at r;
     ok \<leftarrow> (if has_flag remote REPEAT_HEADER \<and> has_header remote then get_header hw remote else ret True);
     if \<not> ok then ret Reject
     else do {
       rep \<leftarrow> get_repeat hw remote;
       if rep then
         (case r_last_code remote of
            None \<Rightarrow> ret Reject
          | Some i \<Rightarrow> do {
              used \<leftarrow> rd rb_sum;
              ret (Accept \<lparr>d_pre = r_pre_data remote, d_code = n_code (codes_at remote i),
                d_post = r_post_data remote, d_repeat_flag = True,
                d_min_remaining_gap = repeat_rest remote (min_gap remote) used,
                d_max_remaining_gap = repeat_rest remote (max_gap remote) used\<rparr>)
            })
       else do {
         rewind_rec_buffer;
         _ \<leftarrow> sync_rec_buffer hw r;
         ret (Continue False sync)
       }
     }
   }"

definition receive_start :: "'d hardware \<Rightarrow> nat \<Rightarrow> ('d rx, stage) state" where
  "receive_start hw r =
    (if is_timing_mode hw then do {
       rewind_rec_buffer;
       remote \<leftarrow> remote_at r;
       wr (\<lambda>s. s\<lparr>rb_is_biphase := is_biphase remote\<rparr>);
       sync \<leftarrow> sync_rec_buffer hw r;
       if sync = 0 then ret Reject
       else do {
         remote \<leftarrow> remote_at r;
         last_remote \<leftarrow> rd rx_last_remote;
         st \<leftarrow> (if has_repeat remote \<and> last_remote = Some r then receive_repeat hw r sync
               else ret (Continue False sync));
         (case st of
            Reject \<Rightarrow> ret Reject
          | Accept d \<Rightarrow> ret (Accept d)
          | Continue _ _ \<Rightarrow> do {
              remote \<leftarrow> remote_at r;
              if has_header remote then do {
                header \<leftarrow> get_header hw remote;
                if \<not> header \<and> \<not> (has_flag remote NO_HEAD_REP \<and>
                    expect_at_most remote sync (max_gap remote))
                then ret Reject
                else ret (Continue header sync)
              }
              else ret (Continue False sync)
            })
       }
     }
     else ret (Continue False 0))"

text \<open>The signals of a raw code; \<open>None\<close> where the code would read outside the array.\<close>

definition code_signals :: "ir_ncode \<Rightarrow> lirc_t list option" where
  "code_signals nc = (case n_signals nc of
       None \<Rightarrow> if n_length nc \<le> 0 then Some [] else None
     | Some xs \<Rightarrow> if n_length nc \<le> int (length xs) then Some (take (nat (n_length nc)) xs) else None)"

fun raw_match :: "'d hardware \<Rightarrow> nat \<Rightarrow> ir_remote \<Rightarrow> lirc_t list \<Rightarrow> ('d rx, bool) state" where
  "raw_match hw r remote [] = ret True"
| "raw_match hw r remote (p # rest) = do {
     ok \<leftarrow> expectpulse hw remote p;
     if \<not> ok then do { rewind_rec_buffer; _ \<leftarrow> sync_rec_buffer hw r; ret False }
     else (case rest of
         [] \<Rightarrow> ret True
       | sp # rest' \<Rightarrow> do {
           ok \<leftarrow> expectspace hw remote sp;
           if \<not> ok then do { rewind_rec_buffer; _ \<leftarrow> sync_rec_buffer hw r; ret False }
           else raw_match hw r remote rest'
         })
   }"

fun raw_find :: "'d hardware \<Rightarrow> nat \<Rightarrow> ir_remote \<Rightarrow> ir_ncode list \<Rightarrow> ('d rx, ir_code option) state" where
  "raw_find hw r remote [] = ret None"
| "raw_find hw r remote (nc # rest) =
    (case code_signals nc of
       None \<Rightarrow> do { undefined_behaviour; ret None }
     | Some sigs \<Rightarrow> do {
         ok \<leftarrow> raw_match hw r remote sigs;
         if \<not> ok then raw_find hw r remote rest
         else do {
           used \<leftarrow> rd rb_sum;
           ok \<leftarrow> get_gap hw remote
             (if is_const remote then sub32 (min_gap remote) used else min_gap remote);
           if ok then ret (Some (n_code nc)) else raw_find hw r remote rest
         }
       })"

text \<open>A ready-made code from the hardware, taken apart; the second result is \<open>sync\<close>.\<close>

definition lirccode_sum :: "ir_remote \<Rightarrow> lirc_t" where
  "lirccode_sum remote = i32 (r_phead remote + r_shead remote +
     lirc_t_max (add32 (r_pone remote) (r_sone remote)) (add32 (r_pzero remote) (r_szero remote)) *
       bit_count remote +
     r_plead remote + r_ptrail remote + r_pfoot remote + r_sfoot remote +
     r_pre_p remote + r_pre_s remote + r_post_p remote + r_post_s remote)"

definition split_code :: "ir_remote \<Rightarrow> ir_code \<Rightarrow> ir_code \<times> ir_code \<times> ir_code" where
  "split_code remote dec =
    (let post = dec AND gen_mask (r_post_data_bits remote);
         dec = shr64 dec (r_post_data_bits remote);
         code = dec AND gen_mask (r_bits remote);
         pre = shr64 dec (r_bits remote)
     in (pre, code, post))"

definition receive_lirccode :: "'d hardware \<Rightarrow> nat \<Rightarrow>
    ('d rx, ((ir_code \<times> ir_code \<times> ir_code) \<times> lirc_t \<times> mytimeval) option) state" where
  "receive_lirccode hw r = do {
     remote \<leftarrow> remote_at r;
     if hw_code_length hw \<noteq> u32 (bit_count remote) then ret None
     else do {
       dec \<leftarrow> rd rb_decoded;
       current \<leftarrow> gettimeofday;
       let total = lirccode_sum remote;
       let used = (if total \<ge> r_gap remote then sub32 (r_gap remote) 1 else total);
       wr (\<lambda>s. s\<lparr>rb_sum := used\<rparr>);
       ret (Some (split_code remote dec,
         i32 (time_elapsed (r_last_send remote) current - used), current))
     }
   }"

definition receive_gap :: "'d hardware \<Rightarrow> ir_remote \<Rightarrow> ('d rx, bool) state" where
  "receive_gap hw remote = do {
     used \<leftarrow> rd rb_sum;
     if is_rcmm remote then get_gap hw remote 1000
     else if is_const remote then get_gap hw remote (rest_of (min_gap remote) used)
     else get_gap hw remote (min_gap remote)
   }"

definition receive_fields :: "'d hardware \<Rightarrow> nat \<Rightarrow> bool \<Rightarrow>
    ('d rx, (ir_code \<times> ir_code \<times> ir_code) option) state" where
  "receive_fields hw r header = do {
     remote \<leftarrow> remote_at r;
     ok \<leftarrow> get_lead hw remote;
     if \<not> ok then ret None
     else do {
       pre \<leftarrow> (if has_pre remote then get_pre hw r else ret 0);
       if has_pre remote \<and> pre = no_code then ret None
       else do {
         code \<leftarrow> get_data hw r (r_bits remote) (r_pre_data_bits remote);
         if code = no_code then ret None
         else do {
           post \<leftarrow> (if has_post remote then get_post hw r else ret 0);
           if has_post remote \<and> post = no_code then ret None
           else do {
             ok \<leftarrow> get_trail hw remote;
             if \<not> ok then ret None
             else do {
               ok \<leftarrow> (if has_foot remote then get_foot hw remote else ret True);
               if \<not> ok then ret None
               else do {
                 (if header \<and> is_const remote \<and> has_flag remote NO_HEAD_REP
                  then wr (\<lambda>s. s\<lparr>rb_sum := sub32 (rb_sum s) (add32 (r_phead remote) (r_shead remote))\<rparr>)
                  else ret ());
                 ok \<leftarrow> receive_gap hw remote;
                 if ok then ret (Some (pre, code, post)) else ret None
               }
             }
           }
         }
       }
     }
   }"

text \<open>The repeat flag and the gap that is still to come, from the signal just decoded.\<close>

definition receive_finish :: "'d hardware \<Rightarrow> nat \<Rightarrow> ir_code \<times> ir_code \<times> ir_code \<Rightarrow> lirc_t \<Rightarrow>
    mytimeval \<Rightarrow> ('d rx, decoded option) state" where
  "receive_finish hw r flds sync current = do {
     remote \<leftarrow> remote_at r;
     used \<leftarrow> rd rb_sum;
     let rep = ((\<not> has_repeat remote \<or> u32 (r_reps remote) < r_min_code_repeat remote) \<and>
       expect_at_most remote sync (r_max_remaining_gap remote));
     let rep = (if hw_rec_mode hw = LIRC_MODE_LIRCCODE \<and>
       time_elapsed (r_last_send remote) current < 325000 then True else rep);
     ret (Some \<lparr>d_pre = fst flds, d_code = fst (snd flds), d_post = snd (snd flds),
       d_repeat_flag = rep,
       d_min_remaining_gap = (if is_const remote then rest_of (min_gap remote) used else min_gap remote),
       d_max_remaining_gap = (if is_const remote then rest_of (max_gap remote) used else max_gap remote)\<rparr>)
   }"

definition receive_decode :: "'d hardware \<Rightarrow> nat \<Rightarrow> ('d rx, decoded option) state" where
  "receive_decode hw r = do {
     st \<leftarrow> receive_start hw r;
     (case st of
        Reject \<Rightarrow> ret None
      | Accept d \<Rightarrow> ret (Some d)
      | Continue header sync \<Rightarrow> do {
          remote \<leftarrow> remote_at r;
          if is_raw remote then
            (if hw_rec_mode hw = LIRC_MODE_LIRCCODE then ret None
             else (case r_codes remote of
                 None \<Rightarrow> do { undefined_behaviour; ret None }
               | Some codes \<Rightarrow> do {
                   found \<leftarrow> raw_find hw r remote codes;
                   (case found of
                      None \<Rightarrow> ret None
                    | Some code \<Rightarrow> receive_finish hw r (0, code, 0) sync zero_time)
                 }))
          else if hw_rec_mode hw = LIRC_MODE_LIRCCODE then do {
            res \<leftarrow> receive_lirccode hw r;
            (case res of
               None \<Rightarrow> ret None
             | Some (flds, sync, current) \<Rightarrow> receive_finish hw r flds sync current)
          }
          else do {
            flds \<leftarrow> receive_fields hw r header;
            (case flds of
               None \<Rightarrow> ret None
             | Some flds \<Rightarrow> receive_finish hw r flds sync zero_time)
          }
        })
   }"

end
