(* ===== verification/IRRemote.thy ===== *)
theory IRRemote
  imports Receive CText
begin

text \<open>
  \<open>DLL/Common/IRRemote.cpp\<close>: from the fields of a received signal to the button it belongs to and
  the line the server broadcasts. \<open>map_code\<close> and \<open>map_gap\<close> serve the receivers that decode in
  hardware; \<open>get_code\<close> finds the button, \<open>set_code\<close> counts repeats and builds the composite code,
  \<open>decodeCommand\<close> tries the remotes in turn.

  \<open>get_code\<close> reads and writes one remote only, so it is a function of that remote and returns it
  updated. \<open>set_code\<close> and \<open>decodeCommand\<close> work on the state \<open>rx\<close>, which holds the globals of the
  file. The function pointer \<open>hw.decode_func\<close> is an argument.
\<close>

subsection \<open>Codes and gaps decoded in hardware\<close>

definition map_code :: "ir_remote \<Rightarrow> int \<Rightarrow> ir_code \<Rightarrow> int \<Rightarrow> ir_code \<Rightarrow> int \<Rightarrow> ir_code \<Rightarrow>
    (ir_code \<times> ir_code \<times> ir_code) option" where
  "map_code remote pre_bits pre bits code post_bits post =
    (if add32 (add32 pre_bits bits) post_bits \<noteq> bit_count remote then None
     else
       let all = pre AND gen_mask pre_bits;
           all = shl64 all bits;
           all = all OR (code AND gen_mask bits);
           all = shl64 all post_bits;
           all = all OR (post AND gen_mask post_bits);
           postp = all AND gen_mask (r_post_data_bits remote);
           all = shr64 all (r_post_data_bits remote);
           codep = all AND gen_mask (r_bits remote);
           all = shr64 all (r_bits remote);
           prep = all AND gen_mask (r_pre_data_bits remote)
       in Some (prep, codep, postp))"

text \<open>The repeat flag and the remaining gaps.\<close>

definition map_gap :: "ir_remote \<Rightarrow> mytimeval \<Rightarrow> mytimeval \<Rightarrow> lirc_t \<Rightarrow> bool \<times> lirc_t \<times> lirc_t" where
  "map_gap remote start lst signal_length =
    (let repeat_flag =
       (if i32 (tv_sec start - tv_sec lst) \<ge> 2 then False
        else expect_at_most remote (i32 (time_elapsed lst start)) (r_max_remaining_gap remote))
     in if is_const remote then
          (if min_gap remote > signal_length then
             (repeat_flag, sub32 (min_gap remote) signal_length, sub32 (max_gap remote) signal_length)
           else (repeat_flag, 0, rest_of (max_gap remote) signal_length))
        else (repeat_flag, min_gap remote, max_gap remote))"

subsection \<open>Finding the button\<close>

text \<open>
  The bits of \<open>toggle_mask\<close> flip the bits of \<open>post\<close>, \<open>code\<close> and \<open>pre\<close>, lowest first; \<open>affected\<close> is
  the variable the pointer of the same name points to.
\<close>

datatype part = Post | Code | Pre

record toggled =
  tg_pre :: ir_code
  tg_code :: ir_code
  tg_post :: ir_code
  tg_affected :: part
  tg_current_bit :: int
  tg_mask :: ir_code

definition flip_toggled :: "ir_code \<Rightarrow> toggled \<Rightarrow> toggled" where
  "flip_toggled v t = (case tg_affected t of
     Post \<Rightarrow> t\<lparr>tg_post := tg_post t XOR v\<rparr>
   | Code \<Rightarrow> t\<lparr>tg_code := tg_code t XOR v\<rparr>
   | Pre \<Rightarrow> t\<lparr>tg_pre := tg_pre t XOR v\<rparr>)"

definition toggle_step :: "ir_remote \<Rightarrow> int \<Rightarrow> toggled \<Rightarrow> toggled" where
  "toggle_step remote i t =
    (let t = (if i = r_post_data_bits remote then t\<lparr>tg_affected := Code, tg_current_bit := 0\<rparr> else t);
         t = (if i = add32 (r_post_data_bits remote) (r_bits remote)
              then t\<lparr>tg_affected := Pre, tg_current_bit := 0\<rparr> else t);
         t = flip_toggled (shl64 (tg_mask t AND 1) (tg_current_bit t)) t
     in t\<lparr>tg_mask := drop_bit 1 (tg_mask t), tg_current_bit := tg_current_bit t + 1\<rparr>)"

definition toggle_fields :: "ir_remote \<Rightarrow> ir_code \<Rightarrow> ir_code \<Rightarrow> ir_code \<Rightarrow> ir_code \<times> ir_code \<times> ir_code" where
  "toggle_fields remote pre code post =
    (if has_toggle_mask remote \<and> odd (r_toggle_mask_state remote) then
       (let t = fold (\<lambda>i. toggle_step remote (int i)) [0..<nat (bit_count remote)]
          \<lparr>tg_pre = pre, tg_code = code, tg_post = post, tg_affected = Post, tg_current_bit = 0,
           tg_mask = r_toggle_mask remote\<rparr>
        in (tg_pre t, tg_code t, tg_post t))
     else (pre, code, post))"

text \<open>The bits of pre- and post-data that need not agree.\<close>

definition field_masks :: "ir_remote \<Rightarrow> ir_code \<times> ir_code" where
  "field_masks remote =
    (let pre_mask = 0; post_mask = 0;
         (pre_mask, post_mask) =
           (if has_toggle_bit_mask remote then
              (shr64 (r_toggle_bit_mask remote) (add32 (r_bits remote) (r_post_data_bits remote)),
               r_toggle_bit_mask remote AND gen_mask (r_post_data_bits remote))
            else (pre_mask, post_mask))
     in if has_ignore_mask remote then
          (pre_mask OR shr64 (r_ignore_mask remote) (add32 (r_bits remote) (r_post_data_bits remote)),
           post_mask OR (r_ignore_mask remote AND gen_mask (r_post_data_bits remote)))
        else (pre_mask, post_mask))"

definition code_matches :: "ir_remote \<Rightarrow> ir_code \<Rightarrow> ir_ncode \<Rightarrow> nat option \<Rightarrow> bool" where
  "code_matches remote all nc node =
     match_ir_code remote (gen_ir_code remote (r_pre_data remote) (get_ir_code nc node) (r_post_data remote)) all"

text \<open>
  The comparison inside the search for the longest matching sequence: does the chain from its start
  agree with the chain from \<open>nxt\<close> up to \<open>current\<close>, \<open>n\<close> nodes further? The result is \<open>prev\<close> at the
  end of the comparison.
\<close>

fun same_sequence :: "ir_ncode \<Rightarrow> nat option \<Rightarrow> nat option \<Rightarrow> nat \<Rightarrow> nat option option" where
  "same_sequence nc prev nxt 0 = Some prev"
| "same_sequence nc prev nxt (Suc n) =
    (if get_ir_code nc prev \<noteq> get_ir_code nc nxt then None
     else same_sequence nc (get_next_ir_code_node nc prev) (get_next_ir_code_node nc nxt) n)"

text \<open>
  The search itself, \<open>search\<close> running from the first node to \<open>current\<close>: the new value of
  \<open>current\<close> where a sequence matches.
\<close>

fun sequence_search :: "ir_remote \<Rightarrow> ir_code \<Rightarrow> ir_ncode \<Rightarrow> nat \<Rightarrow> nat list \<Rightarrow> nat option option" where
  "sequence_search remote all nc cur [] = None"
| "sequence_search remote all nc cur (search # rest) =
    (case same_sequence nc None (Some search) (cur - search) of
       None \<Rightarrow> sequence_search remote all nc cur rest
     | Some prev \<Rightarrow>
         if code_matches remote all nc prev then Some (get_next_ir_code_node nc prev)
         else sequence_search remote all nc cur rest)"

record scan =
  sc_found_code :: bool
  sc_have_code :: bool
  sc_found :: "nat option"

text \<open>One code of the remote: its new \<open>current\<close> and what has been found so far.\<close>

definition scan_code :: "ir_remote \<Rightarrow> ir_code \<Rightarrow> nat \<Rightarrow> ir_ncode \<Rightarrow> scan \<Rightarrow> ir_ncode \<times> scan" where
  "scan_code remote all i nc t =
    (if code_matches remote all nc (n_current nc) then
       let nc' = (if n_next nc \<noteq> [] then nc\<lparr>n_current := get_next_ir_code_node nc (n_current nc)\<rparr> else nc);
           t = t\<lparr>sc_found_code := True\<rparr>
       in (nc', if sc_have_code t then t
                else t\<lparr>sc_found := Some i, sc_have_code := (n_current nc' = None)\<rparr>)
     else (case n_current nc of
         None \<Rightarrow> (nc\<lparr>n_current := None\<rparr>, t)
       | Some cur \<Rightarrow>
           if n_next nc = [] then (nc\<lparr>n_current := None\<rparr>, t)
           else (case sequence_search remote all nc cur [0..<Suc cur] of
               None \<Rightarrow> (nc\<lparr>n_current := None\<rparr>, t)
             | Some node \<Rightarrow>
                 (nc\<lparr>n_current := node\<rparr>,
                  let t = t\<lparr>sc_found_code := True\<rparr>
                  in if sc_have_code t then t else t\<lparr>sc_found := Some i\<rparr>))))"

fun scan_codes :: "ir_remote \<Rightarrow> ir_code \<Rightarrow> nat \<Rightarrow> ir_ncode list \<Rightarrow> scan \<Rightarrow> ir_ncode list \<times> scan" where
  "scan_codes remote all i [] t = ([], t)"
| "scan_codes remote all i (nc # ncs) t =
    (let (nc', t) = scan_code remote all i nc t;
         (ncs', t) = scan_codes remote all (Suc i) ncs t
     in (nc' # ncs', t))"

text \<open>
  \<open>get_code\<close>: the button found and the state of the toggle bits, and the remote afterwards. Where
  the source returns without storing through \<open>toggle_bit_mask_statep\<close> there is no button either.
\<close>

definition get_code :: "ir_remote \<Rightarrow> ir_code \<Rightarrow> ir_code \<Rightarrow> ir_code \<Rightarrow> (nat \<times> ir_code) option \<times> ir_remote" where
  "get_code remote pre code post =
    (let (pre_mask, post_mask) = field_masks remote;
         (pre, code, post) = toggle_fields remote pre code post
     in if has_pre remote \<and> pre OR pre_mask \<noteq> r_pre_data remote OR pre_mask then (None, remote)
        else if has_post remote \<and> post OR post_mask \<noteq> r_post_data remote OR post_mask then (None, remote)
        else
          let all = gen_ir_code remote pre code post;
              toggle_bit_mask_state = all AND r_toggle_bit_mask remote;
              (codes, t) = (case r_codes remote of
                  None \<Rightarrow> (None, \<lparr>sc_found_code = False, sc_have_code = False, sc_found = None\<rparr>)
                | Some ncs \<Rightarrow>
                    let (ncs', t) = scan_codes remote all 0 ncs
                      \<lparr>sc_found_code = False, sc_have_code = False, sc_found = None\<rparr>
                    in (Some ncs', t));
              remote = remote\<lparr>r_codes := codes\<rparr>
          in case sc_found t of
               None \<Rightarrow> (None, remote)
             | Some found \<Rightarrow>
                 if sc_found_code t \<and> has_toggle_mask remote then
                   (if even (r_toggle_mask_state remote)
                    then (Some (found, toggle_bit_mask_state), remote\<lparr>r_toggle_code := Some found\<rparr>)
                    else if r_toggle_code remote \<noteq> Some found then (None, remote\<lparr>r_toggle_code := None\<rparr>)
                    else (Some (found, toggle_bit_mask_state), remote\<lparr>r_toggle_code := None\<rparr>))
                 else (Some (found, toggle_bit_mask_state), remote))"

subsection \<open>Repeats and the composite code\<close>

definition composite_code :: "ir_remote \<Rightarrow> ir_ncode \<Rightarrow> ir_code" where
  "composite_code remote found =
    (let code = 0;
         code = (if has_pre remote then shl64 (code OR r_pre_data remote) (r_bits remote) else code);
         code = code OR n_code found;
         code = (if has_post remote then shl64 code (r_post_data_bits remote) OR r_post_data remote else code)
     in if has_flag remote COMPAT_REVERSE then reverse code (bit_count remote) else code)"

text \<open>Is the signal a repetition of the one decoded last?\<close>

definition is_repetition :: "ir_remote \<Rightarrow> nat \<Rightarrow> ir_code \<Rightarrow> bool \<Rightarrow> mytimeval \<Rightarrow> bool" where
  "is_repetition remote found toggle_bit_mask_state repeat_flag current \<longleftrightarrow>
     (let nc = codes_at remote found
      in (r_last_code remote = Some found \<or> n_next nc \<noteq> [] \<and> n_current nc \<noteq> None) \<and>
         repeat_flag \<and> time_elapsed (r_last_send remote) current < 1000000 \<and>
         (\<not> has_toggle_bit_mask remote \<or> toggle_bit_mask_state = r_toggle_bit_mask_state remote))"

definition count_repetition :: "ir_remote \<Rightarrow> ir_ncode \<Rightarrow> ir_remote" where
  "count_repetition remote nc =
    (if has_toggle_mask remote then
       let st = add32 (r_toggle_mask_state remote) 1
       in if st = 4 then remote\<lparr>r_reps := add32 (r_reps remote) 1, r_toggle_mask_state := 2\<rparr>
          else remote\<lparr>r_toggle_mask_state := st\<rparr>
     else if n_current nc = None then remote\<lparr>r_reps := add32 (r_reps remote) 1\<rparr>
     else remote)"

definition start_repetition :: "ir_remote \<Rightarrow> nat \<Rightarrow> ir_ncode \<Rightarrow> ir_code \<Rightarrow> ir_remote" where
  "start_repetition remote found nc toggle_bit_mask_state =
    (let remote = remote\<lparr>r_reps := (if n_next nc \<noteq> [] \<and> n_current nc = None then 1 else 0)\<rparr>;
         remote = (if has_toggle_mask remote
           then remote\<lparr>r_toggle_mask_state := 1, r_toggle_code := Some found\<rparr> else remote)
     in if has_toggle_bit_mask remote
        then remote\<lparr>r_toggle_bit_mask_state := toggle_bit_mask_state\<rparr> else remote)"

definition set_code :: "nat \<Rightarrow> nat \<Rightarrow> ir_code \<Rightarrow> bool \<Rightarrow> lirc_t \<Rightarrow> lirc_t \<Rightarrow> ('d rx, ir_code) state" where
  "set_code r found toggle_bit_mask_state repeat_flag min_remaining max_remaining = do {
     current \<leftarrow> gettimeofday;
     remote \<leftarrow> remote_at r;
     last_decoded \<leftarrow> rd rx_last_decoded;
     let nc = codes_at remote found;
     update_remote r (\<lambda>rem.
       if last_decoded = Some r \<and> is_repetition rem found toggle_bit_mask_state repeat_flag current
       then count_repetition rem nc
       else start_repetition rem found nc toggle_bit_mask_state);
     wr (\<lambda>s. s\<lparr>rx_last_remote := Some r, rx_last_decoded := Some r\<rparr>);
     update_remote r (\<lambda>rem. rem\<lparr>r_last_code := (if n_current nc = None then Some found else r_last_code rem),
       r_last_send := current, r_min_remaining_gap := min_remaining, r_max_remaining_gap := max_remaining\<rparr>);
     remote \<leftarrow> remote_at r;
     ret (composite_code remote nc)
   }"

subsection \<open>The broadcast line\<close>

definition message_text :: "string \<Rightarrow> string \<Rightarrow> string \<Rightarrow> ir_code \<Rightarrow> int \<Rightarrow> string" where
  "message_text remote_name button_name button_suffix code reps =
     hex_digits 16 (unat code) @ '' '' @
     (let v = nat (u32 reps) in hex_digits (hex_width v) v) @ '' '' @
     button_name @ button_suffix @ '' '' @ remote_name @ [CHR 0x0A]"

text \<open>
  \<open>_snprintf\<close> of the Microsoft library: what is in the buffer and the length, or -1 when the text
  did not fit. There is no terminating null when the text has exactly the size of the buffer or
  more.
\<close>

definition write_message :: "nat \<Rightarrow> string \<Rightarrow> string \<Rightarrow> string \<Rightarrow> ir_code \<Rightarrow> int \<Rightarrow> string \<times> int" where
  "write_message size_out remote_name button_name button_suffix code reps =
    (let text = message_text remote_name button_name button_suffix code reps
     in (take size_out text, if length text \<le> size_out then int (length text) else -1))"

subsection \<open>Trying the remotes\<close>

definition set_current :: "nat option \<Rightarrow> ir_ncode \<Rightarrow> ir_ncode" where
  "set_current c nc = nc\<lparr>n_current := c\<rparr>"

text \<open>The reset of every code of every remote; a remote without codes is a null pointer followed.\<close>

definition reset_sequences :: "('d rx, unit) state" where
  "reset_sequences = do {
     remotes \<leftarrow> rd rx_remotes;
     if list_ex (\<lambda>rem. r_codes rem = None) remotes then undefined_behaviour
     else wr (\<lambda>s. s\<lparr>rx_remotes := map (\<lambda>rem. rem\<lparr>r_codes := map_option (map (set_current None)) (r_codes rem)\<rparr>)
       (rx_remotes s)\<rparr>)
   }"

definition restart_xmp :: "nat \<Rightarrow> ('d rx, unit) state" where
  "restart_xmp r = update_remote r (\<lambda>rem.
     case (r_codes rem, r_last_code rem) of
       (Some ncs, Some i) \<Rightarrow>
         rem\<lparr>r_codes := Some (ncs[i := set_current (first_of (n_next (ncs ! i))) (ncs ! i)])\<rparr>
     | _ \<Rightarrow> rem)"

text \<open>What is done once \<open>get_code\<close> has found a button: \<^const>\<open>None\<close> is the return of false.\<close>

definition report_code :: "nat \<Rightarrow> nat \<Rightarrow> ir_code \<Rightarrow> decoded \<Rightarrow> ('d rx, string option) state" where
  "report_code r found toggle_bit_mask_state d = do {
     code \<leftarrow> set_code r found toggle_bit_mask_state (d_repeat_flag d)
       (d_min_remaining_gap d) (d_max_remaining_gap d);
     remote \<leftarrow> remote_at r;
     let nc = codes_at remote found;
     if (has_toggle_mask remote \<and> odd (r_toggle_mask_state remote)) \<or> n_current nc \<noteq> None
     then do { wr (\<lambda>s. s\<lparr>rx_decoding := None\<rparr>); ret None }
     else do {
       reset_sequences;
       (if is_xmp remote then restart_xmp r else ret ());
       remote \<leftarrow> remote_at r;
       (case (r_name remote, r_last_code remote) of
          (Some name, Some i) \<Rightarrow> do {
            let (text, len) = write_message 257 name (n_name (codes_at remote i)) [] code
              (sub32 (r_reps remote) (if n_next nc \<noteq> [] then 1 else 0));
            wr (\<lambda>s. s\<lparr>rx_decoding := None\<rparr>);
            if len \<ge> 257 then ret None else ret (Some text)
          }
        | _ \<Rightarrow> do { undefined_behaviour; ret None })
     }
   }"

text \<open>
  The loop over the remotes from index \<open>r\<close> on; \<open>n\<close> remotes are left. \<open>decode\<close> stands for
  \<open>hw.decode_func\<close>.
\<close>

fun decode_loop :: "(nat \<Rightarrow> ('d rx, decoded option) state) \<Rightarrow> nat \<Rightarrow> nat \<Rightarrow> ('d rx, string option) state" where
  "decode_loop decode r 0 = do {
     wr (\<lambda>s. s\<lparr>rx_decoding := None, rx_last_remote := None\<rparr>);
     ret None
   }"
| "decode_loop decode r (Suc n) = do {
     d \<leftarrow> decode r;
     found \<leftarrow> (case d of
         None \<Rightarrow> ret None
       | Some d \<Rightarrow> State (\<lambda>s.
           let (res, rem) = get_code (rx_remotes s ! r) (d_pre d) (d_code d) (d_post d)
           in (map_option (\<lambda>f. (f, d)) res, s\<lparr>rx_remotes := (rx_remotes s)[r := rem]\<rparr>)));
     (case found of
        Some ((i, toggle_bit_mask_state), d) \<Rightarrow> report_code r i toggle_bit_mask_state d
      | None \<Rightarrow> do {
          update_remote r (\<lambda>rem. rem\<lparr>r_toggle_mask_state := 0\<rparr>);
          decode_loop decode (Suc r) n
        })
   }"

definition decodeCommand :: "(nat \<Rightarrow> ('d rx, decoded option) state) \<Rightarrow> ('d rx, string option) state" where
  "decodeCommand decode = do {
     n \<leftarrow> rd (\<lambda>s. length (rx_remotes s));
     wr (\<lambda>s. s\<lparr>rx_decoding := (if n = 0 then None else Some 0)\<rparr>);
     decode_loop decode 0 n
   }"

end
