(* ===== verification/Send.thy ===== *)
theory Send
  imports LircDefs
begin

text \<open>
  The transmit buffer of \<open>DLL/Common/Send.cpp\<close> and the code that fills it with the pulses and
  spaces of a button: \<open>send_pulse\<close>/\<open>send_space\<close>, the parts of a signal, and \<open>init_send\<close>.

  The state \<open>tx\<close> is the global \<open>send_buffer\<close> (fields \<open>sb_\<close>) with the two objects \<open>init_send\<close>
  gets by pointer and writes to, the remote and the code. Functions that only read the remote
  take its value. The backward jump to \<open>init_send_loop\<close> is a partial function: \<^const>\<open>None\<close> means
  that \<open>init_send\<close> does not return.
\<close>

record tx =
  sb_data :: "lirc_t list"
  sb_wptr :: int
  sb_too_long :: bool
  sb_is_biphase :: bool
  sb_pendingp :: lirc_t
  sb_pendings :: lirc_t
  sb_sum :: lirc_t
  tx_remote :: ir_remote
  tx_code :: ir_ncode

subsection \<open>The buffer\<close>

definition init_send_buffer :: "(tx, unit) state" where
  "init_send_buffer = wr (\<lambda>s. s\<lparr>sb_data := replicate 2048 0, sb_wptr := 0, sb_too_long := False,
     sb_is_biphase := False, sb_pendingp := 0, sb_pendings := 0, sb_sum := 0\<rparr>)"

definition clear_send_buffer :: "(tx, unit) state" where
  "clear_send_buffer = wr (\<lambda>s. s\<lparr>sb_wptr := 0, sb_too_long := False, sb_is_biphase := False,
     sb_pendingp := 0, sb_pendings := 0, sb_sum := 0\<rparr>)"

definition add_send_buffer :: "lirc_t \<Rightarrow> (tx, unit) state" where
  "add_send_buffer data = wr (\<lambda>s.
     if sb_wptr s < WBUF_SIZE then
       s\<lparr>sb_sum := add32 (sb_sum s) data, sb_data := (sb_data s)[nat (sb_wptr s) := data],
         sb_wptr := sb_wptr s + 1\<rparr>
     else s\<lparr>sb_too_long := True\<rparr>)"

definition send_pulse :: "lirc_t \<Rightarrow> (tx, unit) state" where
  "send_pulse data = do {
     p \<leftarrow> rd sb_pendingp;
     if p > 0 then wr (\<lambda>s. s\<lparr>sb_pendingp := add32 p data\<rparr>)
     else do {
       sp \<leftarrow> rd sb_pendings;
       (if sp > 0 then do { add_send_buffer sp; wr (\<lambda>s. s\<lparr>sb_pendings := 0\<rparr>) } else ret ());
       wr (\<lambda>s. s\<lparr>sb_pendingp := data\<rparr>)
     }
   }"

definition send_space :: "lirc_t \<Rightarrow> (tx, unit) state" where
  "send_space data = do {
     w \<leftarrow> rd sb_wptr;
     p \<leftarrow> rd sb_pendingp;
     if w = 0 \<and> p = 0 then ret ()
     else do {
       sp \<leftarrow> rd sb_pendings;
       if sp > 0 then wr (\<lambda>s. s\<lparr>sb_pendings := add32 sp data\<rparr>)
       else do {
         (if p > 0 then do { add_send_buffer p; wr (\<lambda>s. s\<lparr>sb_pendingp := 0\<rparr>) } else ret ());
         wr (\<lambda>s. s\<lparr>sb_pendings := data\<rparr>)
       }
     }
   }"

definition bad_send_buffer :: "tx \<Rightarrow> bool" where
  "bad_send_buffer s \<longleftrightarrow> sb_too_long s \<or> (sb_wptr s = WBUF_SIZE \<and> sb_pendingp s > 0)"

definition check_send_buffer :: "tx \<Rightarrow> bool" where
  "check_send_buffer s \<longleftrightarrow> sb_wptr s \<noteq> 0 \<and> list_all (\<lambda>d. d \<noteq> 0) (take (nat (sb_wptr s)) (sb_data s))"

definition flush_send_buffer :: "(tx, unit) state" where
  "flush_send_buffer = do {
     p \<leftarrow> rd sb_pendingp;
     (if p > 0 then do { add_send_buffer p; wr (\<lambda>s. s\<lparr>sb_pendingp := 0\<rparr>) } else ret ());
     sp \<leftarrow> rd sb_pendings;
     (if sp > 0 then do { add_send_buffer sp; wr (\<lambda>s. s\<lparr>sb_pendings := 0\<rparr>) } else ret ())
   }"

definition sync_send_buffer :: "(tx, unit) state" where
  "sync_send_buffer = do {
     p \<leftarrow> rd sb_pendingp;
     (if p > 0 then do { add_send_buffer p; wr (\<lambda>s. s\<lparr>sb_pendingp := 0\<rparr>) } else ret ());
     w \<leftarrow> rd sb_wptr;
     (if w > 0 \<and> rmd w 2 = 0 then wr (\<lambda>s. s\<lparr>sb_wptr := w - 1\<rparr>) else ret ())
   }"

subsection \<open>The parts of a signal\<close>

definition send_header :: "ir_remote \<Rightarrow> (tx, unit) state" where
  "send_header remote =
    (if has_header remote then do { send_pulse (r_phead remote); send_space (r_shead remote) } else ret ())"

definition send_foot :: "ir_remote \<Rightarrow> (tx, unit) state" where
  "send_foot remote =
    (if has_foot remote then do { send_space (r_sfoot remote); send_pulse (r_pfoot remote) } else ret ())"

definition send_lead :: "ir_remote \<Rightarrow> (tx, unit) state" where
  "send_lead remote = (if r_plead remote \<noteq> 0 then send_pulse (r_plead remote) else ret ())"

definition send_trail :: "ir_remote \<Rightarrow> (tx, unit) state" where
  "send_trail remote = (if r_ptrail remote \<noteq> 0 then send_pulse (r_ptrail remote) else ret ())"

text \<open>The two bits of an RC-MM symbol arrive swapped, because \<open>send_data\<close> has reversed the data.\<close>

definition send_rcmm_symbol :: "ir_remote \<Rightarrow> ir_code \<Rightarrow> (tx, unit) state" where
  "send_rcmm_symbol remote v =
    (if v = 0 then do { send_pulse (r_pzero remote); send_space (r_szero remote) }
     else if v = 2 then do { send_pulse (r_pone remote); send_space (r_sone remote) }
     else if v = 1 then do { send_pulse (r_ptwo remote); send_space (r_stwo remote) }
     else do { send_pulse (r_pthree remote); send_space (r_sthree remote) })"

fun send_rcmm_loop :: "ir_remote \<Rightarrow> nat \<Rightarrow> ir_code \<Rightarrow> (tx, unit) state" where
  "send_rcmm_loop remote 0 data = ret ()"
| "send_rcmm_loop remote (Suc n) data = do {
     send_rcmm_symbol remote (data AND 3);
     send_rcmm_loop remote n (drop_bit 2 data)
   }"

fun send_xmp_loop :: "ir_remote \<Rightarrow> nat \<Rightarrow> ir_code \<Rightarrow> (tx, unit) state" where
  "send_xmp_loop remote 0 data = ret ()"
| "send_xmp_loop remote (Suc n) data = do {
     let nibble = reverse (data AND 0xf) 4;
     send_pulse (r_pzero remote);
     send_space (i32 (r_szero remote + uint nibble * r_sone remote));
     send_xmp_loop remote n (drop_bit 4 data)
   }"

text \<open>The data of one bit after the toggle masks have been applied to its lowest bit.\<close>

definition toggle_data :: "ir_remote \<Rightarrow> ir_code \<Rightarrow> ir_code \<Rightarrow> ir_code" where
  "toggle_data remote msk data =
    (let data =
       (if has_toggle_bit_mask remote \<and> msk AND r_toggle_bit_mask remote \<noteq> 0 then
          (if bits_set (r_toggle_bit_mask remote) = 1 then
             (if r_toggle_bit_mask_state remote AND msk \<noteq> 0 then (data AND NOT 1) OR 1
              else data AND NOT 1)
           else if r_toggle_bit_mask_state remote AND msk \<noteq> 0 then data XOR 1 else data)
        else data)
     in if has_toggle_mask remote \<and> msk AND r_toggle_mask remote \<noteq> 0 \<and> odd (r_toggle_mask_state remote)
        then data XOR 1 else data)"

definition send_bit :: "ir_remote \<Rightarrow> ir_code \<Rightarrow> bool \<Rightarrow> (tx, unit) state" where
  "send_bit remote msk one =
    (if one then
       (if is_biphase remote then
          (if msk AND r_rc6_mask remote \<noteq> 0
           then do { send_space (mul32 2 (r_sone remote)); send_pulse (mul32 2 (r_pone remote)) }
           else do { send_space (r_sone remote); send_pulse (r_pone remote) })
        else if is_space_first remote
        then do { send_space (r_sone remote); send_pulse (r_pone remote) }
        else do { send_pulse (r_pone remote); send_space (r_sone remote) })
     else
       (if msk AND r_rc6_mask remote \<noteq> 0
        then do { send_pulse (mul32 2 (r_pzero remote)); send_space (mul32 2 (r_szero remote)) }
        else if is_space_first remote
        then do { send_space (r_szero remote); send_pulse (r_pzero remote) }
        else do { send_pulse (r_pzero remote); send_space (r_szero remote) }))"

fun send_bits_loop :: "ir_remote \<Rightarrow> nat \<Rightarrow> ir_code \<Rightarrow> ir_code \<Rightarrow> (tx, unit) state" where
  "send_bits_loop remote 0 msk data = ret ()"
| "send_bits_loop remote (Suc n) msk data = do {
     let data = toggle_data remote msk data;
     send_bit remote msk (data AND 1 \<noteq> 0);
     send_bits_loop remote n (drop_bit 1 msk) (drop_bit 1 data)
   }"

definition send_data :: "ir_remote \<Rightarrow> ir_code \<Rightarrow> int \<Rightarrow> int \<Rightarrow> (tx, unit) state" where
  "send_data remote data bits fin =
    (let data = reverse data bits
     in if is_rcmm remote then
          (if odd bits \<or> odd fin then ret () else send_rcmm_loop remote (nat (bits div 2)) data)
        else if is_xmp remote then
          (if rmd bits 4 \<noteq> 0 \<or> rmd fin 4 \<noteq> 0 then ret () else send_xmp_loop remote (nat (bits div 4)) data)
        else send_bits_loop remote (nat bits) (shl64 1 (bit_count remote - 1 - fin)) data)"

definition send_pre :: "ir_remote \<Rightarrow> (tx, unit) state" where
  "send_pre remote =
    (if has_pre remote then do {
       send_data remote (r_pre_data remote) (r_pre_data_bits remote) 0;
       if r_pre_p remote > 0 \<and> r_pre_s remote > 0
       then do { send_pulse (r_pre_p remote); send_space (r_pre_s remote) }
       else ret ()
     } else ret ())"

definition send_post :: "ir_remote \<Rightarrow> (tx, unit) state" where
  "send_post remote =
    (if has_post remote then do {
       (if r_post_p remote > 0 \<and> r_post_s remote > 0
        then do { send_pulse (r_post_p remote); send_space (r_post_s remote) }
        else ret ());
       send_data remote (r_post_data remote) (r_post_data_bits remote)
         (add32 (r_pre_data_bits remote) (r_bits remote))
     } else ret ())"

definition send_repeat :: "ir_remote \<Rightarrow> (tx, unit) state" where
  "send_repeat remote = do {
     send_lead remote;
     send_pulse (r_prepeat remote);
     send_space (r_srepeat remote);
     send_trail remote
   }"

definition send_code :: "ir_remote \<Rightarrow> ir_code \<Rightarrow> bool \<Rightarrow> (tx, unit) state" where
  "send_code remote code rep = do {
     (if \<not> rep \<or> \<not> has_flag remote NO_HEAD_REP then send_header remote else ret ());
     send_lead remote;
     send_pre remote;
     send_data remote code (r_bits remote) (r_pre_data_bits remote);
     send_post remote;
     send_trail remote;
     (if \<not> rep \<or> \<not> has_flag remote NO_FOOT_REP then send_foot remote else ret ());
     (if \<not> rep \<and> has_flag remote NO_HEAD_REP \<and> has_flag remote CONST_LENGTH
      then wr (\<lambda>s. s\<lparr>sb_sum := sub32 (sb_sum s) (add32 (r_phead remote) (r_shead remote))\<rparr>)
      else ret ())
   }"

fun send_signals :: "lirc_t list \<Rightarrow> (tx, unit) state" where
  "send_signals [] = ret ()"
| "send_signals (x # xs) = do { add_send_buffer x; send_signals xs }"

subsection \<open>Sending a button\<close>

definition set_tx_remote :: "(ir_remote \<Rightarrow> ir_remote) \<Rightarrow> (tx, unit) state" where
  "set_tx_remote f = wr (\<lambda>s. s\<lparr>tx_remote := f (tx_remote s)\<rparr>)"

text \<open>\<open>toggle_mask_state++\<close>, which goes 0, 1, 2, 3, 2, 3, ...\<close>

definition next_toggle_state :: "int \<Rightarrow> int" where
  "next_toggle_state t = (let t = add32 t 1 in if t = 4 then 2 else t)"

text \<open>The signal of one round; \<^const>\<open>False\<close> where \<open>init_send\<close> gives up for want of raw signals.\<close>

definition send_signal :: "bool \<Rightarrow> (tx, bool) state" where
  "send_signal rep = do {
     remote \<leftarrow> rd tx_remote;
     code \<leftarrow> rd tx_code;
     if rep \<and> has_repeat remote then do {
       (if has_flag remote REPEAT_HEADER \<and> has_header remote then send_header remote else ret ());
       send_repeat remote;
       ret True
     }
     else if \<not> is_raw remote then do {
       let next_code = (case n_transmit_state code of None \<Rightarrow> n_code code | Some i \<Rightarrow> n_next code ! i);
       send_code remote next_code rep;
       (if has_toggle_mask remote
        then set_tx_remote (\<lambda>rem. rem\<lparr>r_toggle_mask_state := next_toggle_state (r_toggle_mask_state rem)\<rparr>)
        else ret ());
       ret True
     }
     else (case n_signals code of
         None \<Rightarrow> ret False
       | Some sigs \<Rightarrow> do { send_signals (take (nat (n_length code)) sigs); ret True })
   }"

text \<open>The gap after the signal; \<^const>\<open>False\<close> where the signal is longer than its constant length.\<close>

definition set_remaining_gap :: "bool \<Rightarrow> (tx, bool) state" where
  "set_remaining_gap rep = do {
     remote \<leftarrow> rd tx_remote;
     used \<leftarrow> rd sb_sum;
     if has_repeat_gap remote \<and> rep \<and> has_repeat remote then do {
       set_tx_remote (\<lambda>rem. rem\<lparr>r_min_remaining_gap := r_repeat_gap rem, r_max_remaining_gap := r_repeat_gap rem\<rparr>);
       ret True
     }
     else if is_const remote then
       (if min_gap remote > used then do {
          set_tx_remote (\<lambda>rem. rem\<lparr>r_min_remaining_gap := sub32 (min_gap rem) used,
            r_max_remaining_gap := sub32 (max_gap rem) used\<rparr>);
          ret True
        }
        else do {
          set_tx_remote (\<lambda>rem. rem\<lparr>r_min_remaining_gap := min_gap rem, r_max_remaining_gap := max_gap rem\<rparr>);
          ret False
        })
     else do {
       set_tx_remote (\<lambda>rem. rem\<lparr>r_min_remaining_gap := min_gap rem, r_max_remaining_gap := max_gap rem\<rparr>);
       ret True
     }
   }"

text \<open>The part of a multi-part code that comes next.\<close>

definition next_transmit_state :: "ir_remote \<Rightarrow> ir_ncode \<Rightarrow> nat option" where
  "next_transmit_state remote code =
    (if n_next code = [] then n_transmit_state code
     else (case n_transmit_state code of
         None \<Rightarrow> first_of (n_next code)
       | Some i \<Rightarrow>
           let t = next_of (n_next code) i
           in if is_xmp remote \<and> t = None then first_of (n_next code) else t))"

text \<open>
  The end of a round: the jump back (\<^const>\<open>Inr\<close>, with the new value of \<open>repeat\<close>) or the end of
  the function (\<^const>\<open>Inl\<close>, with its result).
\<close>

definition init_send_end :: "bool \<Rightarrow> (tx, bool + bool) state" where
  "init_send_end rep = do {
     countdown \<leftarrow> rd (\<lambda>s. r_repeat_countdown (tx_remote s));
     code \<leftarrow> rd tx_code;
     if countdown > 0 \<or> n_transmit_state code \<noteq> None then do {
       let last_part = (n_next code = [] \<or> n_transmit_state code = None);
       (if last_part
        then set_tx_remote (\<lambda>rem. rem\<lparr>r_repeat_countdown := sub32 (r_repeat_countdown rem) 1\<rparr>)
        else ret ());
       wr (\<lambda>s. s\<lparr>sb_sum := 0\<rparr>);
       ret (Inr (if last_part then True else rep))
     }
     else do {
       ok \<leftarrow> rd check_send_buffer;
       ret (Inl ok)
     }
   }"

text \<open>One round of \<open>init_send\<close>, from the label \<open>init_send_loop\<close> on.\<close>

definition init_send_round :: "bool \<Rightarrow> (tx, bool + bool) state" where
  "init_send_round rep = do {
     sent \<leftarrow> send_signal rep;
     if \<not> sent then ret (Inl False)
     else do {
       sync_send_buffer;
       bad \<leftarrow> rd bad_send_buffer;
       if bad then ret (Inl False)
       else do {
         ok \<leftarrow> set_remaining_gap rep;
         if \<not> ok then ret (Inl False)
         else do {
           wr (\<lambda>s. s\<lparr>tx_code := (tx_code s)\<lparr>n_transmit_state := next_transmit_state (tx_remote s) (tx_code s)\<rparr>\<rparr>);
           gap \<leftarrow> rd (\<lambda>s. r_min_remaining_gap (tx_remote s));
           send_space gap;
           flush_send_buffer;
           init_send_end rep
         }
       }
     }
   }"

partial_function (option) init_send_loop :: "bool \<Rightarrow> tx \<Rightarrow> (bool \<times> tx) option" where
  "init_send_loop rep s =
     (case run_state (init_send_round rep) s of
        (next_step, s') \<Rightarrow> (case next_step of
            Inl ok \<Rightarrow> Some (ok, s')
          | Inr rep' \<Rightarrow> init_send_loop rep' s'))"

declare init_send_loop.simps [code]

definition init_send :: "int \<Rightarrow> tx \<Rightarrow> (bool \<times> tx) option" where
  "init_send repeats s =
    (let remote = tx_remote s
     in if is_grundig remote \<or> is_goldstar remote \<or> is_serial remote \<or> is_bo remote
        then Some (False, s)
        else init_send_loop False (exec (do {
            clear_send_buffer;
            (if is_biphase remote then wr (\<lambda>s. s\<lparr>sb_is_biphase := True\<rparr>) else ret ());
            set_tx_remote (\<lambda>rem. rem\<lparr>r_repeat_countdown := max (r_min_repeat rem) repeats\<rparr>)
          }) s))"

end
