(* ===== verification/Sample.thy ===== *)
theory Sample
  imports RecBuffer Send
begin

text \<open>
  A remote control in the NEC format, a decoder state in front of a mode-2 receiver and a
  transmitter: the concrete inputs on which the theorems of the development are instantiated.
\<close>

definition nec_codes :: "ir_ncode list" where
  "nec_codes =
     [\<lparr>n_name = ''KEY_1'', n_code = 0x59, n_length = 0, n_signals = None, n_next = [], n_current = None,
       n_transmit_state = None\<rparr>,
      \<lparr>n_name = ''KEY_2'', n_code = 0xA6, n_length = 0, n_signals = None, n_next = [], n_current = None,
       n_transmit_state = None\<rparr>]"

definition nec_remote :: ir_remote where
  "nec_remote = zero_remote\<lparr>r_name := Some ''nec'', r_codes := Some nec_codes, r_flags := SPACE_ENC,
     r_eps := 30, r_aeps := 100, r_bits := 8, r_pre_data_bits := 4, r_pre_data := 0xC,
     r_phead := 9000, r_shead := 4500, r_pone := 560, r_sone := 1690, r_pzero := 560, r_szero := 560,
     r_ptrail := 560, r_gap := 40000\<rparr>"

text \<open>The receiver delivers \<open>xs\<close> at the first wait and nothing afterwards.\<close>

definition idle_rx :: "ir_remote list \<Rightarrow> lirc_t list \<Rightarrow> mode2_dev rx" where
  "idle_rx remotes xs = \<lparr>rb_data = replicate 256 0, rb_decoded = 0, rb_rptr = 0, rb_wptr = 0,
     rb_too_long = False, rb_is_biphase = False, rb_pendingp = 0, rb_pendings = 0, rb_sum = 0,
     rx_dev = \<lparr>dev_fifo = fifo_init, dev_wakes = [Samples xs]\<rparr>, rx_remotes = remotes,
     rx_last_remote = None, rx_last_decoded = None, rx_decoding = None, rx_clock = [],
     rx_ub = False, rx_hang = False\<rparr>"

text \<open>A transmitter with an empty buffer, about to send \<open>code\<close>.\<close>

definition idle_tx :: "ir_remote \<Rightarrow> ir_ncode \<Rightarrow> tx" where
  "idle_tx remote code = \<lparr>sb_data = replicate 2048 0, sb_wptr = 0, sb_too_long = False,
     sb_is_biphase = False, sb_pendingp = 0, sb_pendings = 0, sb_sum = 0,
     tx_remote = remote, tx_code = code\<rparr>"

end
