(* ===== verification/ReceiveLaws.thy ===== *)
theory ReceiveLaws
  imports Receive Sample
begin

text \<open>
  What the decoder of \<open>Receive.cpp\<close> keeps, whatever the signal.

  \<open>rx_relation\<close> is the contract between the receive buffer and the decoder: a relation between
  the state before and after that every primitive of the buffer respects. The decoder touches the
  state through these primitives only, so each of its functions respects the relation too; this
  is proved once, in the locale. The interpretations give the bounds of the buffer and the fact
  that trying a remote consumes none of the signal.
\<close>

subsection \<open>The contract of the buffer primitives\<close>

locale rx_relation = step_relation R
  for R :: "'d rx \<Rightarrow> 'd rx \<Rightarrow> bool" +
  fixes hw :: "'d hardware" and r :: nat
  assumes next_sample: "state_io_rel R (get_next_rec_buffer hw t)"
    and unget: "state_io_rel R (unget_rec_buffer n)"
    and rewind: "state_io_rel R rewind_rec_buffer"
    and set_pulse: "state_io_rel R (set_pending_pulse t)"
    and set_space: "state_io_rel R (set_pending_space t)"
    and set_remote: "(\<And>rem. r_flags (f rem) = r_flags rem) \<Longrightarrow> state_io_rel R (update_remote r f)"
    and set_sum: "R s (s\<lparr>rb_sum := t\<rparr>)"
    and set_biphase: "R s (s\<lparr>rb_is_biphase := b\<rparr>)"
    and set_ub: "R s (s\<lparr>rx_ub := True\<rparr>)"
    and set_hang: "R s (s\<lparr>rx_hang := True\<rparr>)"
    and set_clock: "R s (s\<lparr>rx_clock := c\<rparr>)"
begin

lemma tick: "state_io_rel R gettimeofday"
  by (simp add: state_io_rel_def gettimeofday_def R_refl set_clock split: list.split)

lemma ub: "state_io_rel R undefined_behaviour"
  unfolding undefined_behaviour_def by (rule wr) (rule set_ub)

lemma the_remote: "state_io_rel R (remote_at i)"
  unfolding remote_at_def by (rule rd)

lemma let_io: "(\<And>x. state_io_rel R (f x)) \<Longrightarrow> state_io_rel R (Let a f)"
  by (simp add: Let_def)

lemmas prims = flow let_io next_sample unget rewind set_pulse set_space ub the_remote tick
  wr [OF set_sum] wr [OF set_biphase] wr [OF set_hang]

lemma next_pulse: "state_io_rel R (get_next_pulse hw t)"
  and next_space: "state_io_rel R (get_next_space hw t)"
  unfolding get_next_pulse_def get_next_space_def by (intro prims)+

lemma sync_pulse: "state_io_rel R (sync_pending_pulse hw rem)"
  and sync_space: "state_io_rel R (sync_pending_space hw rem)"
  unfolding sync_pending_pulse_def sync_pending_space_def
  by (intro prims next_pulse next_space)+

lemma exp_pulse: "state_io_rel R (expectpulse hw rem t)"
  and exp_space: "state_io_rel R (expectspace hw rem t)"
  unfolding expectpulse_def expectspace_def
  by (intro prims next_pulse next_space sync_pulse sync_space)+

lemmas reads = prims next_pulse next_space sync_pulse sync_space exp_pulse exp_space

lemma one: "state_io_rel R (expectone hw rem i)"
  and zero: "state_io_rel R (expectzero hw rem i)"
  unfolding expectone_def expectzero_def by (intro reads)+

lemma nat_case:
  "(n = 0 \<Longrightarrow> state_io_rel R m) \<Longrightarrow> (\<And>k. n = Suc k \<Longrightarrow> state_io_rel R (f k)) \<Longrightarrow>
   state_io_rel R (case n of 0 \<Rightarrow> m | Suc k \<Rightarrow> f k)"
  by (cases n) auto

lemma sync_search: "state_io_rel R (sync_loop hw l tries d)"
proof (induction tries arbitrary: d)
  case 0
  show ?case by (subst sync_loop.simps) (intro reads nat_case; simp)
next
  case (Suc n)
  show ?case by (subst sync_loop.simps) (intro reads nat_case; use Suc in auto)
qed

lemma sync: "state_io_rel R (sync_rec_buffer hw r)"
  unfolding sync_rec_buffer_def by (intro reads sync_search set_remote) simp_all

lemma header: "state_io_rel R (get_header hw rem)"
  unfolding get_header_def by (intro reads)

lemma foot: "state_io_rel R (get_foot hw rem)"
  and lead: "state_io_rel R (get_lead hw rem)"
  and trail: "state_io_rel R (get_trail hw rem)"
  and gap: "state_io_rel R (get_gap hw rem g)"
  unfolding get_foot_def get_lead_def get_trail_def get_gap_def by (intro reads)+

lemma repeat: "state_io_rel R (get_repeat hw rem)"
  unfolding get_repeat_def by (intro reads lead trail gap)

lemma rcmm: "state_io_rel R (rcmm_loop hw rem n c)"
  by (induction n arbitrary: c) (simp_all only: rcmm_loop.simps, (intro reads | assumption)+)

lemma grundig: "state_io_rel R (grundig_loop hw rem n l c)"
proof -
  have "hw' = hw \<Longrightarrow> state_io_rel R (grundig_loop hw' rem n l c)" for hw'
  proof (induction hw' rem n l c rule: grundig_loop.induct)
    case (1 hw' rem n l c)
    show ?case
      by (subst grundig_loop.simps) (simp only: 1(6), intro reads 1 [unfolded 1(6)] refl | assumption | simp)+
  qed
  then show ?thesis by simp
qed

lemma bo: "state_io_rel R (bo_loop hw rem n l c)"
  by (induction n arbitrary: l c) (simp_all only: bo_loop.simps, (intro reads | assumption)+)

lemma xmp: "state_io_rel R (xmp_loop hw rem n c)"
  by (induction n arbitrary: c) (simp_all only: xmp_loop.simps, (intro reads | assumption)+)

lemma bits: "state_io_rel R (bits_loop hw r n pos c)"
proof (induction n arbitrary: pos c)
  case 0
  show ?case by (simp only: bits_loop.simps) (rule ret)
next
  case (Suc n)
  have f: "r_flags (goldstar_one pos rem) = r_flags rem" for rem
    by (simp add: goldstar_one_def)
  show ?case
    by (simp only: bits_loop.simps) (intro reads one zero set_remote Suc f)
qed

lemma serial_one: "state_io_rel R (serial_bit rem c t)"
  unfolding serial_bit_def by (intro reads)

lemma serial_round: "state_io_rel R (serial_step hw rem c t)"
  unfolding serial_step_def by (intro reads serial_one)

lemma serial_rounds: "state_io_rel R (serial_loop hw rem c n t)"
  by (induction n arbitrary: t)
    (simp_all only: serial_loop.simps, (intro reads serial_round | assumption)+)

lemma serial_with_delta:
  "(\<And>d. state_io_rel R (unget_rec_buffer_delta d)) \<Longrightarrow> state_io_rel R (get_data_serial hw rem bits)"
  unfolding get_data_serial_def by (intro reads serial_rounds) assumption+

end

text \<open>The serial decoder also writes to the buffer, so a relation says separately what it does to it.\<close>

locale decoder_relation = rx_relation R hw r
  for R :: "'d rx \<Rightarrow> 'd rx \<Rightarrow> bool" and hw :: "'d hardware" and r :: nat +
  assumes serial: "is_serial (rx_remotes s ! r) \<Longrightarrow> R s (exec (get_data_serial hw (rx_remotes s ! r) n) s)"
begin

lemma data: "state_io_rel R (get_data hw r n done)"
  unfolding state_io_rel_def
proof
  fix s :: "'d rx"
  let ?rem = "rx_remotes s ! r"
  show "R s (exec (get_data hw r n done) s)"
  proof (cases "is_serial ?rem")
    case True
    then have "exec (get_data hw r n done) s = exec (get_data_serial hw ?rem n) s"
      by (simp add: get_data_def remote_at_def is_serial_def is_rcmm_def is_grundig_def)
    with serial [OF True] show ?thesis by simp
  next
    case False
    define m where "m rem = (if is_rcmm rem then get_data_rcmm hw rem n done
     else if is_grundig rem then get_data_grundig hw rem n done
     else if is_bo rem then bo_loop hw rem (nat n) True 0
     else if is_xmp rem then get_data_xmp hw rem n done
     else bits_loop hw r (nat n) done 0)" for rem
    have "state_io_rel R (m ?rem)"
      unfolding m_def get_data_rcmm_def get_data_grundig_def get_data_xmp_def
      by (intro reads rcmm grundig bo xmp bits)
    moreover have "run_state (get_data hw r n done) s = run_state (m ?rem) s"
      using False by (simp add: get_data_def remote_at_def m_def)
    ultimately show ?thesis
      by (simp add: state_io_rel_def)
  qed
qed

lemma pre: "state_io_rel R (get_pre hw r)"
  and post: "state_io_rel R (get_post hw r)"
  unfolding get_pre_def get_post_def by (intro reads data)+

lemma repeat_stage: "state_io_rel R (receive_repeat hw r t)"
  unfolding receive_repeat_def by (intro reads header repeat sync)

lemma case_stage:
  "state_io_rel R m \<Longrightarrow> (\<And>d. state_io_rel R (f d)) \<Longrightarrow> (\<And>h t. state_io_rel R (g h t)) \<Longrightarrow>
   state_io_rel R (case st of Reject \<Rightarrow> m | Accept d \<Rightarrow> f d | Continue h t \<Rightarrow> g h t)"
  by (cases st) auto

lemma start: "state_io_rel R (receive_start hw r)"
  unfolding receive_start_def by (intro reads case_stage sync repeat_stage header)

lemma case_signals:
  "state_io_rel R m \<Longrightarrow> (\<And>x ys. xs = x # ys \<Longrightarrow> state_io_rel R (f x ys)) \<Longrightarrow>
   state_io_rel R (case xs of [] \<Rightarrow> m | x # ys \<Rightarrow> f x ys)"
  by (cases xs) auto

lemma raw_one: "state_io_rel R (raw_match hw r rem xs)"
proof (induction xs rule: length_induct)
  case (1 xs)
  show ?case
  proof (cases xs)
    case Nil
    then show ?thesis by (simp add: ret)
  next
    case (Cons p rest)
    show ?thesis
      unfolding Cons raw_match.simps
      by (intro reads case_signals sync 1 [rule_format]) (simp add: Cons)
  qed
qed

lemma raw: "state_io_rel R (raw_find hw r rem ncs)"
proof (induction ncs)
  case Nil
  show ?case by (simp add: ret)
next
  case (Cons nc ncs)
  show ?case unfolding raw_find.simps by (intro reads raw_one gap Cons)
qed

lemma lirccode: "state_io_rel R (receive_lirccode hw r)"
  unfolding receive_lirccode_def by (intro reads)

lemma fields: "state_io_rel R (receive_fields hw r h)"
  unfolding receive_fields_def receive_gap_def
  by (intro reads lead trail gap foot pre post data)

lemma finish: "state_io_rel R (receive_finish hw r flds t now)"
  unfolding receive_finish_def by (intro reads)

theorem decode: "state_io_rel R (receive_decode hw r)"
  unfolding receive_decode_def
  by (intro reads case_stage start raw lirccode fields finish)

end

subsection \<open>The bounds of the buffer\<close>

text \<open>
  \<open>rptr\<close> never passes \<open>wptr\<close>, which never passes the end of \<open>data\<close>. \<open>rptr\<close> becomes negative only
  where \<open>unget_rec_buffer\<close> has already read outside the array.
\<close>

definition buf_ok :: "'d rx \<Rightarrow> bool" where
  "buf_ok s \<longleftrightarrow> length (rb_data s) = 256 \<and> 0 \<le> rb_wptr s \<and> rb_wptr s \<le> RBUF_SIZE \<and>
     rb_rptr s \<le> rb_wptr s \<and> (rb_rptr s < 0 \<longrightarrow> rx_ub s)"

lemma next_stored:
  assumes "rb_rptr s < rb_wptr s"
  shows "run_state (get_next_rec_buffer hw t) s =
    (if in_data s (rb_rptr s) then
       (rb_data s ! nat (rb_rptr s),
        s\<lparr>rb_sum := add32 (rb_sum s) (rb_data s ! nat (rb_rptr s) AND PULSE_MASK), rb_rptr := rb_rptr s + 1\<rparr>)
     else (0, s\<lparr>rx_ub := True, rb_sum := add32 (rb_sum s) 0, rb_rptr := rb_rptr s + 1\<rparr>))"
  using assms
  by (simp add: get_next_rec_buffer_def get_next_rec_buffer_internal_def data_at_def add_sum_def)

definition wait_time :: "lirc_t \<Rightarrow> lirc_t" where
  "wait_time t = (if mul32 2 t < 100000 then 100000 else mul32 2 t)"

lemma next_fresh:
  assumes "rb_rptr s = rb_wptr s" and "0 \<le> rb_wptr s" and "rb_wptr s < RBUF_SIZE"
    and "length (rb_data s) = 256"
    and "d = hw_wait_for_data hw (wait_time t) (rx_dev s)" and "hw_readdata hw 0 d = (x, d')"
  shows "run_state (get_next_rec_buffer hw t) s =
    (if \<not> hw_data_ready hw d then (0, s\<lparr>rx_dev := d\<rparr>)
     else if x = 0 then (0, s\<lparr>rx_dev := d', rb_data := (rb_data s)[nat (rb_wptr s) := 0]\<rparr>)
     else (x, s\<lparr>rx_dev := d', rb_data := (rb_data s)[nat (rb_wptr s) := x],
       rb_sum := add32 (rb_sum s) (x AND PULSE_MASK), rb_wptr := rb_wptr s + 1, rb_rptr := rb_wptr s + 1\<rparr>))"
  using assms
  by (simp add: get_next_rec_buffer_def get_next_rec_buffer_internal_def data_at_def add_sum_def
      set_data_at_def in_data_def Let_def wait_time_def)

lemma next_full:
  assumes "rb_rptr s = RBUF_SIZE" and "rb_wptr s = RBUF_SIZE"
  shows "run_state (get_next_rec_buffer hw t) s = (0, s\<lparr>rb_too_long := True\<rparr>)"
  using assms
  by (simp add: get_next_rec_buffer_def get_next_rec_buffer_internal_def)

lemma buf_ok_next:
  assumes "buf_ok s"
  shows "buf_ok (exec (get_next_rec_buffer hw t) s)"
proof -
  from assms consider "rb_rptr s < rb_wptr s" | "rb_rptr s = rb_wptr s" "rb_wptr s < RBUF_SIZE"
    | "rb_rptr s = RBUF_SIZE" "rb_wptr s = RBUF_SIZE"
    unfolding buf_ok_def by linarith
  then show ?thesis
  proof cases
    case 1
    with assms show ?thesis by (auto simp: next_stored buf_ok_def in_data_def)
  next
    case 2
    obtain x d' where "hw_readdata hw 0 (hw_wait_for_data hw (wait_time t) (rx_dev s)) = (x, d')"
      by fastforce
    from next_fresh [OF 2(1) _ 2(2) _ refl this] 2 assms show ?thesis
      by (auto simp: buf_ok_def)
  next
    case 3
    with assms show ?thesis by (simp add: next_full buf_ok_def)
  qed
qed

lemma buf_ok_unget: "buf_ok s \<Longrightarrow> buf_ok (exec (unget_rec_buffer n) s)"
  by (auto simp: unget_rec_buffer_def buf_ok_def data_at_def sub_sum_def in_data_def)

lemma buf_ok_unget_delta: "buf_ok s \<Longrightarrow> buf_ok (exec (unget_rec_buffer_delta d) s)"
  by (auto simp: unget_rec_buffer_delta_def buf_ok_def set_data_at_def sub_sum_def in_data_def)

lemma buf_ok_init: "buf_ok (exec init_rec_buffer s)"
  by (simp add: init_rec_buffer_def buf_ok_def)

lemma buf_ok_clear: "buf_ok s \<Longrightarrow> \<not> rx_ub s \<Longrightarrow> buf_ok (exec (clear_rec_buffer hw) s)"
  by (auto simp: clear_rec_buffer_def rewind_rec_buffer_def buf_ok_def set_data_at_def in_data_def
      set_pending_pulse_def set_pending_space_def Let_def split: prod.splits)

interpretation bounds: rx_relation "keeping (buf_ok :: 'd rx \<Rightarrow> bool)" hw r
  for hw :: "'d hardware" and r
proof unfold_locales
  fix s :: "'d rx" and t n f b c
  show "state_io_rel (keeping buf_ok) (get_next_rec_buffer hw t)"
    by (simp add: state_io_rel_def keeping_def buf_ok_next)
  show "state_io_rel (keeping buf_ok) (unget_rec_buffer n :: ('d rx, unit) state)"
    by (simp add: state_io_rel_def keeping_def buf_ok_unget)
  show "state_io_rel (keeping buf_ok) (rewind_rec_buffer :: ('d rx, unit) state)"
    by (simp add: state_io_rel_def keeping_def buf_ok_def rewind_rec_buffer_def
        set_pending_pulse_def set_pending_space_def)
  show "state_io_rel (keeping buf_ok) (set_pending_pulse t :: ('d rx, unit) state)"
    "state_io_rel (keeping buf_ok) (set_pending_space t :: ('d rx, unit) state)"
    "state_io_rel (keeping buf_ok) (update_remote r f :: ('d rx, unit) state)"
    by (simp_all add: state_io_rel_def keeping_def buf_ok_def set_pending_pulse_def
        set_pending_space_def update_remote_def)
  show "keeping buf_ok s (s\<lparr>rb_sum := t\<rparr>)" "keeping buf_ok s (s\<lparr>rb_is_biphase := b\<rparr>)"
    "keeping buf_ok s (s\<lparr>rx_ub := True\<rparr>)" "keeping buf_ok s (s\<lparr>rx_hang := True\<rparr>)"
    "keeping buf_ok s (s\<lparr>rx_clock := c\<rparr>)"
    by (simp_all add: keeping_def buf_ok_def)
qed

interpretation bounds: decoder_relation "keeping (buf_ok :: 'd rx \<Rightarrow> bool)" hw r
  for hw :: "'d hardware" and r
proof unfold_locales
  fix s :: "'d rx" and n
  have "state_io_rel (keeping buf_ok) (get_data_serial hw (rx_remotes s ! r) n)"
    by (rule bounds.serial_with_delta) (simp add: state_io_rel_def keeping_def buf_ok_unget_delta)
  then show "keeping buf_ok s (exec (get_data_serial hw (rx_remotes s ! r) n) s)"
    by (simp add: state_io_rel_def)
qed

subsection \<open>What decoding leaves alone\<close>

text \<open>
  Decoding with remote \<open>r\<close> writes to no other remote, leaves the flags of \<open>r\<close>, the list of
  remotes and the globals of \<open>IRRemote.cpp\<close> as they are.
\<close>

definition untouched :: "nat \<Rightarrow> 'd rx \<Rightarrow> (nat option \<times> nat option \<times> nat option) \<times> ir_remote list \<times> int list" where
  "untouched r s = ((rx_last_remote s, rx_last_decoded s, rx_decoding s),
     take r (rx_remotes s) @ drop (Suc r) (rx_remotes s), map r_flags (rx_remotes s))"

lemma untouched_set:
  assumes "\<And>rem. r_flags (f rem) = r_flags rem"
  shows "untouched r (exec (update_remote r f) s) = untouched r s"
proof (cases "r < length (rx_remotes s)")
  case True
  then have "(map r_flags (rx_remotes s))[r := r_flags (rx_remotes s ! r)] = map r_flags (rx_remotes s)"
    by (metis list_update_id nth_map)
  with assms show ?thesis
    by (simp add: untouched_def update_remote_def map_update)
qed (simp add: untouched_def update_remote_def list_update_beyond)

lemma same_step: "(\<And>s. f (snd (g s)) = f s) \<Longrightarrow> state_io_rel (same f) (State g)"
  by (simp add: state_io_rel_def same_def)

lemma untouched_next: "state_io_rel (same (untouched r)) (get_next_rec_buffer hw t)"
  unfolding get_next_rec_buffer_def get_next_rec_buffer_internal_def Let_def data_at_def set_data_at_def
    add_sum_def
  by (intro same.flow same_step; simp add: untouched_def split_def)

interpretation frame: rx_relation "same (untouched r :: 'd rx \<Rightarrow> _)" hw r
  for hw :: "'d hardware" and r
proof unfold_locales
  fix s :: "'d rx" and t n f b c
  show "state_io_rel (same (untouched r)) (get_next_rec_buffer hw t)"
    by (rule untouched_next)
  show "state_io_rel (same (untouched r)) (update_remote r f :: ('d rx, unit) state)"
    if "\<And>rem. r_flags (f rem) = r_flags rem"
    unfolding state_io_rel_def same_def by (intro allI untouched_set that)
qed (simp_all add: state_io_rel_def same_def untouched_def set_pending_pulse_def set_pending_space_def
   rewind_rec_buffer_def unget_rec_buffer_def data_at_def sub_sum_def)

interpretation frame: decoder_relation "same (untouched r :: 'd rx \<Rightarrow> _)" hw r
  for hw :: "'d hardware" and r
proof unfold_locales
  fix s :: "'d rx" and n
  have "state_io_rel (same (untouched r)) (get_data_serial hw (rx_remotes s ! r) n)"
    by (rule frame.serial_with_delta)
      (simp add: state_io_rel_def same_def untouched_def unget_rec_buffer_delta_def sub_sum_def set_data_at_def)
  then show "same (untouched r) s (exec (get_data_serial hw (rx_remotes s ! r) n) s)"
    by (simp add: state_io_rel_def)
qed

subsection \<open>The signal survives a decoding attempt\<close>

text \<open>
  The signal as the decoder sees it: the samples in the buffer and those still to come. Unless
  the remote is a serial one, whose decoder writes to the buffer, an attempt to decode changes
  neither their values nor their order; it only moves samples from the receiver into the buffer.
\<close>

definition signal :: "('d \<Rightarrow> lirc_t list) \<Rightarrow> 'd rx \<Rightarrow> lirc_t list" where
  "signal coming s = take (nat (rb_wptr s)) (rb_data s) @ coming (rx_dev s)"

definition signal_ok :: "('d \<Rightarrow> lirc_t list) \<Rightarrow> ('d \<Rightarrow> bool) \<Rightarrow> 'd rx \<Rightarrow> bool" where
  "signal_ok coming sound s \<longleftrightarrow> buf_ok s \<and> sound (rx_dev s) \<and> 0 \<notin> set (coming (rx_dev s))"

definition same_signal :: "('d \<Rightarrow> lirc_t list) \<Rightarrow> ('d \<Rightarrow> bool) \<Rightarrow> nat \<Rightarrow> 'd rx \<Rightarrow> 'd rx \<Rightarrow> bool" where
  "same_signal coming sound r s t \<longleftrightarrow>
     (signal_ok coming sound s \<longrightarrow> r < length (rx_remotes s) \<longrightarrow> \<not> is_serial (rx_remotes s ! r) \<longrightarrow>
      signal_ok coming sound t \<and> signal coming t = signal coming s \<and>
      r < length (rx_remotes t) \<and> \<not> is_serial (rx_remotes t ! r))"

context sample_source
begin

lemma read_sample:
  assumes "signal_ok coming sound s" and "nat (rb_rptr s) < length (signal coming s)"
    and "0 \<le> rb_rptr s" and "rb_rptr s < RBUF_SIZE"
  shows "\<exists>s'. run_state (get_next_rec_buffer hw t) s = (signal coming s ! nat (rb_rptr s), s') \<and>
     signal_ok coming sound s' \<and> signal coming s' = signal coming s \<and>
     s' = s\<lparr>rx_dev := rx_dev s', rb_data := rb_data s', rb_wptr := rb_wptr s', rb_rptr := rb_rptr s + 1,
       rb_sum := add32 (rb_sum s) (signal coming s ! nat (rb_rptr s) AND PULSE_MASK)\<rparr>"
proof (cases "rb_rptr s < rb_wptr s")
  case True
  with assms have "run_state (get_next_rec_buffer hw t) s =
      (rb_data s ! nat (rb_rptr s), s\<lparr>rb_sum := add32 (rb_sum s) (rb_data s ! nat (rb_rptr s) AND PULSE_MASK),
        rb_rptr := rb_rptr s + 1\<rparr>)"
    by (simp add: next_stored in_data_def signal_ok_def buf_ok_def)
  moreover have "signal coming s ! nat (rb_rptr s) = rb_data s ! nat (rb_rptr s)"
    using True assms by (auto simp: signal_def nth_append signal_ok_def buf_ok_def nat_less_eq_zless)
  ultimately show ?thesis
    using True assms by (auto simp: signal_ok_def signal_def buf_ok_def)
next
  case False
  with assms have eq: "rb_rptr s = rb_wptr s" "rb_wptr s < 256" "length (rb_data s) = 256" "0 \<le> rb_wptr s"
    by (auto simp: signal_ok_def buf_ok_def)
  define d where "d = hw_wait_for_data hw (wait_time t) (rx_dev s)"
  obtain x d' where x: "hw_readdata hw 0 d = (x, d')" by fastforce
  have s: "sound (rx_dev s)" "0 \<notin> set (coming (rx_dev s))"
    using assms(1) by (simp_all add: signal_ok_def)
  have len: "length (take (nat (rb_wptr s)) (rb_data s)) = nat (rb_wptr s)"
    using eq by simp
  then have ne: "coming (rx_dev s) \<noteq> []"
    using assms(2) eq by (auto simp: signal_def)
  have d: "coming d = coming (rx_dev s)" "sound d" "hw_data_ready hw d"
    using s ne by (simp_all add: d_def coming_wait sound_wait ready_wait)
  have c: "coming (rx_dev s) = x # coming d'" "sound d'"
    using coming_read [OF d(2,3), of 0] sound_read [OF d(2), of 0] d(1) by (simp_all add: x)
  with s have "x \<noteq> 0" by auto
  then have run: "run_state (get_next_rec_buffer hw t) s =
      (x, s\<lparr>rx_dev := d', rb_data := (rb_data s)[nat (rb_wptr s) := x],
       rb_sum := add32 (rb_sum s) (x AND PULSE_MASK), rb_wptr := rb_wptr s + 1, rb_rptr := rb_wptr s + 1\<rparr>)"
    (is "_ = (x, ?s')")
    using next_fresh [OF eq(1) eq(4) _ eq(3) refl x [unfolded d_def]] eq d(3) by (simp add: d_def)
  have "nat (rb_wptr s + 1) = Suc (nat (rb_wptr s))" using eq by simp
  then have tk: "take (nat (rb_wptr s + 1)) ((rb_data s)[nat (rb_wptr s) := x]) = take (nat (rb_wptr s)) (rb_data s) @ [x]"
    using eq by (simp add: take_Suc_conv_app_nth)
  have "signal coming s ! nat (rb_rptr s) = x"
    using len c eq(1) by (simp add: signal_def nth_append)
  moreover have "signal_ok coming sound ?s'" "signal coming ?s' = signal coming s"
    using assms(1) eq c tk s by (auto simp: signal_ok_def buf_ok_def signal_def)
  ultimately show ?thesis
    using run eq(1) by auto
qed


lemma same_signal_next: "same_signal coming sound r s (exec (get_next_rec_buffer hw t) s)"
proof (cases "signal_ok coming sound s")
  case True
  then have b: "buf_ok s" by (simp add: signal_ok_def)
  then consider (ub) "rb_rptr s < 0" | (full) "rb_rptr s = RBUF_SIZE" "rb_wptr s = RBUF_SIZE"
    | (more) "0 \<le> rb_rptr s" "rb_rptr s < RBUF_SIZE" "nat (rb_rptr s) < length (signal coming s)"
    | (dry) "0 \<le> rb_rptr s" "rb_rptr s < RBUF_SIZE" "length (signal coming s) \<le> nat (rb_rptr s)"
    unfolding buf_ok_def by linarith
  then show ?thesis
  proof cases
    case ub
    with b have "rb_rptr s < rb_wptr s" by (simp add: buf_ok_def)
    with ub b True show ?thesis
      by (simp add: next_stored in_data_def same_signal_def signal_ok_def signal_def buf_ok_def)
  next
    case full
    with True show ?thesis
      by (simp add: next_full same_signal_def signal_ok_def signal_def buf_ok_def)
  next
    case more
    from read_sample [OF True more(3,1,2), of t] obtain s' where
      s': "exec (get_next_rec_buffer hw t) s = s'" "signal_ok coming sound s'" "signal coming s' = signal coming s"
      and eq: "s' = s\<lparr>rx_dev := rx_dev s', rb_data := rb_data s', rb_wptr := rb_wptr s', rb_rptr := rb_rptr s + 1,
       rb_sum := add32 (rb_sum s) (signal coming s ! nat (rb_rptr s) AND PULSE_MASK)\<rparr>"
      by (metis snd_conv)
    have "rx_remotes s' = rx_remotes s" by (subst eq) simp
    with s' have "exec (get_next_rec_buffer hw t) s = s'" "signal_ok coming sound s'" "signal coming s' = signal coming s"
      "rx_remotes s' = rx_remotes s" by blast+
    then show ?thesis by (simp add: same_signal_def)
  next
    case dry
    then have "nat (rb_wptr s) + length (coming (rx_dev s)) \<le> nat (rb_rptr s)"
      using b by (simp add: signal_def buf_ok_def)
    moreover have "nat (rb_rptr s) \<le> nat (rb_wptr s)"
      using b by (simp add: buf_ok_def nat_mono)
    ultimately have "length (coming (rx_dev s)) = 0" "nat (rb_rptr s) = nat (rb_wptr s)"
      by linarith+
    then have eq: "rb_rptr s = rb_wptr s" "rb_wptr s < 256" "coming (rx_dev s) = []"
      using dry b by (auto simp: buf_ok_def eq_nat_nat_iff)
    obtain x d' where x: "hw_readdata hw 0 (hw_wait_for_data hw (wait_time t) (rx_dev s)) = (x, d')"
      by fastforce
    have "sound (rx_dev s)" using True by (simp add: signal_ok_def)
    then have "coming (hw_wait_for_data hw (wait_time t) (rx_dev s)) = []"
      "sound (hw_wait_for_data hw (wait_time t) (rx_dev s))"
      "\<not> hw_data_ready hw (hw_wait_for_data hw (wait_time t) (rx_dev s))"
      using eq(3) by (simp_all add: coming_wait sound_wait ready_wait)
    with next_fresh [OF eq(1) _ _ _ refl x] b eq True show ?thesis
      by (simp add: same_signal_def signal_ok_def signal_def buf_ok_def)
  qed
qed (simp add: same_signal_def)

lemma same_signal_fields:
  assumes "rb_data t = rb_data s" "rb_wptr t = rb_wptr s" "rx_dev t = rx_dev s" "rx_remotes t = rx_remotes s"
    and "buf_ok s \<Longrightarrow> buf_ok t"
  shows "same_signal coming sound r s t"
  using assms by (simp add: same_signal_def signal_ok_def signal_def)

lemma same_signal_set:
  "(\<And>rem. r_flags (f rem) = r_flags rem) \<Longrightarrow> same_signal coming sound r s (exec (update_remote r f) s)"
  by (auto simp: same_signal_def signal_ok_def signal_def buf_ok_def update_remote_def is_serial_def protocol_def)

sublocale kept: rx_relation "same_signal coming sound r" hw r for r
proof unfold_locales
  fix s t u :: "'d rx" and n and d :: int and f :: "ir_remote \<Rightarrow> ir_remote"
  show "same_signal coming sound r s s"
    by (simp add: same_signal_def)
  show "same_signal coming sound r s u" if "same_signal coming sound r s t" "same_signal coming sound r t u"
    using that by (simp add: same_signal_def)
  show "state_io_rel (same_signal coming sound r) (get_next_rec_buffer hw d)"
    by (simp add: state_io_rel_def same_signal_next)
  show "state_io_rel (same_signal coming sound r) (update_remote r f)"
    if "\<And>rem. r_flags (f rem) = r_flags rem"
    using that by (simp add: state_io_rel_def same_signal_set)
  show "state_io_rel (same_signal coming sound r) (unget_rec_buffer n)"
    unfolding state_io_rel_def
    by (intro allI same_signal_fields buf_ok_unget)
      (simp_all add: unget_rec_buffer_def sub_sum_def data_at_def)
  show "state_io_rel (same_signal coming sound r) rewind_rec_buffer"
    unfolding state_io_rel_def
    by (intro allI same_signal_fields) (simp_all add: rewind_rec_buffer_def buf_ok_def
        set_pending_pulse_def set_pending_space_def)
  show "state_io_rel (same_signal coming sound r) (set_pending_pulse d)"
    "state_io_rel (same_signal coming sound r) (set_pending_space d)"
    unfolding state_io_rel_def
    by (intro allI same_signal_fields; simp add: buf_ok_def set_pending_pulse_def set_pending_space_def)+
qed (rule same_signal_fields; simp add: buf_ok_def)+

sublocale kept: decoder_relation "same_signal coming sound r" hw r for r
  by unfold_locales (simp add: same_signal_def)

end

lemma receive_keeps_globals:
  "rx_last_remote (exec (receive_decode hw r) s) = rx_last_remote s"
  "rx_decoding (exec (receive_decode hw r) s) = rx_decoding s"
  "rx_last_decoded (exec (receive_decode hw r) s) = rx_last_decoded s"
  "map r_flags (rx_remotes (exec (receive_decode hw r) s)) = map r_flags (rx_remotes s)"
  using frame.decode [of r hw] by (simp_all add: state_io_rel_def same_def untouched_def)

text \<open>
  C4: the receive buffer is never overrun: from any state within the bounds of \<open>data\<close>, decoding with any
  remote, any protocol and any receiver leaves \<open>rptr \<le> wptr \<le> 256\<close> and the array at its
  size, and \<open>rptr\<close> can have gone below zero only by an access that was already out of bounds.
\<close>

theorem receive_decode_bounds:
  assumes "buf_ok s"
  shows "buf_ok (exec (receive_decode hw r) s)"
  using bounds.decode [of hw r] assms by (simp add: state_io_rel_def keeping_def)

theorem receive_decode_bounds_witness:
  "buf_ok (exec (receive_decode mode2_hw 0) (idle_rx [nec_remote] [PULSE_MASK, 0x1002328, 4500]))"
  by (rule receive_decode_bounds) (simp add: buf_ok_def idle_rx_def)

text \<open>
  A decoding attempt consumes nothing: with a mode-2 plugin as the receiver and a remote of any
  protocol but the serial one, the samples in the buffer followed by those still to come are the
  same before and after, so the next remote is tried on the same signal.
\<close>

theorem receive_decode_keeps_signal:
  assumes "signal_ok mode2_coming mode2_sound s" and "r < length (rx_remotes s)"
    and "\<not> is_serial (rx_remotes s ! r)"
  shows "signal mode2_coming (exec (receive_decode mode2_hw r) s) = signal mode2_coming s \<and>
    signal_ok mode2_coming mode2_sound (exec (receive_decode mode2_hw r) s)"
  using mode2.kept.decode [of r] assms by (simp add: state_io_rel_def same_signal_def)

theorem receive_decode_keeps_signal_witness:
  "signal mode2_coming (exec (receive_decode mode2_hw 0)
     (idle_rx [nec_remote] [PULSE_MASK, 0x1002328, 4500])) = [PULSE_MASK, 0x1002328, 4500]"
proof -
  let ?s = "idle_rx [nec_remote] [PULSE_MASK, 0x1002328, 4500]"
  have c: "mode2_coming (rx_dev ?s) = [PULSE_MASK, 0x1002328, 4500]"
    by (simp add: idle_rx_def mode2_coming_def fifo_init_def fifo_contents_def)
  have "mode2_sound (rx_dev ?s)"
    by (simp add: idle_rx_def mode2_sound_def fifo_invar_def fifo_init_def batch_ok_def)
  with c have "signal_ok mode2_coming mode2_sound ?s"
    by (simp add: signal_ok_def buf_ok_def idle_rx_def)
  then have "signal mode2_coming (exec (receive_decode mode2_hw 0) ?s) = signal mode2_coming ?s"
    by (rule receive_decode_keeps_signal [THEN conjunct1])
      (simp_all add: idle_rx_def nec_remote_def zero_remote_def is_serial_def protocol_def)
  with c show ?thesis
    by (simp add: signal_def idle_rx_def)
qed

text \<open>
  A decoding attempt with remote \<open>r\<close> is local: it leaves every other remote, the flags of
  \<open>r\<close>, \<open>last_remote\<close>, \<open>decoding\<close> and \<open>last_decoded\<close> as they were.
\<close>

theorem receive_decode_local:
  "rx_last_remote (exec (receive_decode hw r) s) = rx_last_remote s \<and>
   rx_decoding (exec (receive_decode hw r) s) = rx_decoding s \<and>
   rx_last_decoded (exec (receive_decode hw r) s) = rx_last_decoded s \<and>
   take r (rx_remotes (exec (receive_decode hw r) s)) @ drop (Suc r) (rx_remotes (exec (receive_decode hw r) s))
     = take r (rx_remotes s) @ drop (Suc r) (rx_remotes s) \<and>
   map r_flags (rx_remotes (exec (receive_decode hw r) s)) = map r_flags (rx_remotes s)"
  using frame.decode [of r hw] by (simp add: state_io_rel_def same_def untouched_def)

end
