(* ===== verification/SendLaws.thy ===== *)
theory SendLaws
  imports Send Sample
begin

text \<open>
  Theorems about \<open>Send.cpp\<close>: the transmit buffer is never overrun, \<open>send_pulse\<close>/\<open>send_space\<close>
  implement an alternating list of durations, a successful \<open>init_send\<close> leaves a sendable
  buffer, and when \<open>init_send\<close> returns.
\<close>

subsection \<open>Bounds\<close>

definition send_ok :: "tx \<Rightarrow> bool" where
  "send_ok s \<longleftrightarrow> length (sb_data s) = 2048 \<and> 0 \<le> sb_wptr s \<and> sb_wptr s \<le> WBUF_SIZE"

text \<open>
  Every function of \<open>Send.cpp\<close> writes to the buffer by these steps only, and to the remote and the
  code by the two steps of the locale after it.
\<close>

locale tx_emits = step_relation R
  for R :: "tx \<Rightarrow> tx \<Rightarrow> bool" +
  assumes add: "state_io_rel R (add_send_buffer d)"
    and set_pulse: "R s (s\<lparr>sb_pendingp := d\<rparr>)"
    and set_space: "R s (s\<lparr>sb_pendings := d\<rparr>)"
    and set_sum: "R s (s\<lparr>sb_sum := d\<rparr>)"
    and drop_last: "state_io_rel R sync_send_buffer"
begin

lemma let_tx: "(\<And>x. state_io_rel R (f x)) \<Longrightarrow> state_io_rel R (Let a f)"
  by (simp add: Let_def)

lemmas steps = flow let_tx add wr [OF set_pulse] wr [OF set_space] wr [OF set_sum] drop_last

lemma pulse: "state_io_rel R (send_pulse d)"
  and space: "state_io_rel R (send_space d)"
  and flush: "state_io_rel R flush_send_buffer"
  unfolding send_pulse_def send_space_def flush_send_buffer_def by (intro steps)+

lemmas emits = steps pulse space flush

lemma header: "state_io_rel R (send_header rem)"
  and foot: "state_io_rel R (send_foot rem)"
  and lead: "state_io_rel R (send_lead rem)"
  and trail: "state_io_rel R (send_trail rem)"
  unfolding send_header_def send_foot_def send_lead_def send_trail_def by (intro emits)+

lemma data: "state_io_rel R (send_data rem v n k)"
proof -
  have "state_io_rel R (send_rcmm_loop rem m v)" for m v
    by (induction m arbitrary: v)
      (simp_all only: send_rcmm_loop.simps send_rcmm_symbol_def, (intro emits | assumption)+)
  moreover have "state_io_rel R (send_xmp_loop rem m v)" for m v
    by (induction m arbitrary: v) (simp_all only: send_xmp_loop.simps, (intro emits | assumption)+)
  moreover have "state_io_rel R (send_bits_loop rem m w v)" for m w v
    by (induction m arbitrary: w v)
      (simp_all only: send_bits_loop.simps send_bit_def, (intro emits | assumption)+)
  ultimately show ?thesis
    unfolding send_data_def Let_def by (intro steps)
qed

lemma code: "state_io_rel R (send_code rem c rep)"
  unfolding send_code_def send_pre_def send_post_def
  by (intro emits header lead data trail foot)

lemma signals: "state_io_rel R (send_signals xs)"
  by (induction xs) (simp_all only: send_signals.simps, (intro steps | assumption)+)

end

text \<open>The remote without the four fields that sending updates.\<close>

definition settings :: "ir_remote \<Rightarrow> ir_remote" where
  "settings rem = rem\<lparr>r_toggle_mask_state := 0, r_repeat_countdown := 0, r_min_remaining_gap := 0,
     r_max_remaining_gap := 0\<rparr>"

locale tx_relation = tx_emits R
  for R :: "tx \<Rightarrow> tx \<Rightarrow> bool" +
  assumes set_remote: "(\<And>rem. settings (f rem) = settings rem) \<Longrightarrow> state_io_rel R (set_tx_remote f)"
    and set_part: "R s (s\<lparr>tx_code := (tx_code s)\<lparr>n_transmit_state := next_transmit_state (tx_remote s) (tx_code s)\<rparr>\<rparr>)"
begin

lemma one_signal: "state_io_rel R (send_signal rep)"
  unfolding send_signal_def send_repeat_def
  by (intro emits set_remote header lead trail code signals) (simp_all add: settings_def)

lemma remaining: "state_io_rel R (set_remaining_gap rep)"
  unfolding set_remaining_gap_def by (intro steps set_remote) (simp_all add: settings_def)

lemma round: "state_io_rel R (init_send_round rep)"
  unfolding init_send_round_def init_send_end_def
  by (intro emits set_remote one_signal remaining wr [OF set_part]) (simp_all add: settings_def)

lemma rounds:
  assumes "init_send_loop rep s = Some (ok, s')"
  shows "R s s'"
proof -
  have "case (ok, s') of (ok, s') \<Rightarrow> R s s'"
    using assms
  proof (rule init_send_loop.raw_induct [rotated])
    fix loop :: "bool \<Rightarrow> tx \<Rightarrow> (bool \<times> tx) option" and rep s y
    assume IH: "\<And>rep s y. loop rep s = Some y \<Longrightarrow> case y of (ok, s') \<Rightarrow> R s s'"
      and y: "(case run_state (init_send_round rep) s of
        (next_step, s') \<Rightarrow> (case next_step of Inl ok \<Rightarrow> Some (ok, s') | Inr rep' \<Rightarrow> loop rep' s')) = Some y"
    have "R s (exec (init_send_round rep) s)"
      using round [of rep] by (simp add: state_io_rel_def)
    with y IH show "case y of (ok, s') \<Rightarrow> R s s'"
      by (auto split: prod.splits sum.splits intro: R_trans)
  qed
  then show ?thesis by simp
qed

end

text \<open>The state in which the first round starts.\<close>

definition init_send_start :: "int \<Rightarrow> tx \<Rightarrow> tx" where
  "init_send_start repeats s = s\<lparr>sb_wptr := 0, sb_too_long := False, sb_is_biphase := is_biphase (tx_remote s),
     sb_pendingp := 0, sb_pendings := 0, sb_sum := 0,
     tx_remote := (tx_remote s)\<lparr>r_repeat_countdown := max (r_min_repeat (tx_remote s)) repeats\<rparr>\<rparr>"

definition send_supported :: "ir_remote \<Rightarrow> bool" where
  "send_supported rem \<longleftrightarrow> \<not> is_grundig rem \<and> \<not> is_goldstar rem \<and> \<not> is_serial rem \<and> \<not> is_bo rem"

lemma init_send_eq:
  "init_send repeats s = (if send_supported (tx_remote s)
     then init_send_loop False (init_send_start repeats s) else Some (False, s))"
  by (auto simp: init_send_def send_supported_def init_send_start_def clear_send_buffer_def set_tx_remote_def Let_def
      intro!: arg_cong [of _ _ "init_send_loop False"] tx.equality)

interpretation tx_bounds: tx_relation "keeping send_ok"
  by unfold_locales (auto simp: state_io_rel_def keeping_def send_ok_def add_send_buffer_def
      sync_send_buffer_def set_tx_remote_def)

text \<open>
  C15: the transmit buffer is never overrun: whatever the remote, the button and the number of
  repeats, \<open>init_send\<close> leaves \<open>wptr\<close> within the 2048 entries of \<open>_data\<close>.
\<close>

theorem init_send_bounds:
  assumes "init_send repeats s = Some (ok, s')" and "length (sb_data s) = 2048"
    and "0 \<le> sb_wptr s" and "sb_wptr s \<le> WBUF_SIZE"
  shows "length (sb_data s') = 2048 \<and> 0 \<le> sb_wptr s' \<and> sb_wptr s' \<le> WBUF_SIZE"
proof -
  have "send_ok s" "send_ok (init_send_start repeats s)"
    using assms by (simp_all add: send_ok_def init_send_start_def)
  then have "send_ok s'"
    using assms(1) tx_bounds.rounds [of False "init_send_start repeats s" ok s']
    by (auto simp: init_send_eq keeping_def split: if_splits)
  then show ?thesis by (simp add: send_ok_def)
qed

interpretation tx_frame: tx_relation "same (\<lambda>s. (settings (tx_remote s), (tx_code s)\<lparr>n_transmit_state := None\<rparr>))"
  by unfold_locales (auto simp: state_io_rel_def same_def add_send_buffer_def
      sync_send_buffer_def set_tx_remote_def)

text \<open>
  Sending is a read of the configuration: \<open>init_send\<close> changes nothing of the button but
  \<open>transmit_state\<close> and nothing of the remote but \<open>toggle_mask_state\<close>, \<open>repeat_countdown\<close> and
  the two remaining gaps.
\<close>

theorem init_send_frame:
  assumes "init_send repeats s = Some (ok, s')"
  shows "settings (tx_remote s') = settings (tx_remote s) \<and>
    (tx_code s')\<lparr>n_transmit_state := None\<rparr> = (tx_code s)\<lparr>n_transmit_state := None\<rparr>"
proof (cases "send_supported (tx_remote s)")
  case True
  with assms tx_frame.rounds [of False "init_send_start repeats s" ok s'] show ?thesis
    by (simp add: init_send_eq same_def init_send_start_def settings_def)
next
  case False
  with assms show ?thesis by (simp add: init_send_eq)
qed


subsection \<open>Rounds\<close>

text \<open>What of the remote decides about the rounds: all but the toggle state and the two gaps.\<close>

definition pacing :: "ir_remote \<Rightarrow> ir_remote" where
  "pacing rem = rem\<lparr>r_toggle_mask_state := 0, r_min_remaining_gap := 0, r_max_remaining_gap := 0\<rparr>"

lemma pacing_eqD:
  assumes "pacing a = pacing b"
  shows "r_repeat_countdown a = r_repeat_countdown b" "r_flags a = r_flags b" "r_codes a = r_codes b"
  using assms by (metis ir_remote.select_convs ir_remote.update_convs ir_remote.surjective pacing_def)+

interpretation tx_quiet: tx_emits "same (\<lambda>s. (g (tx_remote s), tx_code s))" for g :: "ir_remote \<Rightarrow> 'g"
  by unfold_locales (auto simp: state_io_rel_def same_def add_send_buffer_def sync_send_buffer_def)

lemma quiet_set_remote:
  "(\<And>rem. g (f rem) = g rem) \<Longrightarrow> state_io_rel (same (\<lambda>s. (g (tx_remote s), tx_code s))) (set_tx_remote f)"
  by (simp add: state_io_rel_def same_def set_tx_remote_def)

lemma send_signal_quiet: "state_io_rel (same (\<lambda>s. (pacing (tx_remote s), tx_code s))) (send_signal rep)"
  unfolding send_signal_def send_repeat_def
  by (intro tx_quiet.emits tx_quiet.header tx_quiet.lead tx_quiet.trail tx_quiet.code tx_quiet.signals
      quiet_set_remote) (simp_all add: pacing_def)

lemma remaining_quiet: "state_io_rel (same (\<lambda>s. (pacing (tx_remote s), tx_code s))) (set_remaining_gap rep)"
  unfolding set_remaining_gap_def
  by (intro tx_quiet.steps quiet_set_remote) (simp_all add: pacing_def)

lemma quietD:
  assumes "state_io_rel (same (\<lambda>s. (pacing (tx_remote s), tx_code s))) m" and "run_state m s = (x, s')"
  shows "pacing (tx_remote s') = pacing (tx_remote s) \<and> tx_code s' = tx_code s"
proof -
  have "same (\<lambda>s. (pacing (tx_remote s), tx_code s)) s (exec m s)"
    using assms(1) by (simp add: state_io_rel_def)
  with assms(2) show ?thesis by (simp add: same_def)
qed


definition round_end :: "bool \<Rightarrow> tx \<Rightarrow> (bool + bool) \<times> tx" where
  "round_end rep s =
    (if r_repeat_countdown (tx_remote s) > 0 \<or> n_transmit_state (tx_code s) \<noteq> None then
       (if n_next (tx_code s) = [] \<or> n_transmit_state (tx_code s) = None then
          (Inr True, s\<lparr>sb_sum := 0, tx_remote := (tx_remote s)\<lparr>r_repeat_countdown :=
             sub32 (r_repeat_countdown (tx_remote s)) 1\<rparr>\<rparr>)
        else (Inr rep, s\<lparr>sb_sum := 0\<rparr>))
     else (Inl (check_send_buffer s), s))"

lemma run_end: "run_state (init_send_end rep) s = round_end rep s"
  by (auto simp: init_send_end_def round_end_def set_tx_remote_def Let_def)

lemma round_end_again:
  "round_end rep u = (Inr rep', s') \<Longrightarrow>
   (r_repeat_countdown (tx_remote u) > 0 \<or> n_transmit_state (tx_code u) \<noteq> None) \<and>
   tx_code s' = tx_code u \<and>
   tx_remote s' = (if n_next (tx_code u) = [] \<or> n_transmit_state (tx_code u) = None
     then (tx_remote u)\<lparr>r_repeat_countdown := sub32 (r_repeat_countdown (tx_remote u)) 1\<rparr> else tx_remote u)"
  by (auto simp: round_end_def split: if_splits)

text \<open>A round that reaches its end, taken apart.\<close>

lemma round_cases:
  assumes "run_state (init_send_round rep) s = (x, s')"
  obtains (failed) "x = Inl False"
  | (sent) s1 s2 where "run_state (send_signal rep) s = (True, s1)"
      "\<not> bad_send_buffer (exec sync_send_buffer s1)"
      "run_state (set_remaining_gap rep) (exec sync_send_buffer s1) = (True, s2)"
      "(x, s') = round_end rep (exec (do { send_space (r_min_remaining_gap (tx_remote s2)); flush_send_buffer })
         (s2\<lparr>tx_code := (tx_code s2)\<lparr>n_transmit_state := next_transmit_state (tx_remote s2) (tx_code s2)\<rparr>\<rparr>))"
proof -
  obtain b s1 where 1: "run_state (send_signal rep) s = (b, s1)" by fastforce
  obtain ok s2 where 2: "run_state (set_remaining_gap rep) (exec sync_send_buffer s1) = (ok, s2)" by fastforce
  let ?u = "exec (do { send_space (r_min_remaining_gap (tx_remote s2)); flush_send_buffer })
    (s2\<lparr>tx_code := (tx_code s2)\<lparr>n_transmit_state := next_transmit_state (tx_remote s2) (tx_code s2)\<rparr>\<rparr>)"
  have "run_state (init_send_round rep) s =
    (if \<not> b then (Inl False, s1)
     else if bad_send_buffer (exec sync_send_buffer s1) then (Inl False, exec sync_send_buffer s1)
     else if \<not> ok then (Inl False, s2) else round_end rep ?u)"
    using 1 2
    by (simp add: init_send_round_def run_end run_bind del: run_state_bind)
  with assms 1 2 that show ?thesis by (simp split: if_splits)
qed

lemma round_end_state:
  assumes "run_state (init_send_round rep) s = (x, s')" and "x \<noteq> Inl False"
  obtains u where "(x, s') = round_end rep u" "pacing (tx_remote u) = pacing (tx_remote s)"
    "tx_code u = (tx_code s)\<lparr>n_transmit_state := next_transmit_state (tx_remote s) (tx_code s)\<rparr>"
  using assms(1)
proof (cases rule: round_cases)
  case failed
  with assms(2) show ?thesis by simp
next
  case (sent s1 s2)
  let ?gap = "do { send_space (r_min_remaining_gap (tx_remote s2)); flush_send_buffer }"
  have a: "pacing (tx_remote s1) = pacing (tx_remote s)" "tx_code s1 = tx_code s"
    using quietD [OF send_signal_quiet sent(1)] by simp_all
  have sync: "state_io_rel (same (\<lambda>s. (pacing (tx_remote s), tx_code s))) sync_send_buffer"
    by (rule tx_quiet.drop_last)
  from quietD [OF sync run_unit, of s1] a
  have b: "pacing (tx_remote (exec sync_send_buffer s1)) = pacing (tx_remote s)"
    "tx_code (exec sync_send_buffer s1) = tx_code s" by simp_all
  from quietD [OF remaining_quiet sent(3)] b
  have c: "pacing (tx_remote s2) = pacing (tx_remote s)" "tx_code s2 = tx_code s" by simp_all
  then have t: "next_transmit_state (tx_remote s2) (tx_code s2) = next_transmit_state (tx_remote s) (tx_code s)"
    using pacing_eqD(2) [OF c(1)] by (simp add: next_transmit_state_def is_xmp_def protocol_def cong: option.case_cong)
  have "state_io_rel (same (\<lambda>s. (pacing (tx_remote s), tx_code s))) ?gap"
    by (intro tx_quiet.emits)
  from this [unfolded state_io_rel_def same_def] t c that [OF sent(4)] show ?thesis by simp
qed

text \<open>
  The parts of a code still to be sent before \<open>transmit_state\<close> is null again, and the number of
  rounds that are left.
\<close>

definition parts_left :: "ir_ncode \<Rightarrow> nat" where
  "parts_left code = (case n_transmit_state code of
     None \<Rightarrow> Suc (length (n_next code)) | Some i \<Rightarrow> length (n_next code) - i)"

definition rounds_left :: "tx \<Rightarrow> nat" where
  "rounds_left s = nat (r_repeat_countdown (tx_remote s)) * (length (n_next (tx_code s)) + 2) + parts_left (tx_code s)"

definition part_ok :: "tx \<Rightarrow> bool" where
  "part_ok s \<longleftrightarrow> (\<not> is_xmp (tx_remote s) \<or> n_next (tx_code s) = []) \<and>
     (case n_transmit_state (tx_code s) of None \<Rightarrow> True | Some i \<Rightarrow> i < length (n_next (tx_code s)))"

lemma again:
  assumes "run_state (init_send_round rep) s = (Inr rep', s')" and "part_ok s"
    and "in32 (r_repeat_countdown (tx_remote s))"
  shows "rounds_left s' < rounds_left s \<and> part_ok s' \<and> in32 (r_repeat_countdown (tx_remote s'))"
proof -
  from assms(1) obtain u where u: "(Inr rep', s') = round_end rep u"
    "pacing (tx_remote u) = pacing (tx_remote s)"
    "tx_code u = (tx_code s)\<lparr>n_transmit_state := next_transmit_state (tx_remote s) (tx_code s)\<rparr>"
    by (rule round_end_state) simp
  let ?c = "r_repeat_countdown (tx_remote s)" and ?n = "length (n_next (tx_code s))"
  define t where "t = n_transmit_state (tx_code s)"
  define t' where "t' = next_transmit_state (tx_remote s) (tx_code s)"
  note p = pacing_eqD [OF u(2)]
  have t': "t' = (if ?n = 0 then None else case t of None \<Rightarrow> Some 0 | Some i \<Rightarrow> if Suc i < ?n then Some (Suc i) else None)"
    using assms(2)
    by (auto simp: t'_def t_def part_ok_def next_transmit_state_def first_of_def next_of_def
        split: option.splits)
  have x: "is_xmp (tx_remote u) \<longleftrightarrow> is_xmp (tx_remote s)"
    using p(2) by (simp add: is_xmp_def protocol_def)
  have pl: "parts_left (tx_code s) = (case t of None \<Rightarrow> Suc ?n | Some i \<Rightarrow> ?n - i)"
    "parts_left (tx_code u) = (case t' of None \<Rightarrow> Suc ?n | Some i \<Rightarrow> ?n - i)"
    using u(3) by (simp_all add: parts_left_def t_def t'_def cong: option.case_cong)
  have s': "?c > 0 \<or> t' \<noteq> None" "tx_code s' = tx_code u"
    "tx_remote s' = (if ?n = 0 \<or> t' = None then (tx_remote u)\<lparr>r_repeat_countdown := sub32 ?c 1\<rparr> else tx_remote u)"
  proof -
    have cu: "n_transmit_state (tx_code u) = t'" "n_next (tx_code u) = n_next (tx_code s)"
      using u(3) by (simp_all add: t'_def)
    show "?c > 0 \<or> t' \<noteq> None" "tx_code s' = tx_code u"
      "tx_remote s' = (if ?n = 0 \<or> t' = None then (tx_remote u)\<lparr>r_repeat_countdown := sub32 ?c 1\<rparr> else tx_remote u)"
      using round_end_again [OF u(1) [symmetric]] p(1) cu by simp_all
  qed
  have dec: "sub32 ?c 1 = ?c - 1" if "?c > 0"
    using assms(3) that by (simp add: sub32_def small in32_def)
  have code: "n_transmit_state (tx_code s') = t'" "n_next (tx_code s') = n_next (tx_code s)"
    using s'(2) u(3) by (simp_all add: t'_def)
  have "is_xmp (tx_remote s') \<longleftrightarrow> is_xmp (tx_remote s)"
    using s'(3) x by (simp add: is_xmp_def protocol_def)
  moreover have "i < ?n" if "t' = Some i" for i
    using that t' by (auto split: if_splits option.splits)
  ultimately have ok: "part_ok s'"
    using assms(2) code by (simp add: part_ok_def split: option.split)
  show ?thesis
  proof (cases "t' = None")
    case True
    with s'(1) obtain c where c: "?c = int (Suc c)"
      by (metis Suc_pred' of_nat_0_less_iff pos_int_cases)
    have "nat (1 + int c) = Suc c" by simp
    moreover have "i < ?n" if "t = Some i" for i
      using that assms(2) by (simp add: part_ok_def t_def)
    ultimately show ?thesis
      using True s' dec pl u(3) c ok t' assms(3)
      by (fastforce simp: rounds_left_def in32_def split: option.splits if_splits)
  next
    case False
    with s' pl u(3) p(1) t' show ?thesis
      using ok assms(3) by (auto simp: rounds_left_def split: option.splits if_splits)
  qed
qed

lemma loop_returns:
  "part_ok s \<Longrightarrow> in32 (r_repeat_countdown (tx_remote s)) \<Longrightarrow> \<exists>y. init_send_loop rep s = Some y"
proof (induction "rounds_left s" arbitrary: s rep rule: less_induct)
  case less
  obtain x s' where x: "run_state (init_send_round rep) s = (x, s')" by fastforce
  show ?case
  proof (cases x)
    case (Inl ok)
    with x show ?thesis by (subst init_send_loop.simps) simp
  next
    case (Inr rep')
    with x less.hyps [of s' rep'] again [of rep s rep' s'] less.prems show ?thesis
      by (subst init_send_loop.simps) simp
  qed
qed

text \<open>
  C14: sending terminates: \<open>init_send\<close> returns for every remote and number of repeats, multi-part
  codes included, unless the remote is an XMP one and the code has further parts.
\<close>

theorem init_send_returns:
  assumes "in32 repeats" and "in32 (r_min_repeat (tx_remote s))"
    and "\<not> is_xmp (tx_remote s) \<or> n_next (tx_code s) = []"
    and "case n_transmit_state (tx_code s) of None \<Rightarrow> True | Some i \<Rightarrow> i < length (n_next (tx_code s))"
  shows "\<exists>ok s'. init_send repeats s = Some (ok, s')"
proof -
  have "part_ok (init_send_start repeats s)" "in32 (r_repeat_countdown (tx_remote (init_send_start repeats s)))"
    using assms
    by (auto simp: part_ok_def init_send_start_def is_xmp_def protocol_def max_def split: option.splits)
  from loop_returns [OF this, of False] show ?thesis
    by (auto simp: init_send_eq)
qed

lemma xmp_again:
  assumes "run_state (init_send_round rep) s = (x, s')" and "is_xmp (tx_remote s)" and "n_next (tx_code s) \<noteq> []"
  shows "x = Inl False \<or> (x = Inr rep \<and> is_xmp (tx_remote s') \<and> n_next (tx_code s') \<noteq> [])"
proof (cases "x = Inl False")
  case False
  with assms(1) obtain u where u: "(x, s') = round_end rep u"
    "pacing (tx_remote u) = pacing (tx_remote s)"
    "tx_code u = (tx_code s)\<lparr>n_transmit_state := next_transmit_state (tx_remote s) (tx_code s)\<rparr>"
    by (rule round_end_state)
  have "next_transmit_state (tx_remote s) (tx_code s) \<noteq> None"
    using assms(2,3) by (auto simp: next_transmit_state_def first_of_def Let_def split: option.splits)
  with u pacing_eqD(2) [OF u(2)] assms(2,3) show ?thesis
    by (auto simp: round_end_def is_xmp_def protocol_def)
qed simp

text \<open>
  C24: a multi-part code of an XMP remote can never be sent: \<open>transmit_state\<close> goes round the parts
  for ever and the repeat count is never reached, so \<open>init_send\<close> ends only by failing.
\<close>

theorem init_send_xmp_multipart:
  assumes "is_xmp (tx_remote s)" and "n_next (tx_code s) \<noteq> []" and "init_send repeats s = Some (ok, s')"
  shows "\<not> ok"
proof -
  have "is_xmp (tx_remote t) \<longrightarrow> n_next (tx_code t) \<noteq> [] \<longrightarrow> \<not> fst y" if "init_send_loop rep t = Some y" for rep t y
    using that
  proof (rule init_send_loop.raw_induct [rotated])
    fix loop :: "bool \<Rightarrow> tx \<Rightarrow> (bool \<times> tx) option" and rep t y
    assume IH: "\<And>rep t y. loop rep t = Some y \<Longrightarrow>
        is_xmp (tx_remote t) \<longrightarrow> n_next (tx_code t) \<noteq> [] \<longrightarrow> \<not> fst y"
      and y: "(case run_state (init_send_round rep) t of
        (next_step, s') \<Rightarrow> (case next_step of Inl ok \<Rightarrow> Some (ok, s') | Inr rep' \<Rightarrow> loop rep' s')) = Some y"
    obtain x t' where "run_state (init_send_round rep) t = (x, t')" by fastforce
    with xmp_again [OF this] IH y show "is_xmp (tx_remote t) \<longrightarrow> n_next (tx_code t) \<noteq> [] \<longrightarrow> \<not> fst y"
      by (auto split: sum.splits)
  qed
  from this [of False "init_send_start repeats s" "(ok, s')"] assms show ?thesis
    by (auto simp: init_send_eq init_send_start_def is_xmp_def protocol_def split: if_splits)
qed


subsection \<open>Success\<close>

lemma set_remaining_gap_buffer:
  "run_state (set_remaining_gap rep) s = (ok, t) \<Longrightarrow>
   t = s\<lparr>tx_remote := tx_remote t\<rparr>"
  by (auto simp: set_remaining_gap_def set_tx_remote_def split: if_splits)

lemma synced:
  assumes "send_ok s" and "\<not> bad_send_buffer (exec sync_send_buffer s)"
  shows "\<not> sb_too_long (exec sync_send_buffer s)" "sb_pendingp (exec sync_send_buffer s) \<le> 0"
    "0 \<le> sb_wptr (exec sync_send_buffer s)" "sb_wptr (exec sync_send_buffer s) < WBUF_SIZE"
  using assms
  by (auto simp: sync_send_buffer_def bad_send_buffer_def send_ok_def add_send_buffer_def rmd_nonneg
      split: if_splits) presburger+

lemma add_gap:
  assumes "\<not> sb_too_long s" and "sb_pendingp s \<le> 0" and "sb_wptr s < WBUF_SIZE"
  shows "\<not> sb_too_long (exec (do { send_space d; flush_send_buffer }) s)"
  using assms by (simp add: send_space_def flush_send_buffer_def add_send_buffer_def)

lemma round_success:
  assumes "run_state (init_send_round rep) s = (Inl True, s')" and "send_ok s"
  shows "check_send_buffer s' \<and> \<not> sb_too_long s'"
  using assms(1)
proof (cases rule: round_cases)
  case (sent s1 s2)
  have "send_ok s1"
    using tx_bounds.one_signal [of rep] sent(1) assms(2) by (simp add: state_io_rel_def keeping_def) (metis snd_conv)
  from synced [OF this sent(2)] set_remaining_gap_buffer [OF sent(3)]
  have "\<not> sb_too_long s2" "sb_pendingp s2 \<le> 0" "sb_wptr s2 < WBUF_SIZE"
    by (metis tx.select_convs tx.update_convs tx.surjective)+
  then have "\<not> sb_too_long (exec (do { send_space (r_min_remaining_gap (tx_remote s2)); flush_send_buffer })
         (s2\<lparr>tx_code := (tx_code s2)\<lparr>n_transmit_state := next_transmit_state (tx_remote s2) (tx_code s2)\<rparr>\<rparr>))"
    by (intro add_gap) simp_all
  with sent(4) show ?thesis
    by (auto simp: round_end_def split: if_splits)
qed simp

text \<open>
  When \<open>init_send\<close> reports success the buffer can be transmitted: it is not empty, it did not
  overflow, and none of its durations is zero.
\<close>

theorem init_send_success:
  assumes "init_send repeats s = Some (True, s')" and "length (sb_data s) = 2048"
    and "0 \<le> sb_wptr s" and "sb_wptr s \<le> WBUF_SIZE"
  shows "0 < sb_wptr s' \<and> \<not> sb_too_long s' \<and> 0 \<notin> set (take (nat (sb_wptr s')) (sb_data s'))"
proof -
  have *: "send_ok t \<longrightarrow> fst y \<longrightarrow> send_ok (snd y) \<and> check_send_buffer (snd y) \<and> \<not> sb_too_long (snd y)"
    if "init_send_loop rep t = Some y" for rep t y
    using that
  proof (rule init_send_loop.raw_induct [rotated])
    fix loop :: "bool \<Rightarrow> tx \<Rightarrow> (bool \<times> tx) option" and rep t y
    assume IH: "\<And>rep t y. loop rep t = Some y \<Longrightarrow> send_ok t \<longrightarrow> fst y \<longrightarrow>
        send_ok (snd y) \<and> check_send_buffer (snd y) \<and> \<not> sb_too_long (snd y)"
      and y: "(case run_state (init_send_round rep) t of
        (next_step, s') \<Rightarrow> (case next_step of Inl ok \<Rightarrow> Some (ok, s') | Inr rep' \<Rightarrow> loop rep' s')) = Some y"
    obtain x t' where x: "run_state (init_send_round rep) t = (x, t')" by fastforce
    have "send_ok t \<Longrightarrow> send_ok t'"
      using tx_bounds.round [of rep] x by (simp add: state_io_rel_def keeping_def) (metis snd_conv)
    with round_success [of rep t t'] x y IH
    show "send_ok t \<longrightarrow> fst y \<longrightarrow> send_ok (snd y) \<and> check_send_buffer (snd y) \<and> \<not> sb_too_long (snd y)"
      by (cases x) auto
  qed
  have "send_ok (init_send_start repeats s)"
    using assms by (simp add: send_ok_def init_send_start_def)
  with * [of False "init_send_start repeats s" "(True, s')"] assms(1)
  have "send_ok s'" "check_send_buffer s'" "\<not> sb_too_long s'"
    by (auto simp: init_send_eq split: if_splits)
  then show ?thesis
    by (auto simp: check_send_buffer_def list_all_iff send_ok_def)
qed

text \<open>
  Protocols that can only be received are refused: \<open>init_send\<close> returns failure and touches
  neither the buffer nor the remote.
\<close>

theorem init_send_unsupported:
  assumes "is_grundig (tx_remote s) \<or> is_goldstar (tx_remote s) \<or> is_serial (tx_remote s) \<or> is_bo (tx_remote s)"
  shows "init_send repeats s = Some (False, s)"
  using assms by (auto simp: init_send_eq send_supported_def)

end
