(* ===== verification/SendSignal.thy ===== *)
theory SendSignal
  imports SendLaws
begin

text \<open>
  What a signal is. The transmit buffer with its pending duration stands for a list of durations,
  pulse and space in turn (\<open>wire\<close>); \<open>send_pulse\<close> and \<open>send_space\<close> refine the list operation
  \<open>emit\<close>. On top of that, the exact signal \<open>init_send\<close> makes of a button of a space-encoded
  remote.
\<close>

subsection \<open>The buffer as an alternating list\<close>

definition wire :: "tx \<Rightarrow> lirc_t list" where
  "wire s = take (nat (sb_wptr s)) (sb_data s) @
     (if sb_pendingp s > 0 then [sb_pendingp s] else if sb_pendings s > 0 then [sb_pendings s] else [])"

text \<open>A pulse extends a pulse and a space a space; a space in front of everything is dropped.\<close>

definition emit :: "bool \<Rightarrow> lirc_t \<Rightarrow> lirc_t list \<Rightarrow> lirc_t list" where
  "emit pulse d xs =
     (if pulse = even (length xs) then xs @ [d]
      else if xs = [] then [] else butlast xs @ [last xs + d])"

text \<open>
  Pulses stand at the even positions. Nothing pending after a space is the state after
  \<open>flush_send_buffer\<close>, where only a pulse may follow.
\<close>

definition aligned :: "tx \<Rightarrow> bool" where
  "aligned s \<longleftrightarrow> send_ok s \<and> \<not> sb_too_long s \<and> 0 \<le> sb_pendingp s \<and> 0 \<le> sb_pendings s \<and>
     (sb_pendingp s > 0 \<longrightarrow> even (sb_wptr s) \<and> sb_pendings s = 0) \<and>
     (sb_pendings s > 0 \<longrightarrow> odd (sb_wptr s)) \<and>
     (sb_pendingp s = 0 \<longrightarrow> sb_pendings s = 0 \<longrightarrow> even (sb_wptr s))"

definition flushed :: "tx \<Rightarrow> bool" where
  "flushed s \<longleftrightarrow> sb_pendingp s = 0 \<and> sb_pendings s = 0 \<and> sb_wptr s > 0 \<and> even (sb_wptr s)"

lemma length_wire:
  "aligned s \<Longrightarrow> length (wire s) = nat (sb_wptr s) + (if sb_pendingp s > 0 \<or> sb_pendings s > 0 then 1 else 0)"
  by (auto simp: wire_def aligned_def send_ok_def)

lemma stored:
  assumes "aligned s" and "sb_wptr s < WBUF_SIZE"
  shows "take (nat (sb_wptr s + 1)) ((sb_data s)[nat (sb_wptr s) := d]) = take (nat (sb_wptr s)) (sb_data s) @ [d]"
  using assms by (simp add: aligned_def send_ok_def nat_add_distrib take_Suc_conv_app_nth)

lemma pulse_refines:
  assumes "aligned s" and "0 < d" and "length (wire s) \<le> 2048"
    and "odd (length (wire s)) \<Longrightarrow> in32 (last (wire s) + d)"
  shows "wire (exec (send_pulse d) s) = emit True d (wire s) \<and> aligned (exec (send_pulse d) s) \<and>
    \<not> flushed (exec (send_pulse d) s)"
proof -
  consider (merge) "sb_pendingp s > 0" "sb_pendings s = 0" "even (sb_wptr s)"
    | (flush) "sb_pendingp s = 0" "sb_pendings s > 0" "odd (sb_wptr s)"
    | (idle) "sb_pendingp s = 0" "sb_pendings s = 0"
    using assms(1) unfolding aligned_def by linarith
  then show ?thesis
  proof cases
    case merge
    then have "add32 (sb_pendingp s) d = sb_pendingp s + d"
      using assms(4) length_wire [OF assms(1)] assms(1)
      by (simp add: wire_def add32_def small even_nat_iff aligned_def send_ok_def)
    with merge assms show ?thesis
      by (auto simp: send_pulse_def wire_def emit_def aligned_def flushed_def send_ok_def butlast_append even_nat_iff)
  next
    case flush
    then have "sb_wptr s < WBUF_SIZE"
      using assms(1,3) by (auto simp: length_wire aligned_def send_ok_def)
    with flush assms stored [OF assms(1) this, of "sb_pendings s"] show ?thesis
      by (auto simp: send_pulse_def add_send_buffer_def wire_def emit_def aligned_def flushed_def send_ok_def even_nat_iff)
  next
    case idle
    with assms show ?thesis
      by (auto simp: send_pulse_def wire_def emit_def aligned_def flushed_def send_ok_def even_nat_iff)
  qed
qed

lemma space_refines:
  assumes "aligned s" and "\<not> flushed s" and "0 < d" and "length (wire s) \<le> 2048"
    and "even (length (wire s)) \<Longrightarrow> in32 (last (wire s) + d)"
  shows "wire (exec (send_space d) s) = emit False d (wire s) \<and> aligned (exec (send_space d) s) \<and>
    \<not> flushed (exec (send_space d) s)"
proof -
  consider (merge) "sb_pendingp s = 0" "sb_pendings s > 0" "odd (sb_wptr s)"
    | (flush) "sb_pendingp s > 0" "sb_pendings s = 0" "even (sb_wptr s)"
    | (idle) "sb_pendingp s = 0" "sb_pendings s = 0" "sb_wptr s = 0"
    using assms(1,2) unfolding aligned_def flushed_def send_ok_def by linarith
  then show ?thesis
  proof cases
    case merge
    then have "add32 (sb_pendings s) d = sb_pendings s + d"
      using assms(5) length_wire [OF assms(1)] assms(1)
      by (simp add: wire_def add32_def small even_nat_iff aligned_def send_ok_def)
    with merge assms show ?thesis
      by (auto simp: send_space_def wire_def emit_def aligned_def flushed_def send_ok_def butlast_append even_nat_iff)
  next
    case flush
    then have "sb_wptr s < WBUF_SIZE"
      using assms(1,4) by (auto simp: length_wire aligned_def send_ok_def)
    with flush assms stored [OF assms(1) this, of "sb_pendingp s"] show ?thesis
      by (auto simp: send_space_def add_send_buffer_def wire_def emit_def aligned_def flushed_def send_ok_def even_nat_iff)
  next
    case idle
    with assms show ?thesis
      by (auto simp: send_space_def wire_def emit_def aligned_def flushed_def send_ok_def)
  qed
qed




text \<open>The running sum is that of the stored durations, with the machine's wrap-around.\<close>

definition summed :: "tx \<Rightarrow> bool" where
  "summed s \<longleftrightarrow> sb_sum s = i32 (sum_list (take (nat (sb_wptr s)) (sb_data s)))"

lemma i32_add: "i32 (i32 a + b) = i32 (a + b)"
proof -
  have "signed_take_bit 31 (signed_take_bit 31 a + b)
      = signed_take_bit 31 (signed_take_bit 31 (signed_take_bit 31 a) + signed_take_bit 31 b)"
    by (rule signed_take_bit_add [symmetric])
  also have "\<dots> = signed_take_bit 31 (a + b)"
    by (simp add: signed_take_bit_add)
  finally show ?thesis by (simp add: i32_def)
qed

lemma summed_add:
  "aligned s \<Longrightarrow> summed s \<Longrightarrow> sb_wptr s < WBUF_SIZE \<Longrightarrow> summed (exec (add_send_buffer d) s)"
  using stored [of s d] by (simp add: summed_def add_send_buffer_def add32_def i32_add)

lemma summed_steps:
  assumes "aligned s" and "summed s" and "length (wire s) \<le> 2048"
  shows "summed (exec (send_pulse d) s)" and "summed (exec (send_space d) s)"
proof -
  have "sb_wptr s < WBUF_SIZE" if "sb_pendingp s > 0 \<or> sb_pendings s > 0"
    using assms(1,3) that by (auto simp: length_wire aligned_def send_ok_def)
  with assms summed_add [OF assms(1,2)] show "summed (exec (send_pulse d) s)" "summed (exec (send_space d) s)"
    by (simp_all add: send_pulse_def send_space_def run_bind summed_def del: run_state_bind)
qed

subsection \<open>Writing cells\<close>

text \<open>
  What the encoder needs of the buffer: a pulse at an even position and a space at an odd one are
  appended, as long as there is room.
\<close>

locale signal_writer =
  fixes pulse space :: "lirc_t \<Rightarrow> ('s, unit) state" and out :: "'s \<Rightarrow> lirc_t list"
    and ok :: "'s \<Rightarrow> bool" and room :: nat
  assumes out_pulse: "ok s \<Longrightarrow> 0 < d \<Longrightarrow> even (length (out s)) \<Longrightarrow> length (out s) < room \<Longrightarrow>
      out (exec (pulse d) s) = out s @ [d] \<and> ok (exec (pulse d) s)"
    and out_space: "ok s \<Longrightarrow> 0 < d \<Longrightarrow> odd (length (out s)) \<Longrightarrow> length (out s) < room \<Longrightarrow>
      out (exec (space d) s) = out s @ [d] \<and> ok (exec (space d) s)"
begin

lemma out_pair:
  assumes "ok s" and "0 < a" and "0 < b" and "even (length (out s))" and "length (out s) + 2 \<le> room"
  shows "out (exec (do { pulse a; space b }) s) = out s @ [a, b] \<and> ok (exec (do { pulse a; space b }) s)"
proof -
  have "out (exec (pulse a) s) = out s @ [a] \<and> ok (exec (pulse a) s)"
    using assms by (intro out_pulse) simp_all
  moreover from this have "out (exec (space b) (exec (pulse a) s)) = out (exec (pulse a) s) @ [b] \<and>
      ok (exec (space b) (exec (pulse a) s))"
    using assms by (intro out_space) simp_all
  ultimately show ?thesis
    by (simp add: run_bind del: run_state_bind)
qed

end

interpretation writer: signal_writer send_pulse send_space wire "\<lambda>s. aligned s \<and> summed s" 2048
proof unfold_locales
  fix s and d :: int
  assume s: "aligned s \<and> summed s" "0 < d" "length (wire s) < 2048"
  show "wire (exec (send_pulse d) s) = wire s @ [d] \<and> aligned (exec (send_pulse d) s) \<and> summed (exec (send_pulse d) s)"
    if "even (length (wire s))"
    using s that pulse_refines [of s d] summed_steps [of s d] by (simp add: emit_def)
  show "wire (exec (send_space d) s) = wire s @ [d] \<and> aligned (exec (send_space d) s) \<and> summed (exec (send_space d) s)"
    if "odd (length (wire s))"
  proof -
    have "\<not> flushed s"
      using that s(1) length_wire [of s] by (auto simp: flushed_def even_nat_iff)
    with s that space_refines [of s d] summed_steps [of s d] show ?thesis by (simp add: emit_def)
  qed
qed


subsection \<open>The signal of a space-encoded remote\<close>

text \<open>
  The usual space-encoded remote: a header or none, data bits that end with a trailing pulse, no
  toggle bits, no lead, foot or separators, and field widths that fit into a code.
\<close>

definition space_coded :: "ir_remote \<Rightarrow> bool" where
  "space_coded rem \<longleftrightarrow> is_space_enc rem \<and> \<not> has_flag rem NO_HEAD_REP \<and>
     r_rc6_mask rem = 0 \<and> r_toggle_bit_mask rem = 0 \<and> r_toggle_mask rem = 0 \<and>
     0 < r_pone rem \<and> 0 < r_sone rem \<and> 0 < r_pzero rem \<and> 0 < r_szero rem \<and> 0 < r_ptrail rem \<and>
     (0 < r_phead rem \<and> 0 < r_shead rem \<or> r_phead rem = 0 \<and> r_shead rem = 0) \<and>
     r_plead rem = 0 \<and> r_pfoot rem = 0 \<and> r_pre_p rem = 0 \<and> r_post_p rem = 0 \<and>
     0 \<le> r_pre_data_bits rem \<and> 0 < r_bits rem \<and> 0 \<le> r_post_data_bits rem \<and>
     r_pre_data_bits rem + r_bits rem + r_post_data_bits rem < 64"

lemma space_coded_protocol:
  assumes "space_coded rem"
  shows "protocol rem = SPACE_ENC" "\<not> is_biphase rem" "\<not> is_space_first rem" "\<not> is_rcmm rem"
    "\<not> is_xmp rem" "\<not> is_goldstar rem" "\<not> is_grundig rem" "\<not> is_serial rem" "\<not> is_bo rem" "\<not> is_raw rem"
  using assms
  by (simp_all add: space_coded_def is_space_enc_def is_biphase_def is_rc5_def is_rc6_def
      is_space_first_def is_rcmm_def is_xmp_def is_goldstar_def is_grundig_def is_serial_def is_bo_def is_raw_def)

definition cell :: "ir_remote \<Rightarrow> bool \<Rightarrow> lirc_t list" where
  "cell rem b = (if b then [r_pone rem, r_sone rem] else [r_pzero rem, r_szero rem])"

text \<open>The bits of a field, most significant first.\<close>

definition field_bits :: "ir_code \<Rightarrow> int \<Rightarrow> bool list" where
  "field_bits data bits = map (bit data) (rev [0..<nat bits])"

definition cells :: "ir_remote \<Rightarrow> bool list \<Rightarrow> lirc_t list" where
  "cells rem bs = concat (map (cell rem) bs)"

definition all_bits :: "ir_remote \<Rightarrow> ir_code \<Rightarrow> bool list" where
  "all_bits rem code = field_bits (r_pre_data rem) (r_pre_data_bits rem) @ field_bits code (r_bits rem) @
     field_bits (r_post_data rem) (r_post_data_bits rem)"

definition plain_signal :: "ir_remote \<Rightarrow> ir_code \<Rightarrow> lirc_t list" where
  "plain_signal rem code =
     (if has_header rem then [r_phead rem, r_shead rem] else []) @ cells rem (all_bits rem code) @ [r_ptrail rem]"

lemma length_cells [simp]: "length (cells rem bs) = 2 * length bs"
  by (induction bs) (simp_all add: cells_def cell_def)

lemma length_field_bits [simp]: "length (field_bits data bits) = nat bits"
  by (simp add: field_bits_def)

lemma cells_append: "cells rem (xs @ ys) = cells rem xs @ cells rem ys"
  by (simp add: cells_def)

lemma field_bits_reverse:
  assumes "0 \<le> bits" and "bits \<le> 64"
  shows "map (bit (reverse data bits)) [0..<nat bits] = field_bits data bits"
proof (rule nth_equalityI)
  fix i assume "i < length (map (bit (reverse data bits)) [0..<nat bits])"
  then have i: "i < nat bits" by simp
  then have "rev [0..<nat bits] ! i = nat bits - Suc i"
    by (simp add: rev_nth)
  moreover have "nat (bits - 1 - int i) = nat bits - Suc i"
    using i by simp
  moreover have "int i < bits" using i by simp
  ultimately show "map (bit (reverse data bits)) [0..<nat bits] ! i = field_bits data bits ! i"
    using i assms by (simp add: field_bits_def bit_reverse)
qed simp

lemma bits_of_shift: "map (bit (data :: ir_code)) [0..<Suc n] = bit data 0 # map (bit (drop_bit 1 data)) [0..<n]"
  by (simp add: upt_conv_Cons map_Suc_upt [symmetric] bit_drop_bit_eq del: upt_Suc)

text \<open>What a step writes: \<open>xs\<close> is appended to an even wire.\<close>

definition writes :: "(tx, unit) state \<Rightarrow> lirc_t list \<Rightarrow> bool" where
  "writes m xs \<longleftrightarrow> (\<forall>s. aligned s \<longrightarrow> summed s \<longrightarrow> even (length (wire s)) \<longrightarrow> length (wire s) + length xs \<le> 2048 \<longrightarrow>
     wire (exec m s) = wire s @ xs \<and> aligned (exec m s) \<and> summed (exec m s))"

lemma writes_nothing: "writes (ret ()) []"
  by (simp add: writes_def)

lemma writes_pair: "0 < a \<Longrightarrow> 0 < b \<Longrightarrow> writes (do { send_pulse a; send_space b }) [a, b]"
  using writer.out_pair [of _ a b] by (simp add: writes_def)

lemma writes_pulse: "0 < a \<Longrightarrow> writes (send_pulse a) [a]"
  using writer.out_pulse [of _ a] by (simp add: writes_def)

lemma writes_then:
  assumes "writes m xs" and "\<And>u. writes (f u) ys" and "even (length xs)" and "zs = xs @ ys"
  shows "writes (m \<bind> f) zs"
  using assms by (simp add: writes_def run_bind del: run_state_bind)

lemma writes_bits:
  assumes "space_coded rem"
  shows "writes (send_bits_loop rem n m data) (cells rem (map (bit data) [0..<n]))"
proof (induction n arbitrary: m data)
  case 0
  then show ?case by (simp add: writes_nothing cells_def)
next
  case (Suc n)
  have t: "toggle_data rem m data = data"
    using assms by (simp add: toggle_data_def has_toggle_bit_mask_def has_toggle_mask_def space_coded_def)
  have one: "data AND 1 \<noteq> 0 \<longleftrightarrow> bit data 0"
    by (simp add: and_one_eq bit_0 odd_iff_mod_2_eq_one)
  have "writes (send_bit rem m b) (cell rem b)" for b
    using assms space_coded_protocol [OF assms]
    by (auto simp: send_bit_def cell_def space_coded_def intro!: writes_pair)
  then have "writes (send_bit rem m (bit data 0) \<bind> (\<lambda>_. send_bits_loop rem n (drop_bit 1 m) (drop_bit 1 data)))
     (cells rem (map (bit data) [0..<Suc n]))"
    using Suc by (rule writes_then) (simp_all add: cell_def bits_of_shift cells_def del: upt_Suc)
  with t one show ?case by simp
qed

lemma writes_data:
  assumes "space_coded rem" and "0 \<le> bits" and "bits \<le> 64"
  shows "writes (send_data rem data bits fin) (cells rem (field_bits data bits))"
  using assms space_coded_protocol [OF assms(1)] writes_bits [OF assms(1), of "nat bits"]
  by (simp add: send_data_def field_bits_reverse [OF assms(2,3), symmetric])

lemma writes_code:
  assumes "space_coded rem"
  shows "writes (send_code rem code False) (plain_signal rem code)"
proof -
  note c = assms [unfolded space_coded_def]
  let ?h = "if has_header rem then [r_phead rem, r_shead rem] else []"
  let ?f = "\<lambda>data bits. cells rem (field_bits data bits)"
  have h: "writes (send_header rem) ?h"
    by (auto simp: send_header_def has_header_def intro: writes_pair writes_nothing)
  have l: "writes (send_lead rem) []"
    using c by (simp add: send_lead_def writes_nothing)
  have pre: "writes (send_pre rem) (?f (r_pre_data rem) (r_pre_data_bits rem))"
    using c writes_data [OF assms, of "r_pre_data_bits rem"]
    by (auto simp: send_pre_def has_pre_def field_bits_def cells_def writes_nothing)
  have data: "writes (send_data rem code (r_bits rem) (r_pre_data_bits rem)) (?f code (r_bits rem))"
    using c by (intro writes_data assms) auto
  have post: "writes (send_post rem) (?f (r_post_data rem) (r_post_data_bits rem))"
    using c writes_data [OF assms, of "r_post_data_bits rem"]
    by (auto simp: send_post_def has_post_def field_bits_def cells_def writes_nothing)
  have t: "writes (send_trail rem) [r_ptrail rem]"
    using c by (simp add: send_trail_def writes_pulse)
  have "writes (do { send_header rem; send_lead rem; send_pre rem;
      send_data rem code (r_bits rem) (r_pre_data_bits rem); send_post rem; send_trail rem })
    (?h @ [] @ ?f (r_pre_data rem) (r_pre_data_bits rem) @ ?f code (r_bits rem) @
     ?f (r_post_data rem) (r_post_data_bits rem) @ [r_ptrail rem])"
    by (intro writes_then [OF h] writes_then [OF l] writes_then [OF pre] writes_then [OF data]
        writes_then [OF post] t refl) (simp_all add: t)
  moreover have "send_foot rem = ret ()" "has_flag rem NO_HEAD_REP = False"
    using c by (simp_all add: send_foot_def has_foot_def)
  ultimately show ?thesis
    by (simp add: send_code_def plain_signal_def all_bits_def cells_append)
qed


definition signal_gap :: "ir_remote \<Rightarrow> ir_code \<Rightarrow> lirc_t" where
  "signal_gap rem code =
     (if is_const rem then min_gap rem - sum_list (plain_signal rem code) else min_gap rem)"

lemma plain_signal_positive: "space_coded rem \<Longrightarrow> d \<in> set (plain_signal rem code) \<Longrightarrow> 0 < d"
  by (auto simp: plain_signal_def cells_def cell_def space_coded_def has_header_def split: if_splits)

lemma plain_signal_length:
  assumes "space_coded rem"
  shows "length (plain_signal rem code) < 130" "odd (length (plain_signal rem code))"
  using assms by (auto simp: plain_signal_def all_bits_def space_coded_def)

lemma odd_wire_pending:
  assumes "aligned s" and "odd (length (wire s))"
  shows "sb_pendingp s > 0" "sb_pendings s = 0" "sb_wptr s = int (length (wire s)) - 1"
  using assms by (auto simp: length_wire aligned_def send_ok_def even_nat_iff split: if_splits)

lemma sync_wire:
  assumes "aligned s" and "summed s" and "odd (length (wire s))" and "length (wire s) < 2048"
  shows "exec sync_send_buffer s = s\<lparr>sb_data := (sb_data s)[length (wire s) - 1 := last (wire s)],
      sb_wptr := int (length (wire s)), sb_pendingp := 0, sb_sum := i32 (sum_list (wire s))\<rparr>"
    "take (length (wire s)) ((sb_data s)[length (wire s) - 1 := last (wire s)]) = wire s"
proof -
  note o = odd_wire_pending [OF assms(1,3)]
  have w: "wire s = take (nat (sb_wptr s)) (sb_data s) @ [sb_pendingp s]"
    using o by (simp add: wire_def)
  have lt: "sb_wptr s < 2048"
    using o(3) assms(4) by simp
  have st: "take (nat (sb_wptr s + 1)) ((sb_data s)[nat (sb_wptr s) := sb_pendingp s]) = wire s"
    using stored [OF assms(1) lt, of "sb_pendingp s"] by (simp only: w [symmetric])
  have n: "nat (sb_wptr s) = length (wire s) - 1" "sb_wptr s + 1 = int (length (wire s))"
    using o(3) by simp_all
  have l: "last (wire s) = sb_pendingp s"
    by (subst w) simp
  show "take (length (wire s)) ((sb_data s)[length (wire s) - 1 := last (wire s)]) = wire s"
    using st by (simp only: n l nat_int)
  have "add32 (sb_sum s) (sb_pendingp s) = i32 (sum_list (wire s))"
    using assms(2) by (subst w) (simp add: summed_def add32_def i32_add)
  then show "exec sync_send_buffer s = s\<lparr>sb_data := (sb_data s)[length (wire s) - 1 := last (wire s)],
      sb_wptr := int (length (wire s)), sb_pendingp := 0, sb_sum := i32 (sum_list (wire s))\<rparr>"
  proof -
    have r: "rmd (int (length (wire s))) 2 \<noteq> 0"
      using assms(3) by (simp add: rmd_nonneg) presburger
    have "exec (add_send_buffer (sb_pendingp s)) s = s\<lparr>sb_data := (sb_data s)[length (wire s) - 1 := last (wire s)],
      sb_wptr := int (length (wire s)), sb_sum := i32 (sum_list (wire s))\<rparr>"
      using lt n l \<open>add32 _ _ = _\<close> by (simp add: add_send_buffer_def)
    then show ?thesis
      using o(1) r by (simp add: sync_send_buffer_def run_bind del: run_state_bind)
  qed
qed

text \<open>The round that sends the signal once.\<close>

lemma plain_round:
  assumes "space_coded (tx_remote s)" and "n_next (tx_code s) = []" and "n_transmit_state (tx_code s) = None"
    and "aligned s" and "summed s" and "wire s = []" and "r_repeat_countdown (tx_remote s) \<le> 0"
    and gap: "0 < signal_gap (tx_remote s) (n_code (tx_code s))" "max_gap (tx_remote s) < 2 ^ 31"
    and "\<not> has_repeat_gap (tx_remote s)"
    and small: "sum_list (plain_signal (tx_remote s) (n_code (tx_code s))) < 2 ^ 31"
  shows "\<exists>s'. run_state (init_send_round False) s = (Inl True, s') \<and>
    take (nat (sb_wptr s')) (sb_data s') =
      plain_signal (tx_remote s) (n_code (tx_code s)) @ [signal_gap (tx_remote s) (n_code (tx_code s))]"
proof -
  let ?rem = "tx_remote s"
  define sig where "sig = plain_signal ?rem (n_code (tx_code s))"
  note pl = plain_signal_length [OF assms(1), of "n_code (tx_code s)", folded sig_def]
  define s1 where "s1 = exec (send_code ?rem (n_code (tx_code s)) False) s"
  have s1: "wire s1 = sig" "aligned s1" "summed s1"
    using writes_code [OF assms(1), of "n_code (tx_code s)"] assms(4,5,6) pl(1)
    by (simp_all add: writes_def s1_def sig_def)
  have same: "tx_remote s1 = ?rem" "tx_code s1 = tx_code s"
    using tx_quiet.code [of "\<lambda>r. r" ?rem "n_code (tx_code s)" False]
    by (simp_all add: state_io_rel_def same_def s1_def)
  have run1: "run_state (send_signal False) s = (True, s1)"
    using space_coded_protocol [OF assms(1)] assms(1,3)
    by (simp add: send_signal_def s1_def run_bind has_toggle_mask_def space_coded_def del: run_state_bind)
  define s2 where "s2 = exec sync_send_buffer s1"
  note sy = sync_wire [OF s1(2,3), unfolded s1(1), folded s2_def]
  have s2: "s2 = s1\<lparr>sb_data := (sb_data s1)[length sig - 1 := last sig], sb_wptr := int (length sig),
      sb_pendingp := 0, sb_sum := i32 (sum_list sig)\<rparr>"
    "take (length sig) (sb_data s2) = sig"
    using sy pl by simp_all
  let ?g = "signal_gap ?rem (n_code (tx_code s))"
  have pos: "0 \<le> sum_list sig"
    using plain_signal_positive [OF assms(1), of _ "n_code (tx_code s)"]
    by (intro sum_list_nonneg) (simp add: sig_def less_imp_le)
  have sum: "sb_sum s2 = sum_list sig"
    using small pos by (simp add: s2(1) sig_def [symmetric] i32_id in32_def)
  have r2: "tx_remote s2 = ?rem" "tx_code s2 = tx_code s"
    using same by (simp_all add: s2(1))
  obtain rem' where run3: "run_state (set_remaining_gap False) s2 = (True, s2\<lparr>tx_remote := rem'\<rparr>)"
    and rem': "r_min_remaining_gap rem' = ?g" "r_repeat_countdown rem' = r_repeat_countdown ?rem"
  proof (cases "is_const ?rem")
    case False
    with r2 show thesis
      by (intro that [of "?rem\<lparr>r_min_remaining_gap := min_gap ?rem, r_max_remaining_gap := max_gap ?rem\<rparr>"])
        (simp_all add: set_remaining_gap_def set_tx_remote_def signal_gap_def)
  next
    case True
    then have g: "?g = min_gap ?rem - sum_list sig" "sum_list sig < min_gap ?rem"
      using gap(1) by (simp_all add: signal_gap_def sig_def)
    moreover have "in32 ?g"
      using g pos min_gap_le_max_gap [of ?rem] gap by (simp add: in32_def)
    ultimately have "sub32 (min_gap ?rem) (sum_list sig) = ?g"
      by (simp add: sub32_def i32_id)
    with True g(2) r2 sum show thesis
      by (intro that [of "?rem\<lparr>r_min_remaining_gap := ?g,
          r_max_remaining_gap := sub32 (max_gap ?rem) (sum_list sig)\<rparr>"])
        (simp_all add: set_remaining_gap_def set_tx_remote_def)
  qed
  define s3 where "s3 = s2\<lparr>tx_remote := rem', tx_code := (tx_code s)\<lparr>n_transmit_state := None\<rparr>\<rparr>"
  have b2: "sb_pendingp s2 = 0" "sb_pendings s2 = 0" "sb_wptr s2 = int (length sig)" "length (sb_data s2) = 2048"
      "\<not> sb_too_long s2"
    using s2 odd_wire_pending [OF s1(2)] s1 pl by (simp_all add: aligned_def send_ok_def)
  have nt: "next_transmit_state rem' (tx_code s) = None"
    using assms(2,3) by (simp add: next_transmit_state_def)
  define s4 where "s4 = s3\<lparr>sb_pendings := 0, sb_data := (sb_data s2)[length sig := ?g], sb_wptr := int (Suc (length sig)),
      sb_sum := add32 (sb_sum s2) ?g\<rparr>"
  have "exec (do { send_space ?g; flush_send_buffer }) s3 = s4"
    using b2 gap(1) pl by (auto simp: s3_def s4_def send_space_def flush_send_buffer_def add_send_buffer_def
        intro!: tx.equality)
  then have run4: "run_state (init_send_round False) s = round_end False s4"
    using run1 b2 run3 rem' nt r2 pl
    by (simp add: init_send_round_def run_end run_bind bad_send_buffer_def s2_def [symmetric] s3_def del: run_state_bind)
  have t4: "take (nat (sb_wptr s4)) (sb_data s4) = sig @ [?g]"
  proof -
    have "nat (1 + int (length sig)) = Suc (length sig)" by simp
    with s2(2) b2(4) pl(1) show ?thesis
      by (simp add: s4_def take_Suc_conv_app_nth)
  qed
  have "0 \<notin> set (sig @ [?g])"
    using plain_signal_positive [OF assms(1), of 0 "n_code (tx_code s)"] gap(1) by (auto simp: sig_def)
  then have "check_send_buffer s4"
    unfolding check_send_buffer_def t4 by (auto simp: list_all_iff s4_def intro: gr0I)
  moreover have "r_repeat_countdown (tx_remote s4) \<le> 0" "n_transmit_state (tx_code s4) = None"
    using rem'(2) assms(7) by (simp_all add: s4_def s3_def)
  ultimately have "run_state (init_send_round False) s = (Inl True, s4)"
    using run4 by (simp add: round_end_def)
  with t4 show ?thesis
    by (auto simp: sig_def)
qed


text \<open>The conditions under which a plain button is sent once, with its gap.\<close>

definition sendable :: "ir_remote \<Rightarrow> ir_ncode \<Rightarrow> bool" where
  "sendable rem code \<longleftrightarrow> space_coded rem \<and> n_next code = [] \<and> n_transmit_state code = None \<and>
     \<not> has_repeat_gap rem \<and> 0 < signal_gap rem (n_code code) \<and> max_gap rem < 2 ^ 31 \<and>
     sum_list (plain_signal rem (n_code code)) < 2 ^ 31"

lemma countdown_irrelevant:
  "space_coded (rem\<lparr>r_repeat_countdown := c\<rparr>) = space_coded rem"
  "plain_signal (rem\<lparr>r_repeat_countdown := c\<rparr>) code = plain_signal rem code"
  "signal_gap (rem\<lparr>r_repeat_countdown := c\<rparr>) code = signal_gap rem code"
  "sendable (rem\<lparr>r_repeat_countdown := c\<rparr>) nc = sendable rem nc"
proof -
  have "cell (rem\<lparr>r_repeat_countdown := c\<rparr>) = cell rem"
    by (simp add: fun_eq_iff cell_def)
  then show sig: "plain_signal (rem\<lparr>r_repeat_countdown := c\<rparr>) code = plain_signal rem code" for code
    by (simp add: plain_signal_def all_bits_def cells_def has_header_def)
  show sp: "space_coded (rem\<lparr>r_repeat_countdown := c\<rparr>) = space_coded rem"
    by (simp add: space_coded_def is_space_enc_def protocol_def has_flag_def)
  have gaps: "min_gap (rem\<lparr>r_repeat_countdown := c\<rparr>) = min_gap rem"
      "max_gap (rem\<lparr>r_repeat_countdown := c\<rparr>) = max_gap rem"
    by (simp_all add: min_gap_def max_gap_def)
  then show gap: "signal_gap (rem\<lparr>r_repeat_countdown := c\<rparr>) code = signal_gap rem code" for code
    by (simp add: signal_gap_def sig is_const_def has_flag_def)
  show "sendable (rem\<lparr>r_repeat_countdown := c\<rparr>) nc = sendable rem nc"
    by (simp add: sendable_def sp sig gap gaps has_repeat_gap_def)
qed

lemma plain_send:
  assumes "sendable (tx_remote s) (tx_code s)" and "r_min_repeat (tx_remote s) \<le> 0" and "length (sb_data s) = 2048"
  shows "\<exists>s'. init_send 0 s = Some (True, s') \<and>
    take (nat (sb_wptr s')) (sb_data s') =
      plain_signal (tx_remote s) (n_code (tx_code s)) @ [signal_gap (tx_remote s) (n_code (tx_code s))]"
proof -
  let ?s = "init_send_start 0 s"
  have st: "tx_remote ?s = (tx_remote s)\<lparr>r_repeat_countdown := 0\<rparr>" "tx_code ?s = tx_code s"
    using assms(2) by (simp_all add: init_send_start_def)
  have ok: "aligned ?s" "summed ?s" "wire ?s = []"
    using assms(3) by (simp_all add: init_send_start_def aligned_def summed_def wire_def send_ok_def i32_id in32_def)
  have c: "sendable (tx_remote ?s) (tx_code ?s)"
    using assms(1) by (simp add: st countdown_irrelevant)
  have "\<exists>s'. run_state (init_send_round False) ?s = (Inl True, s') \<and>
    take (nat (sb_wptr s')) (sb_data s') =
      plain_signal (tx_remote ?s) (n_code (tx_code ?s)) @ [signal_gap (tx_remote ?s) (n_code (tx_code ?s))]"
    using c ok by (intro plain_round) (simp_all add: sendable_def st)
  then obtain s' where s': "run_state (init_send_round False) ?s = (Inl True, s')"
    "take (nat (sb_wptr s')) (sb_data s') =
      plain_signal (tx_remote s) (n_code (tx_code s)) @ [signal_gap (tx_remote s) (n_code (tx_code s))]"
    by (auto simp: st countdown_irrelevant)
  have "init_send_loop False ?s = Some (True, s')"
    using s'(1) by (subst init_send_loop.simps) simp
  moreover have "send_supported (tx_remote s)"
    using assms(1) space_coded_protocol [of "tx_remote s"] by (simp add: send_supported_def sendable_def)
  ultimately show ?thesis
    using s'(2) by (simp add: init_send_eq)
qed

text \<open>
  C11: the exact signal: for a space-encoded remote and a plain button, \<open>init_send\<close> succeeds and
  leaves in the buffer the header, a pulse/space pair for every bit of pre-data, code and post-data,
  most significant bit first, the trailing pulse, and the gap: the whole gap, or what a
  constant-length signal leaves of it.
\<close>

theorem init_send_plain:
  assumes "sendable (tx_remote s) (tx_code s)" and "r_min_repeat (tx_remote s) \<le> 0" and "length (sb_data s) = 2048"
  shows "\<exists>s'. init_send 0 s = Some (True, s') \<and>
    take (nat (sb_wptr s')) (sb_data s') =
      plain_signal (tx_remote s) (n_code (tx_code s)) @ [signal_gap (tx_remote s) (n_code (tx_code s))]"
  using assms by (rule plain_send)

lemma nec_sendable: "sendable nec_remote (nec_codes ! 0)"
  by code_simp

theorem init_send_plain_witness:
  "\<exists>s'. init_send 0 (idle_tx nec_remote (nec_codes ! 0)) = Some (True, s') \<and>
    take (nat (sb_wptr s')) (sb_data s') =
      [9000, 4500, 560, 1690, 560, 1690, 560, 560, 560, 560,
       560, 560, 560, 1690, 560, 560, 560, 1690, 560, 1690, 560, 560, 560, 560, 560, 1690, 560, 40000]"
proof -
  have "plain_signal nec_remote (n_code (nec_codes ! 0)) @ [signal_gap nec_remote (n_code (nec_codes ! 0))] =
      [9000, 4500, 560, 1690, 560, 1690, 560, 560, 560, 560,
       560, 560, 560, 1690, 560, 560, 560, 1690, 560, 1690, 560, 560, 560, 560, 560, 1690, 560, 40000]"
    by code_simp
  moreover have "sendable (tx_remote (idle_tx nec_remote (nec_codes ! 0))) (tx_code (idle_tx nec_remote (nec_codes ! 0)))"
    using nec_sendable by (simp add: idle_tx_def)
  ultimately show ?thesis
    using init_send_plain [of "idle_tx nec_remote (nec_codes ! 0)"]
    by (simp add: idle_tx_def nec_remote_def zero_remote_def)
qed


subsection \<open>Instances of the theorems on sending\<close>

abbreviation (input) sample_tx :: tx where
  "sample_tx \<equiv> idle_tx nec_remote (nec_codes ! 0)"

lemma sample_sent: "\<exists>s'. init_send 0 sample_tx = Some (True, s')"
  using plain_send [of sample_tx] nec_sendable
  by (auto simp: idle_tx_def nec_remote_def zero_remote_def)

theorem init_send_bounds_witness:
  "\<exists>s'. init_send 0 sample_tx = Some (True, s') \<and> length (sb_data s') = 2048 \<and> sb_wptr s' \<le> WBUF_SIZE"
proof -
  obtain s' where s': "init_send 0 sample_tx = Some (True, s')"
    using sample_sent by blast
  with init_send_bounds [OF s'] show ?thesis
    by (simp add: idle_tx_def)
qed

theorem init_send_frame_witness:
  "\<exists>s'. init_send 0 sample_tx = Some (True, s') \<and> settings (tx_remote s') = settings nec_remote"
proof -
  obtain s' where s': "init_send 0 sample_tx = Some (True, s')"
    using sample_sent by blast
  with init_send_frame [OF s'] show ?thesis
    by (simp add: idle_tx_def)
qed

theorem init_send_success_witness:
  "\<exists>s'. init_send 0 sample_tx = Some (True, s') \<and> 0 < sb_wptr s'"
proof -
  obtain s' where s': "init_send 0 sample_tx = Some (True, s')"
    using sample_sent by blast
  with init_send_success [OF s'] show ?thesis
    by (simp add: idle_tx_def)
qed

theorem init_send_returns_witness:
  "\<exists>ok s'. init_send 3 sample_tx = Some (ok, s')"
  by (rule init_send_returns)
    (simp_all add: idle_tx_def nec_remote_def zero_remote_def in32_def is_xmp_def protocol_def nec_codes_def)

theorem init_send_unsupported_witness:
  "init_send 3 (idle_tx (nec_remote\<lparr>r_flags := SERIAL\<rparr>) (nec_codes ! 0)) =
     Some (False, idle_tx (nec_remote\<lparr>r_flags := SERIAL\<rparr>) (nec_codes ! 0))"
  by (rule init_send_unsupported) (simp add: idle_tx_def is_serial_def protocol_def)

text \<open>An XMP remote whose code has a second part, and whose signal fits into no gap: it fails at once.\<close>

definition xmp_tx :: tx where
  "xmp_tx = idle_tx (zero_remote\<lparr>r_flags := XMP OR CONST_LENGTH\<rparr>) ((nec_codes ! 0)\<lparr>n_next := [0x12]\<rparr>)"

theorem init_send_xmp_multipart_witness:
  "\<exists>ok s'. init_send 0 xmp_tx = Some (ok, s') \<and> \<not> ok"
proof -
  have "\<exists>ok s'. init_send 0 xmp_tx = Some (ok, s')"
  proof -
    have "init_send 0 xmp_tx \<noteq> None"
      by code_simp
    then show ?thesis by auto
  qed
  then obtain ok s' where s': "init_send 0 xmp_tx = Some (ok, s')" by blast
  moreover have "is_xmp (tx_remote xmp_tx)" "n_next (tx_code xmp_tx) \<noteq> []"
    by (simp_all add: xmp_tx_def idle_tx_def is_xmp_def protocol_def)
  ultimately show ?thesis
    using init_send_xmp_multipart [of xmp_tx 0 ok s'] by blast
qed

end
