(* ===== verification/RoundTrip.thy ===== *)
theory RoundTrip
  imports ReceiveLaws SendSignal
begin

text \<open>
  From \<open>init_send\<close> through the air to \<open>receive_decode\<close>: what the transmitter makes of a button of
  a space-encoded remote, the decoder of the same remote takes apart into the same pre-data, code
  and post-data.

  The reading side is proved for any \<open>sample_source\<close>: \<open>here\<close> says that the decoder has read
  \<open>old\<close> and will read \<open>new\<close>, what is pending, and how much the signal has summed up to; each
  primitive of the receive buffer moves that point, and \<open>bits_loop\<close>, \<open>get_header\<close> and the rest
  are followed along the list of samples.
\<close>

subsection \<open>Samples on the air\<close>

definition flag_pulse :: "lirc_t \<Rightarrow> lirc_t" where
  "flag_pulse d = d OR PULSE_BIT"

text \<open>A receiver reports the durations of a signal with \<open>PULSE_BIT\<close> set on every other one.\<close>

fun air :: "lirc_t list \<Rightarrow> lirc_t list" where
  "air [] = []"
| "air [p] = [flag_pulse p]"
| "air (p # sp # rest) = flag_pulse p # sp # air rest"

text \<open>The samples of a run of durations, from the given polarity on.\<close>

fun marked :: "bool \<Rightarrow> lirc_t list \<Rightarrow> lirc_t list" where
  "marked p [] = []"
| "marked p (d # ds) = (if p then flag_pulse d else d) # marked (\<not> p) ds"

lemma air_marked: "air ds = marked True ds"
  by (induction ds rule: air.induct) simp_all

lemma length_marked [simp]: "length (marked p ds) = length ds"
  by (induction ds arbitrary: p) simp_all

lemma length_air [simp]: "length (air ds) = length ds"
  by (simp add: air_marked)

lemma marked_append: "marked p (xs @ ys) = marked p xs @ marked (p = even (length xs)) ys"
proof (induction xs arbitrary: p)
  case (Cons x xs)
  have "((\<not> p) = even (length xs)) = (p = even (length (x # xs)))" by auto
  with Cons show ?case by (simp only: append_Cons marked.simps)
qed simp

definition lasting :: "lirc_t \<Rightarrow> bool" where
  "lasting d \<longleftrightarrow> 0 < d \<and> d \<le> PULSE_MASK"

lemma lasting_take: "lasting d \<Longrightarrow> d AND PULSE_MASK = d"
proof -
  assume "lasting d"
  then have "take_bit 24 d = d"
    by (simp add: lasting_def take_bit_int_eq_self)
  moreover have "PULSE_MASK = mask 24"
    by (simp add: mask_eq_exp_minus_1)
  ultimately show ?thesis
    by (simp only: take_bit_eq_mask)
qed

lemma lasting_bit: "lasting d \<Longrightarrow> d AND PULSE_BIT = 0"
proof -
  assume "lasting d"
  then have "d AND PULSE_BIT = (d AND PULSE_MASK) AND PULSE_BIT"
    by (simp only: lasting_take)
  also have "\<dots> = d AND (PULSE_MASK AND PULSE_BIT)"
    by (simp only: and.assoc)
  finally show ?thesis by simp
qed

lemma lasting_sample:
  assumes "lasting d"
  shows "\<not> is_pulse d" "is_pulse (flag_pulse d)" "flag_pulse d AND PULSE_MASK = d" "flag_pulse d \<noteq> 0" "d \<noteq> 0"
    "d AND PULSE_MASK = d"
proof -
  show "\<not> is_pulse d"
    by (simp add: is_pulse_def lasting_bit [OF assms])
  show "flag_pulse d AND PULSE_MASK = d" "d AND PULSE_MASK = d"
    using lasting_take [OF assms] by (simp_all add: flag_pulse_def bit.conj_disj_distrib2)
  show "is_pulse (flag_pulse d)"
    using lasting_bit [OF assms] by (simp add: flag_pulse_def is_pulse_def bit.conj_disj_distrib2)
  then show "flag_pulse d \<noteq> 0"
    by (auto simp: is_pulse_def)
  show "d \<noteq> 0"
    using assms by (simp add: lasting_def)
qed

lemma lasting_duration: "lasting d \<Longrightarrow> duration d"
  by (simp add: lasting_def duration_def)

subsection \<open>A point in the signal\<close>

definition surroundings :: "'d rx \<Rightarrow> ir_remote list \<times> nat option \<times> bool \<times> bool" where
  "surroundings s = (rx_remotes s, rx_last_remote s, rx_ub s, rx_hang s)"

definition here ::
  "('d \<Rightarrow> lirc_t list) \<Rightarrow> ('d \<Rightarrow> bool) \<Rightarrow> ir_remote list \<times> nat option \<times> bool \<times> bool \<Rightarrow>
   lirc_t list \<Rightarrow> lirc_t list \<Rightarrow> lirc_t \<Rightarrow> lirc_t \<Rightarrow> int \<Rightarrow> 'd rx \<Rightarrow> bool" where
  "here coming sound env old new pp ps used s \<longleftrightarrow>
     signal_ok coming sound s \<and> signal coming s = old @ new \<and> rb_rptr s = int (length old) \<and>
     rb_pendingp s = pp \<and> rb_pendings s = ps \<and> rb_sum s = i32 used \<and> surroundings s = env"

lemma i32_sub: "i32 (i32 a - b) = i32 (a - b)"
  using i32_add [of a "- b"] by simp

context sample_source
begin

abbreviation "at env \<equiv> here coming sound env"

lemma next_here:
  assumes "at env old (x # new) pp ps used s" and "length old < 256"
  shows "\<exists>s'. run_state (get_next_rec_buffer hw t) s = (x, s') \<and>
    at env (old @ [x]) new pp ps (used + (x AND PULSE_MASK)) s'"
proof -
  have ok: "signal_ok coming sound s" "nat (rb_rptr s) < length (signal coming s)" "0 \<le> rb_rptr s" "rb_rptr s < 256"
    and x: "signal coming s ! nat (rb_rptr s) = x"
    using assms by (simp_all add: here_def)
  from read_sample [OF ok, of t] x obtain s' where s': "run_state (get_next_rec_buffer hw t) s = (x, s')"
    "signal_ok coming sound s'" "signal coming s' = signal coming s"
    and eq: "s' = s\<lparr>rx_dev := rx_dev s', rb_data := rb_data s', rb_wptr := rb_wptr s', rb_rptr := rb_rptr s + 1,
       rb_sum := add32 (rb_sum s) (x AND PULSE_MASK)\<rparr>"
    by metis
  have "rb_rptr s' = rb_rptr s + 1" "rb_sum s' = add32 (rb_sum s) (x AND PULSE_MASK)"
    "rb_pendingp s' = rb_pendingp s" "rb_pendings s' = rb_pendings s" "surroundings s' = surroundings s"
    by (subst eq, simp add: surroundings_def)+
  with s' assms show ?thesis
    by (auto simp: here_def add32_def i32_add)
qed

lemma unget_here:
  assumes "at env (old @ [x]) new pp ps (used + (x AND PULSE_MASK)) s" and "length old < 256"
  shows "\<exists>s'. run_state (unget_rec_buffer 1) s = ((), s') \<and> at env old (x # new) pp ps used s'"
proof -
  have h: "signal_ok coming sound s" "signal coming s = old @ x # new" "rb_rptr s = int (length old) + 1"
    "surroundings s = env" "rb_sum s = i32 (used + (x AND PULSE_MASK))" "rb_pendingp s = pp" "rb_pendings s = ps"
    using assms by (simp_all add: here_def)
  then have w: "int (length old) < rb_wptr s" "length (rb_data s) = 256" "rb_wptr s \<le> 256"
    by (simp_all add: signal_ok_def buf_ok_def)
  have "rb_data s ! length old = x"
  proof -
    have "signal coming s ! length old = rb_data s ! length old"
      using w by (auto simp: signal_def nth_append)
    with h(2) show ?thesis by simp
  qed
  with h w assms(2) show ?thesis
    by (simp add: unget_rec_buffer_def data_at_def in_data_def sub_sum_def here_def surroundings_def
        signal_ok_def buf_ok_def signal_def sub32_def i32_sub)
qed

lemma unget2_here:
  assumes "at env (old @ [x, y]) new pp ps (used + (x AND PULSE_MASK) + (y AND PULSE_MASK)) s"
    and "Suc (length old) < 256"
  shows "\<exists>s'. run_state (unget_rec_buffer 2) s = ((), s') \<and> at env old (x # y # new) pp ps used s'"
proof -
  have h: "signal_ok coming sound s" "signal coming s = old @ x # y # new" "rb_rptr s = int (length old) + 2"
    "surroundings s = env" "rb_sum s = i32 (used + (x AND PULSE_MASK) + (y AND PULSE_MASK))"
    "rb_pendingp s = pp" "rb_pendings s = ps"
    using assms by (simp_all add: here_def)
  then have w: "int (length old) + 1 < rb_wptr s" "length (rb_data s) = 256" "rb_wptr s \<le> 256"
    by (simp_all add: signal_ok_def buf_ok_def)
  have "rb_data s ! length old = x \<and> rb_data s ! Suc (length old) = y"
  proof -
    have "length old < nat (rb_wptr s)" "Suc (length old) < nat (rb_wptr s)"
      using w(1) by linarith+
    then have "signal coming s ! length old = rb_data s ! length old"
      "signal coming s ! Suc (length old) = rb_data s ! Suc (length old)"
      using w by (simp_all add: signal_def nth_append)
    with h(2) show ?thesis by (simp add: nth_append)
  qed
  moreover have "nat (int (length old) + 1) = Suc (length old)" by simp
  ultimately show ?thesis
    using h w assms(2)
    by (simp add: unget_rec_buffer_def data_at_def in_data_def sub_sum_def here_def surroundings_def
        signal_ok_def buf_ok_def signal_def sub32_def i32_sub)
qed

lemma set_pending_here:
  assumes "at env old new pp ps used s"
  shows "\<exists>s'. run_state (set_pending_pulse t) s = ((), s') \<and> at env old new t ps used s'"
    and "\<exists>s'. run_state (set_pending_space t) s = ((), s') \<and> at env old new pp t used s'"
  using assms
  by (simp_all add: set_pending_pulse_def set_pending_space_def here_def surroundings_def signal_ok_def
      buf_ok_def signal_def)

lemma pulse_here:
  assumes "at env old (flag_pulse d # new) pp ps used s" and "length old < 256" and "lasting d"
  shows "\<exists>s'. run_state (get_next_pulse hw t) s = (d, s') \<and> at env (old @ [flag_pulse d]) new pp ps (used + d) s'"
  using next_here [OF assms(1,2), of t] lasting_sample [OF assms(3)]
  by (auto simp: get_next_pulse_def)

lemma space_here:
  assumes "at env old (d # new) pp ps used s" and "length old < 256" and "lasting d"
  shows "\<exists>s'. run_state (get_next_space hw t) s = (d, s') \<and> at env (old @ [d]) new pp ps (used + d) s'"
  using next_here [OF assms(1,2), of t] lasting_sample [OF assms(3)]
  by (auto simp: get_next_space_def is_space_def)

text \<open>The space that is still pending when the next pulse is looked for.\<close>

definition due :: "lirc_t \<Rightarrow> lirc_t list" where
  "due ps = (if ps > 0 then [ps] else [])"

lemma length_due: "length (due ps) \<le> 1"
  by (simp add: due_def)

lemma due_0 [simp]: "due 0 = []"
  by (simp add: due_def)

lemma expectpulse_here:
  assumes "at env old (due ps @ flag_pulse d # new) 0 ps used s" and "length old < 255" and "lasting d"
    and "ps = 0 \<or> lasting ps" and "sane_eps rem"
  shows "\<exists>s'. run_state (expectpulse hw rem ex) s = (expect rem d ex, s') \<and>
    at env (old @ due ps @ [flag_pulse d]) new 0 0 (used + ps + d) s'"
proof (cases "ps = 0")
  case True
  with assms(1) have p: "rb_pendingp s = 0" "rb_pendings s = 0"
    by (simp_all add: here_def)
  from pulse_here [of env old d new 0 0 used s "add32 0 ex"] assms True obtain s' where
    "run_state (get_next_pulse hw (add32 0 ex)) s = (d, s')" "at env (old @ [flag_pulse d]) new 0 0 (used + d) s'"
    by (auto simp: due_def)
  with p True lasting_sample [OF assms(3)] show ?thesis
    by (simp add: expectpulse_def sync_pending_space_def due_def)
next
  case False
  with assms(4) have ps: "lasting ps" "ps > 0" by (simp_all add: lasting_def)
  with assms(1) have p: "rb_pendingp s = 0" "rb_pendings s = ps"
    by (simp_all add: here_def)
  from space_here [of env old ps "flag_pulse d # new" 0 ps used s ps] assms ps obtain s1 where
    s1: "run_state (get_next_space hw ps) s = (ps, s1)" "at env (old @ [ps]) (flag_pulse d # new) 0 ps (used + ps) s1"
    by (auto simp: due_def)
  from set_pending_here(2) [OF s1(2), of 0] obtain s2 where
    s2: "run_state (set_pending_space 0) s1 = ((), s2)" "at env (old @ [ps]) (flag_pulse d # new) 0 0 (used + ps) s2"
    by blast
  from pulse_here [OF s2(2) _ assms(3), of "add32 0 ex"] assms(2) obtain s3 where
    s3: "run_state (get_next_pulse hw (add32 0 ex)) s2 = (d, s3)"
      "at env ((old @ [ps]) @ [flag_pulse d]) new 0 0 (used + ps + d) s3"
    by auto
  have "expect rem ps ps"
    using expect_refl [OF assms(5)] ps(1) lasting_duration by blast
  moreover have "rb_pendingp s2 = 0"
    using s2(2) by (simp add: here_def)
  ultimately show ?thesis
    using p ps s1(1) s2(1) s3 lasting_sample [OF assms(3)]
    by (simp add: expectpulse_def sync_pending_space_def due_def)
qed

lemma expectspace_here:
  assumes "at env old (d # new) 0 0 used s" and "length old < 256" and "lasting d"
  shows "\<exists>s'. run_state (expectspace hw rem ex) s = (expect rem d ex, s') \<and>
    at env (old @ [d]) new 0 0 (used + d) s'"
proof -
  from assms(1) have p: "rb_pendingp s = 0" "rb_pendings s = 0"
    by (simp_all add: here_def)
  from space_here [OF assms, of "add32 0 ex"] obtain s' where
    "run_state (get_next_space hw (add32 0 ex)) s = (d, s')" "at env (old @ [d]) new 0 0 (used + d) s'"
    by blast
  with p lasting_sample [OF assms(3)] show ?thesis
    by (simp add: expectspace_def sync_pending_pulse_def)
qed

end

subsection \<open>Bits\<close>

text \<open>
  A receiver can tell the cell of a zero from that of a one, with the tolerances the remote has.
\<close>

definition timings_ok :: "ir_remote \<Rightarrow> bool" where
  "timings_ok rem \<longleftrightarrow> sane_eps rem \<and> lasting (r_pone rem) \<and> lasting (r_sone rem) \<and> lasting (r_pzero rem) \<and>
     lasting (r_szero rem) \<and> lasting (r_ptrail rem) \<and>
     (has_header rem \<longrightarrow> lasting (r_phead rem) \<and> lasting (r_shead rem)) \<and>
     \<not> (expect rem (r_pzero rem) (r_pone rem) \<and> expect rem (r_szero rem) (r_sone rem))"

definition air_cell :: "ir_remote \<Rightarrow> bool \<Rightarrow> lirc_t list" where
  "air_cell rem b = (if b then [flag_pulse (r_pone rem), r_sone rem] else [flag_pulse (r_pzero rem), r_szero rem])"

definition cell_sum :: "ir_remote \<Rightarrow> bool list \<Rightarrow> int" where
  "cell_sum rem bs = sum_list (cells rem bs)"

definition bits_value :: "bool list \<Rightarrow> ir_code \<Rightarrow> ir_code" where
  "bits_value bs c = fold (\<lambda>b c. if b then shl64 c 1 OR 1 else shl64 c 1) bs c"

lemma length_air_cell [simp]: "length (air_cell rem b) = 2"
  by (simp add: air_cell_def)

lemma expect_same: "timings_ok rem \<Longrightarrow> lasting t \<Longrightarrow> expect rem t t"
  using expect_refl lasting_duration by (auto simp: timings_ok_def)

context sample_source
begin

lemma one_here:
  assumes c: "space_coded rem" "timings_ok rem" and len: "length old < 250" and ps: "ps = 0 \<or> lasting ps"
    and s: "at env old (due ps @ air_cell rem True @ new) 0 ps used s"
  shows "\<exists>s'. run_state (expectone hw rem i) s = (True, s') \<and>
    at env (old @ due ps @ air_cell rem True) new 0 0 (used + ps + r_pone rem + r_sone rem) s'"
proof -
  note k = c(1) [unfolded space_coded_def] and t = c(2) [unfolded timings_ok_def]
  from expectpulse_here [of env old ps "r_pone rem" "r_sone rem # new" used s rem "r_pone rem"] s len ps t
  obtain s1 where s1: "run_state (expectpulse hw rem (r_pone rem)) s = (True, s1)"
    "at env (old @ due ps @ [flag_pulse (r_pone rem)]) (r_sone rem # new) 0 0 (used + ps + r_pone rem) s1"
    using expect_same [OF c(2)] by (auto simp: air_cell_def)
  from expectspace_here [OF s1(2), of rem "r_sone rem"] len t
  obtain s2 where s2: "run_state (expectspace hw rem (r_sone rem)) s1 = (True, s2)"
    "at env (old @ due ps @ air_cell rem True) new 0 0 (used + ps + r_pone rem + r_sone rem) s2"
    using expect_same [OF c(2)] length_due [of ps] by (auto simp: air_cell_def)
  from s1(1) s2 k space_coded_protocol [OF c(1)] show ?thesis
    by (simp add: expectone_def)
qed

lemma not_one_here:
  assumes c: "space_coded rem" "timings_ok rem" and len: "length old < 250" and ps: "ps = 0 \<or> lasting ps"
    and s: "at env old (due ps @ air_cell rem False @ new) 0 ps used s"
  shows "\<exists>s'. run_state (expectone hw rem i) s = (False, s') \<and>
    at env (old @ due ps) (air_cell rem False @ new) 0 0 (used + ps) s'"
proof -
  note k = c(1) [unfolded space_coded_def] and t = c(2) [unfolded timings_ok_def]
  let ?p = "flag_pulse (r_pzero rem)"
  have m: "?p AND PULSE_MASK = r_pzero rem" "r_szero rem AND PULSE_MASK = r_szero rem"
    using lasting_sample t by blast+
  from expectpulse_here [of env old ps "r_pzero rem" "r_szero rem # new" used s rem "r_pone rem"] s len ps t
  obtain s1 where s1: "run_state (expectpulse hw rem (r_pone rem)) s = (expect rem (r_pzero rem) (r_pone rem), s1)"
    "at env (old @ due ps @ [?p]) (r_szero rem # new) 0 0 (used + ps + r_pzero rem) s1"
    by (auto simp: air_cell_def)
  show ?thesis
  proof (cases "expect rem (r_pzero rem) (r_pone rem)")
    case False
    from unget_here [of env "old @ due ps" ?p "r_szero rem # new" 0 0 "used + ps" s1] s1(2) len m
    obtain s2 where "run_state (unget_rec_buffer 1) s1 = ((), s2)"
      "at env (old @ due ps) (?p # r_szero rem # new) 0 0 (used + ps) s2"
      using length_due [of ps] by auto
    with False s1(1) k space_coded_protocol [OF c(1)] show ?thesis
      by (simp add: expectone_def air_cell_def)
  next
    case True
    with t have no: "\<not> expect rem (r_szero rem) (r_sone rem)" by simp
    from expectspace_here [OF s1(2), of rem "r_sone rem"] len t no
    obtain s2 where s2: "run_state (expectspace hw rem (r_sone rem)) s1 = (False, s2)"
      "at env ((old @ due ps) @ [?p, r_szero rem]) new 0 0 (used + ps + r_pzero rem + r_szero rem) s2"
      using length_due [of ps] by auto
    from unget2_here [of env "old @ due ps" ?p "r_szero rem" new 0 0 "used + ps" s2] s2(2) len m
    obtain s3 where "run_state (unget_rec_buffer 2) s2 = ((), s3)"
      "at env (old @ due ps) (?p # r_szero rem # new) 0 0 (used + ps) s3"
      using length_due [of ps] by auto
    with True s1(1) s2(1) k space_coded_protocol [OF c(1)] show ?thesis
      by (simp add: expectone_def air_cell_def)
  qed
qed

lemma zero_here:
  assumes c: "space_coded rem" "timings_ok rem" and len: "length old < 251"
    and s: "at env old (air_cell rem False @ new) 0 0 used s"
  shows "\<exists>s'. run_state (expectzero hw rem i) s = (True, s') \<and>
    at env (old @ air_cell rem False) new 0 0 (used + r_pzero rem + r_szero rem) s'"
proof -
  note k = c(1) [unfolded space_coded_def] and t = c(2) [unfolded timings_ok_def]
  from expectpulse_here [of env old 0 "r_pzero rem" "r_szero rem # new" used s rem "r_pzero rem"] s len t
  obtain s1 where s1: "run_state (expectpulse hw rem (r_pzero rem)) s = (True, s1)"
    "at env (old @ [flag_pulse (r_pzero rem)]) (r_szero rem # new) 0 0 (used + r_pzero rem) s1"
    using expect_same [OF c(2)] by (auto simp: air_cell_def due_def)
  from expectspace_here [OF s1(2), of rem "r_szero rem"] len t
  obtain s2 where s2: "run_state (expectspace hw rem (r_szero rem)) s1 = (True, s2)"
    "at env (old @ air_cell rem False) new 0 0 (used + r_pzero rem + r_szero rem) s2"
    using expect_same [OF c(2)] by (auto simp: air_cell_def)
  from s1(1) s2 k space_coded_protocol [OF c(1)] show ?thesis
    by (simp add: expectzero_def)
qed

lemma bits_here:
  assumes c: "space_coded rem" "timings_ok rem" and rem: "fst env ! r = rem"
  shows "length old + length (due ps) + 2 * length bs < 250 \<Longrightarrow> ps = 0 \<or> lasting ps \<Longrightarrow> bs \<noteq> [] \<Longrightarrow>
    at env old (due ps @ concat (map (air_cell rem) bs) @ new) 0 ps used s \<Longrightarrow>
    \<exists>s'. run_state (bits_loop hw r (length bs) pos code) s = (bits_value bs code, s') \<and>
      at env (old @ due ps @ concat (map (air_cell rem) bs)) new 0 0 (used + ps + cell_sum rem bs) s'"
proof (induction bs arbitrary: old ps used s pos code)
  case Nil
  then show ?case by simp
next
  case (Cons b bs)
  have r: "rx_remotes s ! r = rem"
    using Cons.prems(4) rem by (auto simp: here_def surroundings_def)
  have ng: "\<not> is_goldstar rem"
    using space_coded_protocol [OF c(1)] by simp
  let ?code = "if b then shl64 code 1 OR 1 else shl64 code 1"
  let ?rest = "concat (map (air_cell rem) bs) @ new"
  have "\<exists>s'. run_state (bits_loop hw r (length (b # bs)) pos code) s
        = run_state (bits_loop hw r (length bs) (pos + 1) ?code) s' \<and>
      at env (old @ due ps @ air_cell rem b) ?rest 0 0 (used + ps + cell_sum rem [b]) s'"
  proof (cases b)
    case True
    from one_here [OF c, of old ps env ?rest used s pos] Cons.prems True obtain s' where
      "run_state (expectone hw rem pos) s = (True, s')"
      "at env (old @ due ps @ air_cell rem True) ?rest 0 0 (used + ps + r_pone rem + r_sone rem) s'"
      by auto
    with True r ng show ?thesis
      by (auto simp: remote_at_def cell_sum_def cells_def cell_def add.assoc Let_def)
  next
    case False
    from not_one_here [OF c, of old ps env ?rest used s pos] Cons.prems False obtain s1 where
      s1: "run_state (expectone hw rem pos) s = (False, s1)"
      "at env (old @ due ps) (air_cell rem False @ ?rest) 0 0 (used + ps) s1"
      by auto
    from zero_here [OF c _ s1(2), of pos] Cons.prems(1) obtain s' where
      "run_state (expectzero hw rem pos) s1 = (True, s')"
      "at env ((old @ due ps) @ air_cell rem False) ?rest 0 0 (used + ps + r_pzero rem + r_szero rem) s'"
      using length_due [of ps] by auto
    with False r ng s1(1) show ?thesis
      by (auto simp: remote_at_def cell_sum_def cells_def cell_def add.assoc Let_def)
  qed
  then obtain s1 where s1: "run_state (bits_loop hw r (length (b # bs)) pos code) s
        = run_state (bits_loop hw r (length bs) (pos + 1) ?code) s1"
      "at env (old @ due ps @ air_cell rem b) ?rest 0 0 (used + ps + cell_sum rem [b]) s1"
    by blast
  show ?case
  proof (cases "bs = []")
    case True
    with s1 show ?thesis by (simp add: bits_value_def)
  next
    case False
    from Cons.IH [of "old @ due ps @ air_cell rem b" 0 "used + ps + cell_sum rem [b]" s1 "pos + 1" ?code]
      False s1(2) Cons.prems(1)
    obtain s2 where "run_state (bits_loop hw r (length bs) (pos + 1) ?code) s1 = (bits_value bs ?code, s2)"
      "at env ((old @ due ps @ air_cell rem b) @ concat (map (air_cell rem) bs)) new 0 0
        (used + ps + cell_sum rem [b] + cell_sum rem bs) s2"
      using length_due [of ps] by auto
    with s1(1) show ?thesis
      by (simp add: bits_value_def cell_sum_def cells_def add.assoc)
  qed
qed

end

lemma bits_value_field:
  "bits_value (field_bits data n) c = shl64 c n OR (data AND gen_mask n)" if "0 \<le> n" "n < 64"
proof -
  have "bits_value (map (bit data) (rev [0..<m])) c = shl64 c (int m) OR (data AND gen_mask (int m))" if "m < 64" for m
    using that
  proof (induction m arbitrary: c)
    case 0
    show ?case by (simp add: bits_value_def)
  next
    case (Suc m)
    let ?c = "if bit data m then shl64 c 1 OR 1 else shl64 c 1"
    have "bits_value (map (bit data) (rev [0..<Suc m])) c = shl64 ?c (int m) OR (data AND gen_mask (int m))"
      using Suc.IH [of ?c] Suc.prems by (simp add: bits_value_def)
    also have "\<dots> = shl64 c (int (Suc m)) OR (data AND gen_mask (int (Suc m)))"
    proof (rule bit_word_eqI)
      fix k assume "k < LENGTH(64)"
      then show "bit (shl64 ?c (int m) OR (data AND gen_mask (int m))) k =
          bit (shl64 c (int (Suc m)) OR (data AND gen_mask (int (Suc m)))) k"
        using Suc.prems
        by (cases k m rule: linorder_cases)
          (auto simp: bit_or_iff bit_and_iff bit_shl64 bit_gen_mask bit_1_iff nat_add_distrib)
    qed
    finally show ?case .
  qed
  from this [of "nat n"] that show ?thesis
    by (simp add: field_bits_def)
qed

lemma bits_value_0: "0 \<le> n \<Longrightarrow> n < 64 \<Longrightarrow> bits_value (field_bits data n) 0 = data AND gen_mask n"
  by (simp add: bits_value_field)

lemma masked_not_minus_1:
  assumes "n < 64"
  shows "data AND gen_mask n \<noteq> - 1"
proof
  assume "data AND gen_mask n = - 1"
  then have "bit (data AND gen_mask n) 63" by simp
  with assms show False by (simp add: bit_and_iff bit_gen_mask)
qed

subsection \<open>A whole signal\<close>

lemma air_append: "even (length xs) \<Longrightarrow> air (xs @ ys) = air xs @ air ys"
  by (induction xs rule: air.induct) simp_all

lemma air_cells: "air (cells rem bs) = concat (map (air_cell rem) bs)"
proof (induction bs)
  case Nil
  show ?case by (simp add: cells_def)
next
  case (Cons b bs)
  have "cells rem (b # bs) = cell rem b @ cells rem bs"
    by (simp add: cells_def)
  then have "air (cells rem (b # bs)) = air (cell rem b) @ air (cells rem bs)"
    by (simp add: air_append cell_def)
  with Cons show ?case by (simp add: cell_def air_cell_def)
qed

definition air_header :: "ir_remote \<Rightarrow> lirc_t list" where
  "air_header rem = (if has_header rem then [flag_pulse (r_phead rem), r_shead rem] else [])"

lemma air_plain_signal:
  "air (plain_signal rem code @ [g]) =
     air_header rem @ concat (map (air_cell rem) (all_bits rem code)) @ [flag_pulse (r_ptrail rem), g]"
proof -
  have "plain_signal rem code @ [g] =
      (if has_header rem then [r_phead rem, r_shead rem] else []) @ cells rem (all_bits rem code) @ [r_ptrail rem, g]"
    by (simp add: plain_signal_def)
  then show ?thesis
    by (simp add: air_append air_cells air_header_def)
qed

context sample_source
begin

lemma data_here:
  assumes c: "space_coded rem" "timings_ok rem" and rem: "fst env ! r = rem"
    and n: "0 \<le> n" "n < 64" and len: "length old + length (due ps) + 2 * nat n < 250" and ps: "ps = 0 \<or> lasting ps"
    and s: "at env old (due ps @ concat (map (air_cell rem) (field_bits data n)) @ new) 0 ps used s"
  shows "\<exists>s'. run_state (get_data hw r n fin) s = (data AND gen_mask n, s') \<and>
    (if n = 0 then s' = s
     else at env (old @ due ps @ concat (map (air_cell rem) (field_bits data n))) new 0 0
       (used + ps + cell_sum rem (field_bits data n)) s')"
proof -
  have r: "rx_remotes s ! r = rem"
    using s rem by (auto simp: here_def surroundings_def)
  have g: "run_state (get_data hw r n fin) s = run_state (bits_loop hw r (nat n) fin 0) s"
    using r space_coded_protocol [OF c(1)] by (simp add: get_data_def remote_at_def)
  show ?thesis
  proof (cases "n = 0")
    case True
    with g show ?thesis by simp
  next
    case False
    then have ne: "field_bits data n \<noteq> []"
      using n by (simp add: field_bits_def)
    from bits_here [OF c rem _ ps ne s, of fin 0] len
    obtain s' where "run_state (bits_loop hw r (nat n) fin 0) s = (bits_value (field_bits data n) 0, s')"
      "at env (old @ due ps @ concat (map (air_cell rem) (field_bits data n))) new 0 0
        (used + ps + cell_sum rem (field_bits data n)) s'"
      by auto
    with False g n show ?thesis by (simp add: bits_value_0)
  qed
qed


text \<open>
  A field of any width, also none: where the decoder is afterwards, as the length of what it has
  read, the pending space \<open>ps'\<close> and the sum.
\<close>

lemma field_here:
  assumes c: "space_coded rem" "timings_ok rem" and rem: "fst env ! r = rem"
    and n: "0 \<le> n" "n < 64" and len: "length old + length (due ps) + 2 * nat n < 250" and ps: "ps = 0 \<or> lasting ps"
    and s: "at env old (due ps @ concat (map (air_cell rem) (field_bits data n)) @ new) 0 ps used s"
  shows "\<exists>s' old' ps' used'. run_state (get_data hw r n fin) s = (data AND gen_mask n, s') \<and>
    at env old' (due ps' @ new) 0 ps' used' s' \<and>
    length old' + length (due ps') = length old + length (due ps) + 2 * nat n \<and> (ps' = 0 \<or> ps' = ps) \<and>
    (0 < n \<longrightarrow> ps' = 0) \<and> used' + ps' = used + ps + cell_sum rem (field_bits data n)"
proof (cases "n = 0")
  case True
  with data_here [OF assms, of fin] s show ?thesis
    by (intro exI [of _ s] exI [of _ old] exI [of _ ps] exI [of _ used])
      (auto simp: field_bits_def cell_sum_def cells_def)
next
  case False
  have "length (concat (map (air_cell rem) bs)) = 2 * length bs" for bs
    by (induction bs) simp_all
  with False data_here [OF assms, of fin] n show ?thesis
    by (fastforce simp: due_def)
qed

lemma remote_here: "at env old new pp ps used s \<Longrightarrow> rx_remotes s = fst env"
  by (auto simp: here_def surroundings_def)

lemma side_fields_here:
  assumes c: "space_coded rem" "timings_ok rem" and rem: "fst env ! r = rem"
    and n: "n = (if p then r_pre_data_bits rem else r_post_data_bits rem)"
    and d: "data = (if p then r_pre_data rem else r_post_data rem)"
    and m: "m = (if p then (if has_pre rem then get_pre hw r else ret 0)
      else if has_post rem then get_post hw r else ret 0)"
    and len: "length old + length (due ps) + 2 * nat n < 250" and ps: "ps = 0 \<or> lasting ps"
    and s: "at env old (due ps @ concat (map (air_cell rem) (field_bits data n)) @ new) 0 ps used s"
  shows "\<exists>s' old' ps' used'. run_state m s = (data AND gen_mask n, s') \<and>
    at env old' (due ps' @ new) 0 ps' used' s' \<and>
    length old' + length (due ps') = length old + length (due ps) + 2 * nat n \<and> (ps' = 0 \<or> ps' = ps) \<and>
    used' + ps' = used + ps + cell_sum rem (field_bits data n)"
proof (cases "0 < n")
  case False
  moreover have "0 \<le> n"
    using c(1) n by (simp add: space_coded_def)
  ultimately have "n = 0" by simp
  moreover from this have "run_state m s = (0, s)"
    using m n by (auto simp: has_pre_def has_post_def)
  ultimately show ?thesis
    using s by (intro exI [of _ s] exI [of _ old] exI [of _ ps] exI [of _ used])
      (auto simp: field_bits_def cell_sum_def cells_def)
next
  case True
  note k = c(1) [unfolded space_coded_def]
  have n64: "n < 64" "0 \<le> n"
    using k n by auto
  let ?fin = "if p then 0 else add32 (r_pre_data_bits rem) (r_bits rem)"
  from field_here [OF c rem n64(2,1) len ps s, of ?fin] obtain s' old' ps' used' where
    *: "run_state (get_data hw r n ?fin) s = (data AND gen_mask n, s')"
    "at env old' (due ps' @ new) 0 ps' used' s'"
    "length old' + length (due ps') = length old + length (due ps) + 2 * nat n" "ps' = 0 \<or> ps' = ps"
    "used' + ps' = used + ps + cell_sum rem (field_bits data n)"
    by blast
  have "run_state m s = (data AND gen_mask n, s')"
    using True *(1) m n k rem remote_here [OF s] remote_here [OF *(2)] masked_not_minus_1 [OF n64(1), of data]
    by (auto simp: has_pre_def has_post_def get_pre_def get_post_def remote_at_def)
  with * show ?thesis by blast
qed

lemma gap_here:
  assumes "at env old (g # later) 0 0 used s" and "length old < 255" and "lasting g" and "sane_eps rem"
  shows "\<exists>s'. run_state (get_gap hw rem g) s = (True, s') \<and> at env old (g # later) 0 0 used s'"
proof -
  let ?t = "sub32 g (quot (mul32 g (r_eps rem)) 100)"
  have "length old < 256" using assms(2) by simp
  from next_here [OF assms(1) this, of ?t] obtain s1 where
    s1: "run_state (get_next_rec_buffer hw ?t) s = (g, s1)" "at env (old @ [g]) later 0 0 (used + (g AND PULSE_MASK)) s1"
    by blast
  from unget_here [OF s1(2)] assms(2) obtain s2 where
    s2: "run_state (unget_rec_buffer 1) s1 = ((), s2)" "at env old (g # later) 0 0 used s2"
    by auto
  have "expect_at_least rem g g"
    using assms(3,4) eps_part(2) [OF assms(4) lasting_duration [OF assms(3)]]
    by (auto simp: expect_at_least_iff lasting_duration tolerance_def sane_eps_def)
  with s1(1) s2 lasting_sample [OF assms(3)] show ?thesis
    by (simp add: get_gap_def is_space_def)
qed

lemma fields_here:
  assumes c: "space_coded rem" "timings_ok rem" and rem: "fst env ! r = rem"
    and s: "at env old (due ps @ concat (map (air_cell rem) (all_bits rem code)) @ flag_pulse (r_ptrail rem) # g # later)
      0 ps used s"
    and len: "length old + length (due ps) \<le> 5" and ps: "ps = 0 \<or> lasting ps"
    and g: "lasting g" and gap: "g = (if is_const rem then rest_of (min_gap rem)
      (i32 (used + ps + cell_sum rem (all_bits rem code) + r_ptrail rem)) else min_gap rem)"
  shows "\<exists>s' old'. run_state (receive_fields hw r h) s =
      (Some (r_pre_data rem AND gen_mask (r_pre_data_bits rem), code AND gen_mask (r_bits rem),
        r_post_data rem AND gen_mask (r_post_data_bits rem)), s') \<and>
    at env old' (g # later) 0 0 (used + ps + cell_sum rem (all_bits rem code) + r_ptrail rem) s'"
proof -
  note k = c(1) [unfolded space_coded_def] and t = c(2) [unfolded timings_ok_def]
  let ?C = "\<lambda>d n. concat (map (air_cell rem) (field_bits d n))"
  let ?tail = "flag_pulse (r_ptrail rem) # g # later"
  let ?pre = "r_pre_data_bits rem" and ?bits = "r_bits rem" and ?post = "r_post_data_bits rem"
  have sum: "cell_sum rem (all_bits rem code) = cell_sum rem (field_bits (r_pre_data rem) ?pre) +
      cell_sum rem (field_bits code ?bits) + cell_sum rem (field_bits (r_post_data rem) ?post)"
    by (simp add: cell_sum_def all_bits_def cells_append)
  have s': "at env old (due ps @ ?C (r_pre_data rem) ?pre @ ?C code ?bits @ ?C (r_post_data rem) ?post @ ?tail) 0 ps used s"
    using s by (simp add: all_bits_def)
  have pre: "length old + length (due ps) + 2 * nat ?pre < 250"
    using k len by auto
  from side_fields_here [OF c rem _ _ refl pre ps s', where p = True, unfolded if_True, OF refl refl]
  obtain s1 o1 ps1 u1 where
    1: "run_state (if has_pre rem then get_pre hw r else ret 0) s = (r_pre_data rem AND gen_mask ?pre, s1)"
      "at env o1 (due ps1 @ ?C code ?bits @ ?C (r_post_data rem) ?post @ ?tail) 0 ps1 u1 s1"
      "length o1 + length (due ps1) = length old + length (due ps) + 2 * nat ?pre"
      "ps1 = 0 \<or> ps1 = ps" "u1 + ps1 = used + ps + cell_sum rem (field_bits (r_pre_data rem) ?pre)"
    by blast
  have ps1: "ps1 = 0 \<or> lasting ps1" using 1(4) ps by auto
  have bits: "0 \<le> ?bits" "?bits < 64" "length o1 + length (due ps1) + 2 * nat ?bits < 250"
    using k len 1(3) by auto
  from field_here [OF c rem bits ps1 1(2), of ?pre] k
  obtain s2 o2 u2 where
    2: "run_state (get_data hw r ?bits ?pre) s1 = (code AND gen_mask ?bits, s2)"
      "at env o2 (due 0 @ ?C (r_post_data rem) ?post @ ?tail) 0 0 u2 s2"
      "length o2 = length o1 + length (due ps1) + 2 * nat ?bits"
      "u2 = u1 + ps1 + cell_sum rem (field_bits code ?bits)"
    by auto
  have post: "length o2 + length (due 0) + 2 * nat ?post < 250"
    using k len 1(3) 2(3) by auto
  from side_fields_here [OF c rem _ _ refl post _ 2(2), where p = False, unfolded if_False, OF refl refl]
  obtain s3 o3 u3 where
    3: "run_state (if has_post rem then get_post hw r else ret 0) s2 = (r_post_data rem AND gen_mask ?post, s3)"
      "at env o3 ?tail 0 0 u3 s3" "length o3 = length o2 + 2 * nat ?post"
      "u3 = u2 + cell_sum rem (field_bits (r_post_data rem) ?post)"
    by auto
  have len3: "length o3 < 250"
    using post 3(3) by simp
  from expectpulse_here [of env o3 0 "r_ptrail rem" "g # later" u3 s3 rem "r_ptrail rem"] 3(2) len3 t
  obtain s4 where
    4: "run_state (expectpulse hw rem (r_ptrail rem)) s3 = (True, s4)"
      "at env (o3 @ [flag_pulse (r_ptrail rem)]) (g # later) 0 0 (u3 + r_ptrail rem) s4"
    using expect_same [OF c(2)] by auto
  have trail: "run_state (get_trail hw rem) s3 = (True, s4)"
    using 4 k by (simp add: get_trail_def here_def)
  have total: "u3 + r_ptrail rem = used + ps + cell_sum rem (all_bits rem code) + r_ptrail rem"
    using sum 1(5) 2(4) 3(4) by simp
  have u4: "rb_sum s4 = i32 (u3 + r_ptrail rem)"
    using 4(2) by (simp add: here_def)
  from gap_here [OF 4(2)] len3 g t obtain s5 where
    5: "run_state (get_gap hw rem g) s4 = (True, s5)"
      "at env (o3 @ [flag_pulse (r_ptrail rem)]) (g # later) 0 0 (u3 + r_ptrail rem) s5"
    by auto
  have rgap: "run_state (receive_gap hw rem) s4 = (True, s5)"
    using 5(1) u4 total gap space_coded_protocol [OF c(1)] by (simp add: receive_gap_def split: if_splits)
  have lead: "run_state (get_lead hw rem) s = (True, s)"
    using k by (simp add: get_lead_def)
  have foot: "\<not> has_foot rem" "\<not> has_flag rem NO_HEAD_REP"
    using k by (simp_all add: has_foot_def)
  have no: "r_pre_data rem AND gen_mask ?pre \<noteq> - 1" "code AND gen_mask ?bits \<noteq> - 1"
    "r_post_data rem AND gen_mask ?post \<noteq> - 1"
    using k by (auto intro!: masked_not_minus_1)
  have "run_state (receive_fields hw r h) s =
      (Some (r_pre_data rem AND gen_mask ?pre, code AND gen_mask ?bits, r_post_data rem AND gen_mask ?post), s5)"
    unfolding receive_fields_def remote_at_def
    using lead remote_here [OF s] rem
    by (simp add: 1(1) 2(1) 3(1) trail rgap no foot del: run_if)
  with 5(2) total show ?thesis by auto
qed


lemma start_here:
  assumes c: "space_coded rem" "timings_ok rem" and r: "r < length (rx_remotes s)" "rx_remotes s ! r = rem"
    and mode: "is_timing_mode hw" and s: "signal_ok coming sound s" "rx_last_remote s = None"
    and sig: "signal coming s = sync # air_header rem @ new" and sync: "lasting sync"
  shows "\<exists>s' ps. run_state (receive_start hw r) s = (Continue (has_header rem) sync, s') \<and>
    at (surroundings s) (sync # take 1 (air_header rem)) (due ps @ new) 0 ps (if has_header rem then r_phead rem else 0) s' \<and>
    ps = (if has_header rem then r_shead rem else 0)"
proof -
  note k = c(1) [unfolded space_coded_def] and t = c(2) [unfolded timings_ok_def]
  let ?env = "surroundings s"
  define sr where "sr = exec rewind_rec_buffer s"
  have rw: "run_state rewind_rec_buffer s = ((), sr)"
    unfolding sr_def by (rule run_unit)
  define s0 where "s0 = sr\<lparr>rb_is_biphase := is_biphase rem\<rparr>"
  have s0: "at ?env [] (sync # air_header rem @ new) 0 0 0 s0"
    using s(1) sig
    by (simp add: s0_def sr_def here_def rewind_rec_buffer_def set_pending_pulse_def set_pending_space_def
        signal_ok_def buf_ok_def signal_def surroundings_def i32_id in32_def)
  have rr: "rx_remotes sr = rx_remotes s"
    by (simp add: sr_def rewind_rec_buffer_def set_pending_pulse_def set_pending_space_def)
  from space_here [OF s0 _ sync, of 1000000] obtain s1 where
    s1: "run_state (get_next_space hw 1000000) s0 = (sync, s1)" "at ?env [sync] (air_header rem @ new) 0 0 (0 + sync) s1"
    by auto
  define s2 where "s2 = s1\<lparr>rb_sum := 0\<rparr>"
  have s2: "at ?env [sync] (air_header rem @ new) 0 0 0 s2"
    using s1(2) by (simp add: s2_def here_def signal_ok_def buf_ok_def signal_def surroundings_def i32_id in32_def)
  have l: "rx_last_remote s1 = None" "rx_last_remote s2 = None" "rx_remotes s1 = rx_remotes s" "rx_remotes s2 = rx_remotes s"
    using s1(2) s2 s(2) by (auto simp: here_def surroundings_def)
  have sync0: "sync \<noteq> 0" using sync by (simp add: lasting_def)
  have sync_run: "run_state (sync_rec_buffer hw r) s0 = (sync, s2)"
    using s1(1) sync0 l by (simp add: sync_rec_buffer_def remote_at_def s2_def)
  have start: "run_state (receive_start hw r) s =
    (if has_header rem then run_state (do {
        header \<leftarrow> get_header hw rem;
        if \<not> header \<and> \<not> (has_flag rem NO_HEAD_REP \<and> expect_at_most rem sync (max_gap rem))
        then ret Reject else ret (Continue header sync) }) s2
     else (Continue False sync, s2))"
    using mode rr r(2) sync0 l rw sync_run [unfolded s0_def]
    by (simp add: receive_start_def remote_at_def)
  show ?thesis
  proof (cases "has_header rem")
    case False
    with start s2 show ?thesis by (simp add: air_header_def)
  next
    case True
    with t k have h: "lasting (r_phead rem)" "r_shead rem \<noteq> 0" "r_shead rem > 0"
      by (simp_all add: has_header_def)
    from expectpulse_here [of ?env "[sync]" 0 "r_phead rem" "r_shead rem # new" 0 s2 rem "r_phead rem"] s2 True h t
    obtain s3 where s3: "run_state (expectpulse hw rem (r_phead rem)) s2 = (True, s3)"
      "at ?env [sync, flag_pulse (r_phead rem)] (r_shead rem # new) 0 0 (r_phead rem) s3"
      using expect_same [OF c(2)] by (auto simp: air_header_def)
    from set_pending_here(2) [OF s3(2), of "r_shead rem"] obtain s4 where
      s4: "run_state (set_pending_space (r_shead rem)) s3 = ((), s4)"
      "at ?env [sync, flag_pulse (r_phead rem)] (r_shead rem # new) 0 (r_shead rem) (r_phead rem) s4"
      by blast
    have "run_state (get_header hw rem) s2 = (True, s4)"
      using s3(1) s4(1) h k space_coded_protocol [OF c(1)] by (simp add: get_header_def)
    with start True s4(2) h(3) show ?thesis
      by (simp add: air_header_def due_def)
  qed
qed


lemma decode_here_at:
  assumes c: "space_coded rem" "timings_ok rem" and r: "r < length (rx_remotes s)" "rx_remotes s ! r = rem"
    and mode: "is_timing_mode hw" and s: "signal_ok coming sound s" "rx_last_remote s = None"
    and sig: "signal coming s = sync # air (plain_signal rem code @ [g]) @ later" and sync: "lasting sync"
    and g: "lasting g" "g = signal_gap rem code" and small: "sum_list (plain_signal rem code) < 2 ^ 31"
    and max: "max_gap rem < 2 ^ 31"
  shows "\<exists>d s'. run_state (receive_decode hw r) s = (Some d, s') \<and>
    d_pre d = r_pre_data rem AND gen_mask (r_pre_data_bits rem) \<and> d_code d = code AND gen_mask (r_bits rem) \<and>
    d_post d = r_post_data rem AND gen_mask (r_post_data_bits rem) \<and> d_min_remaining_gap d = g \<and>
    rx_ub s' = rx_ub s \<and> rx_hang s' = rx_hang s \<and> rx_remotes s' = rx_remotes s \<and>
    (\<exists>old. at (surroundings s) old (g # later) 0 0 (sum_list (plain_signal rem code)) s')"
proof -
  note k = c(1) [unfolded space_coded_def] and t = c(2) [unfolded timings_ok_def]
  let ?cells = "concat (map (air_cell rem) (all_bits rem code))"
  have sig': "signal coming s = sync # air_header rem @ (?cells @ flag_pulse (r_ptrail rem) # g # later)"
    using sig by (simp add: air_plain_signal)
  from start_here [OF c r mode s sig' sync] obtain s1 ps where
    1: "run_state (receive_start hw r) s = (Continue (has_header rem) sync, s1)"
    "at (surroundings s) (sync # take 1 (air_header rem)) (due ps @ ?cells @ flag_pulse (r_ptrail rem) # g # later) 0 ps
      (if has_header rem then r_phead rem else 0) s1"
    "ps = (if has_header rem then r_shead rem else 0)"
    by blast
  let ?u0 = "if has_header rem then r_phead rem else 0"
  have total: "?u0 + ps + cell_sum rem (all_bits rem code) + r_ptrail rem = sum_list (plain_signal rem code)"
    using 1(3) by (simp add: plain_signal_def cell_sum_def)
  have pos: "0 \<le> sum_list (plain_signal rem code)"
    using plain_signal_positive [OF c(1), of _ code] by (intro sum_list_nonneg) (simp add: less_imp_le)
  have rest: "rest_of (min_gap rem) (sum_list (plain_signal rem code)) = g" if "is_const rem"
  proof -
    have "g = min_gap rem - sum_list (plain_signal rem code)" "0 < g"
      using g that by (simp_all add: signal_gap_def lasting_def)
    with pos max min_gap_le_max_gap [of rem] show ?thesis
      by (simp add: rest_of_def sub32_def i32_id in32_def)
  qed
  have i: "i32 (sum_list (plain_signal rem code)) = sum_list (plain_signal rem code)"
    using pos small by (simp add: i32_id in32_def)
  have gg: "g = (if is_const rem then rest_of (min_gap rem)
      (i32 (?u0 + ps + cell_sum rem (all_bits rem code) + r_ptrail rem)) else min_gap rem)"
    using g(2) rest unfolding total i by (simp add: signal_gap_def)
  have ps: "ps = 0 \<or> lasting ps" "length (sync # take 1 (air_header rem)) + length (due ps) \<le> 5"
    using 1(3) t length_due [of ps] by (auto simp: air_header_def)
  have rem: "fst (surroundings s) ! r = rem"
    using r(2) by (simp add: surroundings_def)
  from fields_here [OF c rem 1(2) ps(2,1) g(1) gg, of "has_header rem"] obtain s2 o2 where
    2: "run_state (receive_fields hw r (has_header rem)) s1 =
      (Some (r_pre_data rem AND gen_mask (r_pre_data_bits rem), code AND gen_mask (r_bits rem),
        r_post_data rem AND gen_mask (r_post_data_bits rem)), s2)"
    "at (surroundings s) o2 (g # later) 0 0 (sum_list (plain_signal rem code)) s2"
    unfolding total by blast
  have u2: "rb_sum s2 = sum_list (plain_signal rem code)" "rx_remotes s2 = rx_remotes s" "rx_remotes s1 = rx_remotes s"
    "rx_ub s2 = rx_ub s" "rx_hang s2 = rx_hang s"
    using 2(2) 1(2) i by (auto simp: here_def surroundings_def)
  have nl: "hw_rec_mode hw \<noteq> LIRC_MODE_LIRCCODE"
    using mode by (auto simp: is_timing_mode_def)
  have gap: "(if is_const rem then rest_of (min_gap rem) (sum_list (plain_signal rem code)) else min_gap rem) = g"
    using gg by (simp only: total i)
  show ?thesis
    using 1(1) 2 u2 r(2) nl space_coded_protocol [OF c(1)] gap
    by (auto simp: receive_decode_def receive_finish_def remote_at_def split: if_splits)
qed

lemma decode_here:
  assumes c: "space_coded rem" "timings_ok rem" and r: "r < length (rx_remotes s)" "rx_remotes s ! r = rem"
    and mode: "is_timing_mode hw" and s: "signal_ok coming sound s" "rx_last_remote s = None"
    and sig: "signal coming s = sync # air (plain_signal rem code @ [g]) @ later" and sync: "lasting sync"
    and g: "lasting g" "g = signal_gap rem code" and small: "sum_list (plain_signal rem code) < 2 ^ 31"
    and max: "max_gap rem < 2 ^ 31"
  shows "\<exists>d s'. run_state (receive_decode hw r) s = (Some d, s') \<and>
    d_pre d = r_pre_data rem AND gen_mask (r_pre_data_bits rem) \<and> d_code d = code AND gen_mask (r_bits rem) \<and>
    d_post d = r_post_data rem AND gen_mask (r_post_data_bits rem) \<and> d_min_remaining_gap d = g \<and>
    rx_ub s' = rx_ub s \<and> rx_hang s' = rx_hang s \<and> rx_remotes s' = rx_remotes s"
  using decode_here_at [OF assms] by blast

end

text \<open>
  C1: what is sent is received. Let a space-encoded remote whose zeros and ones a receiver can
  tell apart send a plain button, and let the receiver see a space, the buffer that \<open>init_send\<close>
  made with \<open>PULSE_BIT\<close> on its pulses, and anything after it. Then \<open>receive_decode\<close> for that
  remote succeeds and returns exactly the pre-data, the code and the post-data that were sent and
  the gap that follows, without any undefined behaviour or endless loop.
\<close>

theorem send_receive:
  assumes "sendable (tx_remote t) (tx_code t)" and "timings_ok (tx_remote t)" and "r_min_repeat (tx_remote t) \<le> 0"
    and "lasting (signal_gap (tx_remote t) (n_code (tx_code t)))" and "length (sb_data t) = 2048"
    and "r < length (rx_remotes s)" and "rx_remotes s ! r = tx_remote t"
    and "signal_ok mode2_coming mode2_sound s" and "rx_last_remote s = None" and "lasting sync"
  shows "\<exists>t'. init_send 0 t = Some (True, t') \<and>
    (signal mode2_coming s = sync # air (take (nat (sb_wptr t')) (sb_data t')) @ later \<longrightarrow>
     (\<exists>d s'. run_state (receive_decode mode2_hw r) s = (Some d, s') \<and>
       d_pre d = r_pre_data (tx_remote t) AND gen_mask (r_pre_data_bits (tx_remote t)) \<and>
       d_code d = n_code (tx_code t) AND gen_mask (r_bits (tx_remote t)) \<and>
       d_post d = r_post_data (tx_remote t) AND gen_mask (r_post_data_bits (tx_remote t)) \<and>
       d_min_remaining_gap d = signal_gap (tx_remote t) (n_code (tx_code t)) \<and>
       rx_ub s' = rx_ub s \<and> rx_hang s' = rx_hang s))"
proof -
  let ?rem = "tx_remote t" and ?code = "n_code (tx_code t)"
  obtain t' where t': "init_send 0 t = Some (True, t')"
    "take (nat (sb_wptr t')) (sb_data t') = plain_signal ?rem ?code @ [signal_gap ?rem ?code]"
    using plain_send [OF assms(1,3,5)] by blast
  have mode: "is_timing_mode mode2_hw"
    by (simp add: is_timing_mode_def mode2_hw_def)
  have sp: "space_coded ?rem" "sum_list (plain_signal ?rem ?code) < 2 ^ 31" "max_gap ?rem < 2 ^ 31"
    using assms(1) by (simp_all add: sendable_def)
  note d = mode2.decode_here [OF sp(1) assms(2,6,7) mode assms(8,9) _ assms(10,4) refl sp(2,3)]
  show ?thesis
    using t'(1) d by (intro exI [of _ t']) (simp only: t'(2) simp_thms, blast)
qed

lemma idle_signal:
  assumes "xs \<noteq> []" and "length xs \<le> 255" and "0 \<notin> set xs"
  shows "signal mode2_coming (idle_rx rems xs) = xs" "signal_ok mode2_coming mode2_sound (idle_rx rems xs)"
proof -
  have c: "mode2_coming (rx_dev (idle_rx rems xs)) = xs"
    by (simp add: idle_rx_def mode2_coming_def fifo_init_def fifo_contents_def)
  then show "signal mode2_coming (idle_rx rems xs) = xs"
    by (simp add: signal_def idle_rx_def)
  have "mode2_sound (rx_dev (idle_rx rems xs))"
    using assms by (simp add: idle_rx_def mode2_sound_def fifo_invar_def fifo_init_def batch_ok_def)
  with c assms(3) show "signal_ok mode2_coming mode2_sound (idle_rx rems xs)"
    by (simp add: signal_ok_def buf_ok_def idle_rx_def)
qed

abbreviation (input) key_1_wire :: "lirc_t list" where
  "key_1_wire \<equiv> [9000, 4500, 560, 1690, 560, 1690, 560, 560, 560, 560,
     560, 560, 560, 1690, 560, 560, 560, 1690, 560, 1690, 560, 560, 560, 560, 560, 1690, 560, 40000]"

lemma key_1_signal:
  "plain_signal nec_remote (n_code (nec_codes ! 0)) @ [signal_gap nec_remote (n_code (nec_codes ! 0))] = key_1_wire"
  "timings_ok nec_remote" "lasting (signal_gap nec_remote (n_code (nec_codes ! 0)))"
  by code_simp+

theorem send_receive_witness:
  "\<exists>d s'. run_state (receive_decode mode2_hw 0) (idle_rx [nec_remote] (PULSE_MASK # air key_1_wire)) = (Some d, s') \<and>
    d_pre d = 0xC \<and> d_code d = 0x59"
proof -
  let ?t = sample_tx and ?s = "idle_rx [nec_remote] (PULSE_MASK # air key_1_wire)"
  have t: "tx_remote ?t = nec_remote" "tx_code ?t = nec_codes ! 0" "length (sb_data ?t) = 2048"
    by (simp_all add: idle_tx_def)
  have s: "rx_remotes ?s = [nec_remote]" "rx_last_remote ?s = None"
    by (simp_all add: idle_rx_def)
  have ne: "PULSE_MASK # air key_1_wire \<noteq> []" "length (PULSE_MASK # air key_1_wire) \<le> 255"
    "0 \<notin> set (PULSE_MASK # air key_1_wire)"
    by code_simp+
  have min: "r_min_repeat (tx_remote ?t) \<le> 0"
    by (simp only: t) (simp add: nec_remote_def zero_remote_def)
  have "\<exists>t'. init_send 0 ?t = Some (True, t') \<and>
    (signal mode2_coming ?s = PULSE_MASK # air (take (nat (sb_wptr t')) (sb_data t')) @ [] \<longrightarrow>
     (\<exists>d s'. run_state (receive_decode mode2_hw 0) ?s = (Some d, s') \<and>
       d_pre d = r_pre_data (tx_remote ?t) AND gen_mask (r_pre_data_bits (tx_remote ?t)) \<and>
       d_code d = n_code (tx_code ?t) AND gen_mask (r_bits (tx_remote ?t)) \<and>
       d_post d = r_post_data (tx_remote ?t) AND gen_mask (r_post_data_bits (tx_remote ?t)) \<and>
       d_min_remaining_gap d = signal_gap (tx_remote ?t) (n_code (tx_code ?t)) \<and>
       rx_ub s' = rx_ub ?s \<and> rx_hang s' = rx_hang ?s))"
    by (rule send_receive)
      (use nec_sendable key_1_signal(2,3) t s min idle_signal(2) [OF ne] in \<open>simp_all add: lasting_def\<close>)
  then obtain t' where t': "init_send 0 ?t = Some (True, t')" and
    "signal mode2_coming ?s = PULSE_MASK # air (take (nat (sb_wptr t')) (sb_data t')) @ [] \<longrightarrow>
     (\<exists>d s'. run_state (receive_decode mode2_hw 0) ?s = (Some d, s') \<and>
       d_pre d = r_pre_data nec_remote AND gen_mask (r_pre_data_bits nec_remote) \<and>
       d_code d = n_code (nec_codes ! 0) AND gen_mask (r_bits nec_remote))"
    using t by auto
  moreover have "take (nat (sb_wptr t')) (sb_data t') = key_1_wire"
    using plain_send [of ?t] nec_sendable min t t' key_1_signal(1) by simp
  ultimately obtain d s' where "run_state (receive_decode mode2_hw 0) ?s = (Some d, s')"
    "d_pre d = r_pre_data nec_remote AND gen_mask (r_pre_data_bits nec_remote)"
    "d_code d = n_code (nec_codes ! 0) AND gen_mask (r_bits nec_remote)"
    using idle_signal(1) [OF ne, of "[nec_remote]"] by auto
  moreover have "r_pre_data nec_remote AND gen_mask (r_pre_data_bits nec_remote) = 0xC"
    "n_code (nec_codes ! 0) AND gen_mask (r_bits nec_remote) = 0x59"
    by code_simp+
  ultimately show ?thesis by simp
qed

end
