(* ===== verification/IRRemoteLaws.thy ===== *)
theory IRRemoteLaws
  imports IRRemote RoundTrip
begin

text \<open>
  Theorems about \<open>IRRemote.cpp\<close>: how a received code is mapped and looked up, how repeats are
  counted, what the broadcast line says, and what \<open>decodeCommand\<close> does with a list of remotes.
\<close>

subsection \<open>Mapping codes\<close>

text \<open>
  \<open>map_code\<close> regroups bits and loses none: when it accepts the widths, the composite code of the
  remote's own layout equals the composite code of the layout the hardware used, and each field it
  returns fits into the remote's width for it.
\<close>

theorem map_code_regroups:
  assumes "map_code remote pre_bits pre bits code post_bits post = Some (x, y, z)" and "\<not> is_raw remote"
    and "0 \<le> pre_bits" and "0 \<le> bits" and "0 \<le> post_bits" and "bits + post_bits < 64"
    and "pre_bits + bits + post_bits \<le> 64"
    and "0 \<le> r_pre_data_bits remote" and "0 \<le> r_bits remote" and "0 \<le> r_post_data_bits remote"
    and "r_bits remote + r_post_data_bits remote < 64"
    and "r_pre_data_bits remote + r_bits remote + r_post_data_bits remote \<le> 64"
  shows "gen_ir_code remote x y z = gen_ir_code
      (remote\<lparr>r_pre_data_bits := pre_bits, r_bits := bits, r_post_data_bits := post_bits\<rparr>) pre code post \<and>
    x = x AND gen_mask (r_pre_data_bits remote) \<and> y = y AND gen_mask (r_bits remote) \<and>
    z = z AND gen_mask (r_post_data_bits remote)"
proof -
  let ?R = "remote\<lparr>r_pre_data_bits := pre_bits, r_bits := bits, r_post_data_bits := post_bits\<rparr>"
  have raw: "is_raw ?R \<longleftrightarrow> is_raw remote"
    by (simp add: is_raw_def protocol_def)
  define all where "all = gen_ir_code ?R pre code post"
  have eq: "add32 (add32 pre_bits bits) post_bits = pre_bits + bits + post_bits"
    "bit_count remote = r_pre_data_bits remote + r_bits remote + r_post_data_bits remote"
    using assms(3-12) by (simp_all add: bit_count_def add32_def i32_id in32_def)
  have bc: "pre_bits + bits + post_bits = r_pre_data_bits remote + r_bits remote + r_post_data_bits remote"
    using assms(1) eq by (simp add: map_code_def split: if_splits)
  then have "(x, y, z) = (shr64 (shr64 all (r_post_data_bits remote)) (r_bits remote) AND gen_mask (r_pre_data_bits remote),
      shr64 all (r_post_data_bits remote) AND gen_mask (r_bits remote), all AND gen_mask (r_post_data_bits remote))"
    using assms(1,2) eq raw by (simp add: map_code_def all_def gen_ir_code_def Let_def)
  then have xyz: "x = shr64 (shr64 all (r_post_data_bits remote)) (r_bits remote) AND gen_mask (r_pre_data_bits remote)"
    "y = shr64 all (r_post_data_bits remote) AND gen_mask (r_bits remote)"
    "z = all AND gen_mask (r_post_data_bits remote)"
    by simp_all
  have top: "int k < r_post_data_bits remote + r_bits remote + r_pre_data_bits remote"
    "int k - (r_post_data_bits remote + r_bits remote) < r_pre_data_bits remote" if "bit all k" for k
    using that bc unfolding all_def using assms(2-7) raw
    by (auto simp: bit_gen_ir_code split: if_splits)
  have "gen_ir_code remote x y z = all"
  proof (rule bit_word_eqI)
    fix k assume k: "k < LENGTH(64)"
    show "bit (gen_ir_code remote x y z) k = bit all k"
      using k assms(2,8-12) top [of k]
      by (cases "bit all k") (auto simp: bit_gen_ir_code xyz bit_and_iff bit_shr64 bit_gen_mask nat_add_distrib)
  qed
  then show ?thesis
    by (simp add: all_def xyz and.assoc)
qed

theorem map_code_regroups_witness:
  "gen_ir_code nec_remote 0xC 0x59 0 = gen_ir_code (nec_remote\<lparr>r_pre_data_bits := 0, r_bits := 12, r_post_data_bits := 0\<rparr>) 0 0xC59 0"
proof -
  have m: "map_code nec_remote 0 0 12 0xC59 0 0 = Some (0xC, 0x59, 0)"
    by code_simp
  have w: "r_pre_data_bits nec_remote = 4" "r_bits nec_remote = 8" "r_post_data_bits nec_remote = 0" "\<not> is_raw nec_remote"
    by (simp_all add: nec_remote_def zero_remote_def is_raw_def protocol_def)
  from map_code_regroups [OF m] w show ?thesis by simp
qed

subsection \<open>Lookup\<close>

text \<open>A button without further parts.\<close>

definition single :: "ir_ncode \<Rightarrow> bool" where
  "single nc \<longleftrightarrow> n_next nc = [] \<and> n_current nc = None"

definition answers :: "ir_remote \<Rightarrow> ir_code \<Rightarrow> ir_ncode \<Rightarrow> bool" where
  "answers remote all nc \<longleftrightarrow>
     match_ir_code remote (gen_ir_code remote (r_pre_data remote) (n_code nc) (r_post_data remote)) all"

fun first_answer :: "ir_remote \<Rightarrow> ir_code \<Rightarrow> nat \<Rightarrow> ir_ncode list \<Rightarrow> nat option" where
  "first_answer remote all i [] = None"
| "first_answer remote all i (nc # ncs) =
    (if answers remote all nc then Some i else first_answer remote all (Suc i) ncs)"

lemma first_answer_iff:
  "first_answer remote all i ncs = Some j \<longleftrightarrow>
   i \<le> j \<and> j - i < length ncs \<and> answers remote all (ncs ! (j - i)) \<and> (\<forall>k<j - i. \<not> answers remote all (ncs ! k))"
proof (induction ncs arbitrary: i)
  case Nil
  show ?case by simp
next
  case (Cons nc ncs)
  show ?case
  proof (cases "i < j")
    case False
    then show ?thesis
      using Cons [of "Suc i"] by (cases "i = j") auto
  next
    case True
    then obtain m where m: "j - i = Suc m" "j - Suc i = m" "Suc i \<le> j"
      by (metis Suc_diff_Suc Suc_leI diff_Suc_Suc)
    have "(\<forall>k<Suc m. \<not> answers remote all ((nc # ncs) ! k)) \<longleftrightarrow>
        \<not> answers remote all nc \<and> (\<forall>k<m. \<not> answers remote all (ncs ! k))"
      by (auto simp: less_Suc_eq_0_disj)
    with True m Cons [of "Suc i"] show ?thesis by auto
  qed
qed

lemma scan_single:
  "list_all single ncs \<Longrightarrow> sc_have_code t = (sc_found t \<noteq> None) \<Longrightarrow> sc_found_code t = (sc_found t \<noteq> None) \<Longrightarrow>
   \<exists>t'. scan_codes remote all i ncs t = (ncs, t') \<and>
     sc_found t' = (if sc_found t \<noteq> None then sc_found t else first_answer remote all i ncs) \<and>
     sc_have_code t' = (sc_found t' \<noteq> None) \<and> sc_found_code t' = (sc_found t' \<noteq> None)"
proof (induction ncs arbitrary: i t)
  case Nil
  then show ?case by simp
next
  case (Cons nc ncs)
  have s: "n_next nc = []" "n_current nc = None"
    using Cons.prems(1) by (simp_all add: single_def)
  then have m: "code_matches remote all nc (n_current nc) \<longleftrightarrow> answers remote all nc"
    by (simp add: code_matches_def answers_def get_ir_code_def)
  define t1 where "t1 = (if answers remote all nc then
      (if sc_have_code t then t\<lparr>sc_found_code := True\<rparr>
       else t\<lparr>sc_found_code := True, sc_found := Some i, sc_have_code := True\<rparr>) else t)"
  have one: "scan_code remote all i nc t = (nc, t1)"
    using s m by (auto simp: scan_code_def t1_def Let_def)
  have "sc_have_code t1 = (sc_found t1 \<noteq> None)" "sc_found_code t1 = (sc_found t1 \<noteq> None)"
    using Cons.prems(2,3) by (auto simp: t1_def)
  moreover have "list_all single ncs"
    using Cons.prems(1) by simp
  ultimately obtain t' where
    "scan_codes remote all (Suc i) ncs t1 = (ncs, t')"
    "sc_found t' = (if sc_found t1 \<noteq> None then sc_found t1 else first_answer remote all (Suc i) ncs)"
    "sc_have_code t' = (sc_found t' \<noteq> None)" "sc_found_code t' = (sc_found t' \<noteq> None)"
    using Cons.IH [of t1 "Suc i"] by blast
  with one Cons.prems(2) show ?case
    by (auto simp: t1_def)
qed

lemma get_code_single:
  assumes "r_codes remote = Some ncs" and "list_all single ncs" and "\<not> has_toggle_mask remote"
    and "has_pre remote \<Longrightarrow> pre OR fst (field_masks remote) = r_pre_data remote OR fst (field_masks remote)"
    and "has_post remote \<Longrightarrow> post OR snd (field_masks remote) = r_post_data remote OR snd (field_masks remote)"
  shows "get_code remote pre code post =
    (map_option (\<lambda>i. (i, gen_ir_code remote pre code post AND r_toggle_bit_mask remote))
       (first_answer remote (gen_ir_code remote pre code post) 0 ncs), remote)"
proof -
  let ?t0 = "\<lparr>sc_found_code = False, sc_have_code = False, sc_found = None\<rparr>"
  from scan_single [OF assms(2), of ?t0 remote "gen_ir_code remote pre code post" 0] obtain t where
    "scan_codes remote (gen_ir_code remote pre code post) 0 ncs ?t0 = (ncs, t)"
    "sc_found t = first_answer remote (gen_ir_code remote pre code post) 0 ncs"
    by auto
  moreover obtain a b where "field_masks remote = (a, b)"
    by fastforce
  moreover have "remote\<lparr>r_codes := Some ncs\<rparr> = remote"
    using assms(1) by simp
  moreover have "toggle_fields remote pre code post = (pre, code, post)"
    using assms(3) by (simp add: toggle_fields_def)
  ultimately show ?thesis
    using assms by (cases "first_answer remote (gen_ir_code remote pre code post) 0 ncs") (simp_all add: get_code_def Let_def has_toggle_mask_def)
qed

text \<open>
  For a remote of single-part buttons without a toggle mask, \<open>get_code\<close> returns the first button
  whose composite code matches the received one and whose pre- and post-data agree, and no button
  exactly when there is none; it leaves the remote as it was.
\<close>

theorem get_code_first:
  assumes "r_codes remote = Some ncs" and "\<forall>nc\<in>set ncs. n_next nc = [] \<and> n_current nc = None"
    and "\<not> has_toggle_mask remote" and "\<not> has_toggle_bit_mask remote" and "\<not> has_ignore_mask remote"
  shows "snd (get_code remote pre code post) = remote \<and>
    (fst (get_code remote pre code post) = Some (i, tb) \<longleftrightarrow>
      tb = gen_ir_code remote pre code post AND r_toggle_bit_mask remote \<and>
      (has_pre remote \<longrightarrow> pre = r_pre_data remote) \<and> (has_post remote \<longrightarrow> post = r_post_data remote) \<and>
      i < length ncs \<and> answers remote (gen_ir_code remote pre code post) (ncs ! i) \<and>
      (\<forall>k<i. \<not> answers remote (gen_ir_code remote pre code post) (ncs ! k)))"
proof (cases "(has_pre remote \<longrightarrow> pre = r_pre_data remote) \<and> (has_post remote \<longrightarrow> post = r_post_data remote)")
  case True
  have "list_all single ncs"
    using assms(2) by (simp add: list_all_iff single_def)
  from get_code_single [OF assms(1) this assms(3), of pre post code] True show ?thesis
    by (auto simp: first_answer_iff)
next
  case False
  have "field_masks remote = (0, 0)"
    using assms(4,5) by (simp add: field_masks_def)
  with False assms(3) have "get_code remote pre code post = (None, remote)"
    by (auto simp: get_code_def toggle_fields_def Let_def)
  with False show ?thesis by auto
qed

theorem get_code_first_witness:
  "fst (get_code nec_remote 0xC 0xA6 0) = Some (1, 0)"
proof -
  have c: "r_codes nec_remote = Some nec_codes" "\<forall>nc\<in>set nec_codes. n_next nc = [] \<and> n_current nc = None"
    "\<not> has_toggle_mask nec_remote" "\<not> has_toggle_bit_mask nec_remote" "\<not> has_ignore_mask nec_remote"
    by (simp_all add: nec_remote_def nec_codes_def zero_remote_def has_toggle_mask_def has_toggle_bit_mask_def
        has_ignore_mask_def)
  have "(0 :: ir_code) = gen_ir_code nec_remote 0xC 0xA6 0 AND r_toggle_bit_mask nec_remote"
    "has_pre nec_remote \<longrightarrow> 0xC = r_pre_data nec_remote" "\<not> has_post nec_remote" "1 < length nec_codes"
    "answers nec_remote (gen_ir_code nec_remote 0xC 0xA6 0) (nec_codes ! 1)"
    "\<not> answers nec_remote (gen_ir_code nec_remote 0xC 0xA6 0) (nec_codes ! 0)"
    by code_simp+
  with get_code_first [OF c, of "0xC" "0xA6" 0 1 0] show ?thesis by simp
qed


subsection \<open>From the air to the broadcast line\<close>

text \<open>Button \<open>i\<close> of the remote, with a name to report and a code no earlier button has.\<close>

definition reportable :: "ir_remote \<Rightarrow> nat \<Rightarrow> bool" where
  "reportable rem i \<longleftrightarrow> (\<exists>name ncs. r_name rem = Some name \<and> r_codes rem = Some ncs \<and> i < length ncs \<and>
     list_all single ncs \<and> length (message_text name (n_name (ncs ! i)) [] (composite_code rem (ncs ! i)) 0) \<le> 256 \<and>
     (\<forall>k<i. n_code (ncs ! k) AND gen_mask (r_bits rem) \<noteq> n_code (ncs ! i) AND gen_mask (r_bits rem))) \<and>
     r_ignore_mask rem = 0 \<and> r_pre_data rem AND gen_mask (r_pre_data_bits rem) = r_pre_data rem \<and>
     r_post_data rem AND gen_mask (r_post_data_bits rem) = r_post_data rem"

lemma gen_ir_code_masked:
  "\<not> is_raw rem \<Longrightarrow> gen_ir_code rem (pre AND gen_mask (r_pre_data_bits rem)) (code AND gen_mask (r_bits rem))
     (post AND gen_mask (r_post_data_bits rem)) = gen_ir_code rem pre code post"
  by (simp add: gen_ir_code_def and.assoc)

lemma gen_ir_code_inj:
  assumes "space_coded rem" and "gen_ir_code rem pre code post = gen_ir_code rem pre code' post"
  shows "code AND gen_mask (r_bits rem) = code' AND gen_mask (r_bits rem)"
proof (rule bit_word_eqI)
  fix k assume "k < LENGTH(64)"
  have n: "0 \<le> r_bits rem" "0 \<le> r_post_data_bits rem" "r_bits rem + r_post_data_bits rem < 64" "\<not> is_raw rem"
    using assms(1) space_coded_protocol [OF assms(1)] by (auto simp: space_coded_def)
  let ?k = "k + nat (r_post_data_bits rem)"
  have "bit (gen_ir_code rem pre code post) ?k = bit (gen_ir_code rem pre code' post) ?k"
    using assms(2) by simp
  then show "bit (code AND gen_mask (r_bits rem)) k = bit (code' AND gen_mask (r_bits rem)) k"
    using n by (auto simp: bit_gen_ir_code bit_and_iff bit_gen_mask split: if_splits)
qed

lemma found_button:
  assumes "space_coded rem" and "reportable rem i" and "r_codes rem = Some ncs"
  shows "get_code rem (r_pre_data rem) (n_code (ncs ! i) AND gen_mask (r_bits rem)) (r_post_data rem) = (Some (i, 0), rem)"
proof -
  note raw = space_coded_protocol(10) [OF assms(1)]
  from assms(2,3) have r: "i < length ncs" "list_all single ncs" "r_ignore_mask rem = 0"
    "\<And>k. k < i \<Longrightarrow> n_code (ncs ! k) AND gen_mask (r_bits rem) \<noteq> n_code (ncs ! i) AND gen_mask (r_bits rem)"
    by (auto simp: reportable_def)
  have tm: "r_toggle_bit_mask rem = 0" "\<not> has_toggle_mask rem"
    using assms(1) by (simp_all add: space_coded_def has_toggle_mask_def)
  let ?all = "gen_ir_code rem (r_pre_data rem) (n_code (ncs ! i)) (r_post_data rem)"
  have all: "gen_ir_code rem (r_pre_data rem) (n_code (ncs ! i) AND gen_mask (r_bits rem)) (r_post_data rem) = ?all"
    using raw by (simp add: gen_ir_code_def and.assoc)
  have ans: "answers rem ?all nc \<longleftrightarrow> n_code nc AND gen_mask (r_bits rem) = n_code (ncs ! i) AND gen_mask (r_bits rem)" for nc
  proof
    assume "answers rem ?all nc"
    then show "n_code nc AND gen_mask (r_bits rem) = n_code (ncs ! i) AND gen_mask (r_bits rem)"
      using tm(1) r(3) by (intro gen_ir_code_inj [OF assms(1)]) (simp add: answers_def match_ir_code_def)
  next
    assume "n_code nc AND gen_mask (r_bits rem) = n_code (ncs ! i) AND gen_mask (r_bits rem)"
    then have "gen_ir_code rem (r_pre_data rem) (n_code nc) (r_post_data rem) = ?all"
      using raw by (simp add: gen_ir_code_def)
    then show "answers rem ?all nc"
      by (simp add: answers_def match_ir_code_def)
  qed
  have "first_answer rem ?all 0 ncs = Some i"
    using r by (simp add: first_answer_iff ans)
  then show ?thesis
    using get_code_single [OF assms(3) r(2) tm(2), of "r_pre_data rem" "r_post_data rem"
        "n_code (ncs ! i) AND gen_mask (r_bits rem)"] all tm(1) by simp
qed

lemma report_single:
  assumes "space_coded rem" and "reportable rem i" and "r_codes rem = Some ncs" and "r_name rem = Some name"
    and "rx_remotes s = rem # rest" and "rx_last_decoded s \<noteq> Some 0"
    and "list_all (\<lambda>rem. r_codes rem \<noteq> None) rest"
  shows "\<exists>s'. run_state (report_code 0 i tb d) s =
      (Some (message_text name (n_name (ncs ! i)) [] (composite_code rem (ncs ! i)) 0), s') \<and> rx_ub s' = rx_ub s"
proof -
  have i: "i < length ncs" "n_next (ncs ! i) = []" "n_current (ncs ! i) = None"
    "length (message_text name (n_name (ncs ! i)) [] (composite_code rem (ncs ! i)) 0) \<le> 256"
    using assms(2-4) by (auto simp: reportable_def list_all_length single_def)
  have tm: "\<not> has_toggle_bit_mask rem" "\<not> has_toggle_mask rem" "\<not> is_xmp rem"
    using assms(1) space_coded_protocol [OF assms(1)]
    by (simp_all add: space_coded_def has_toggle_mask_def has_toggle_bit_mask_def)
  obtain now s1 where now: "run_state gettimeofday s = (now, s1)" by fastforce
  have s1: "rx_remotes s1 = rem # rest" "rx_last_decoded s1 = rx_last_decoded s" "rx_ub s1 = rx_ub s"
    using now assms(5) by (auto simp: gettimeofday_def split: list.splits)
  define rem' where "rem' = rem\<lparr>r_reps := 0, r_last_code := Some i, r_last_send := now,
      r_min_remaining_gap := d_min_remaining_gap d, r_max_remaining_gap := d_max_remaining_gap d\<rparr>"
  define s2 where "s2 = s1\<lparr>rx_last_remote := Some 0, rx_last_decoded := Some 0, rx_remotes := rem' # rest\<rparr>"
  have nc: "codes_at rem i = ncs ! i" "codes_at rem' i = ncs ! i"
    using assms(3) by (simp_all add: codes_at_def rem'_def)
  have cc: "composite_code rem' (ncs ! i) = composite_code rem (ncs ! i)"
    by (simp add: composite_code_def rem'_def has_pre_def has_post_def has_flag_def bit_count_def Let_def)
  have "start_repetition rem i (ncs ! i) tb = rem\<lparr>r_reps := 0\<rparr>"
    using tm i by (simp add: start_repetition_def has_toggle_mask_def has_toggle_bit_mask_def)
  then have set: "run_state (set_code 0 i tb (d_repeat_flag d) (d_min_remaining_gap d) (d_max_remaining_gap d)) s
      = (composite_code rem (ncs ! i), s2)"
    using now s1 assms(6) nc i(3) cc [symmetric]
    by (simp add: set_code_def remote_at_def update_remote_def s2_def rem'_def Let_def)
  have "map (set_current None) ncs = ncs"
    using assms(2,3) by (auto simp: reportable_def set_current_def single_def list_all_iff intro!: map_idI)
  then have cur: "rem'\<lparr>r_codes := map_option (map (set_current None)) (r_codes rem')\<rparr> = rem'"
    using assms(3) by (simp add: rem'_def)
  define s3 where "s3 = s2\<lparr>rx_remotes :=
    rem' # map (\<lambda>rem. rem\<lparr>r_codes := map_option (map (set_current None)) (r_codes rem)\<rparr>) rest\<rparr>"
  have "r_codes rem' \<noteq> None"
    using assms(3) by (simp add: rem'_def)
  with assms(7) have "\<not> list_ex (\<lambda>rem. r_codes rem = None) (rem' # rest)"
    by (simp add: list_all_iff list_ex_iff)
  then have reset: "run_state reset_sequences s2 = ((), s3)"
    using cur \<open>r_codes rem' \<noteq> None\<close> by (auto simp: reset_sequences_def s2_def s3_def)
  have msg: "write_message 257 name (n_name (ncs ! i)) [] (composite_code rem (ncs ! i)) 0 =
      (message_text name (n_name (ncs ! i)) [] (composite_code rem (ncs ! i)) 0,
       int (length (message_text name (n_name (ncs ! i)) [] (composite_code rem (ncs ! i)) 0)))"
    using i(4) by (simp add: write_message_def Let_def)
  have r2: "rx_remotes s2 ! 0 = rem'" "rx_remotes s3 ! 0 = rem'" "rx_ub s3 = rx_ub s"
    using s1 by (simp_all add: s2_def s3_def)
  have rem'_fields: "\<not> has_toggle_mask rem'" "\<not> is_xmp rem'" "r_name rem' = Some name" "r_last_code rem' = Some i" "r_reps rem' = 0"
    using tm assms(4) by (simp_all add: rem'_def has_toggle_mask_def is_xmp_def protocol_def)
  have "sub32 0 0 = 0" by (simp add: sub32_def i32_id in32_def)
  with set reset r2 rem'_fields nc i(2,3) msg i(4) show ?thesis
    by (simp add: report_code_def remote_at_def Let_def)
qed

text \<open>A decoder at rest that hears the signal of a button broadcasts its line.\<close>

lemma line_of_signal:
  assumes "sendable rem code" and "timings_ok rem" and "lasting (signal_gap rem (n_code code))" and "reportable rem i"
    and "r_codes rem = Some ncs" and "r_name rem = Some name" and "code = ncs ! i"
    and "rx_remotes s = rem # rest" and "\<forall>r\<in>set rest. r_codes r \<noteq> None" and "rx_last_decoded s \<noteq> Some 0"
    and "signal_ok mode2_coming mode2_sound s" and "rx_last_remote s = None" and "lasting sync"
    and "signal mode2_coming s = sync # air (plain_signal rem (n_code code) @ [signal_gap rem (n_code code)]) @ later"
  shows "\<exists>s'. run_state (decodeCommand (receive_decode mode2_hw)) s =
      (Some (message_text name (n_name code) [] (composite_code rem code) 0), s') \<and> rx_ub s' = rx_ub s"
proof -
  have mode: "is_timing_mode mode2_hw"
    by (simp add: is_timing_mode_def mode2_hw_def)
  have sp: "space_coded rem" "sum_list (plain_signal rem (n_code code)) < 2 ^ 31" "max_gap rem < 2 ^ 31"
    using assms(1) by (simp_all add: sendable_def)
  define s0 where "s0 = s\<lparr>rx_decoding := Some 0\<rparr>"
  have s0: "0 < length (rx_remotes s0)" "rx_remotes s0 ! 0 = rem" "signal_ok mode2_coming mode2_sound s0"
    "rx_last_remote s0 = None"
    using assms(8,11,12) by (simp_all add: s0_def signal_ok_def buf_ok_def)
  have sig0: "signal mode2_coming s0 = sync # air (plain_signal rem (n_code code) @ [signal_gap rem (n_code code)]) @ later"
    using assms(14) by (simp add: s0_def signal_def)
  from mode2.decode_here [OF sp(1) assms(2) s0(1,2) mode s0(3,4) sig0 assms(13,3) refl sp(2,3)]
  obtain d s1 where d: "run_state (receive_decode mode2_hw 0) s0 = (Some d, s1)"
    "d_pre d = r_pre_data rem AND gen_mask (r_pre_data_bits rem)" "d_code d = n_code code AND gen_mask (r_bits rem)"
    "d_post d = r_post_data rem AND gen_mask (r_post_data_bits rem)" "rx_ub s1 = rx_ub s0" "rx_remotes s1 = rx_remotes s0"
    by blast
  have "get_code rem (d_pre d) (d_code d) (d_post d) = (Some (i, 0), rem)"
    using found_button [OF sp(1) assms(4) assms(5)] assms(4) d(2-4) assms(7) by (simp add: reportable_def)
  moreover have s1: "rx_remotes s1 = rem # rest" "rx_last_decoded s1 \<noteq> Some 0" "rx_ub s1 = rx_ub s"
    using d(5,6) assms(8,10) receive_keeps_globals [of mode2_hw 0 s0] d(1) by (simp_all add: s0_def)
  moreover have "list_all (\<lambda>rem. r_codes rem \<noteq> None) rest"
    using assms(9) by (simp add: list_all_iff)
  from report_single [OF sp(1) assms(4) assms(5,6) s1(1,2) this, of 0 d] obtain s2 where
    "run_state (report_code 0 i 0 d) s1 =
      (Some (message_text name (n_name (ncs ! i)) [] (composite_code rem (ncs ! i)) 0), s2)" "rx_ub s2 = rx_ub s1"
    by blast
  moreover have e: "s1\<lparr>rx_remotes := rem # rest\<rparr> = s1"
    by (simp flip: s1(1))
  ultimately show ?thesis
    using d(1) assms(7,8) by (simp add: decodeCommand_def s0_def e)
qed



lemma nec_reportable: "reportable nec_remote 0"
proof -
  have "\<forall>k<0. n_code (nec_codes ! k) AND gen_mask (r_bits nec_remote) \<noteq> n_code (nec_codes ! 0) AND gen_mask (r_bits nec_remote)"
    by simp
  moreover have "r_name nec_remote = Some ''nec''" "r_codes nec_remote = Some nec_codes"
    by (simp_all add: nec_remote_def)
  moreover have "0 < length nec_codes" "list_all single nec_codes"
    "length (message_text ''nec'' (n_name (nec_codes ! 0)) [] (composite_code nec_remote (nec_codes ! 0)) 0) \<le> 256"
    "r_ignore_mask nec_remote = 0" "r_pre_data nec_remote AND gen_mask (r_pre_data_bits nec_remote) = r_pre_data nec_remote"
    "r_post_data nec_remote AND gen_mask (r_post_data_bits nec_remote) = r_post_data nec_remote"
    by code_simp+
  ultimately show ?thesis
    unfolding reportable_def by blast
qed


subsection \<open>Repeats\<close>

text \<open>
  C16: repeat counting. For a remote without toggle mask and a single-part button, \<open>set_code\<close> counts
  one repeat more exactly when the same remote and the same button were decoded last, the signal is
  marked as a repeat, less than a second has passed and the toggle bits agree; otherwise it starts
  at 0. In either case this remote and this button are the ones decoded last from then on.
\<close>

theorem set_code_repeats:
  assumes "r < length (rx_remotes s)" and "rem = rx_remotes s ! r" and "\<not> has_toggle_mask rem"
    and "n_next (codes_at rem found) = []" and "n_current (codes_at rem found) = None"
    and "now = result gettimeofday s" and "s' = exec (set_code r found tb rep g1 g2) s"
  shows "r_reps (rx_remotes s' ! r) =
      (if rx_last_decoded s = Some r \<and> r_last_code rem = Some found \<and> rep \<and>
          time_elapsed (r_last_send rem) now < 1000000 \<and>
          (has_toggle_bit_mask rem \<longrightarrow> tb = r_toggle_bit_mask_state rem)
       then add32 (r_reps rem) 1 else 0) \<and>
    rx_last_decoded s' = Some r \<and> rx_last_remote s' = Some r \<and>
    r_last_code (rx_remotes s' ! r) = Some found \<and> r_last_send (rx_remotes s' ! r) = now"
proof -
  obtain s1 where now: "run_state gettimeofday s = (now, s1)"
    using assms(6) by (metis prod.collapse)
  have s1: "rx_remotes s1 = rx_remotes s" "rx_last_decoded s1 = rx_last_decoded s"
    using now by (auto simp: gettimeofday_def split: list.splits)
  have rep: "is_repetition rem found tb rep now \<longleftrightarrow> r_last_code rem = Some found \<and> rep \<and>
      time_elapsed (r_last_send rem) now < 1000000 \<and> (has_toggle_bit_mask rem \<longrightarrow> tb = r_toggle_bit_mask_state rem)"
    using assms(4,5) by (auto simp: is_repetition_def)
  have cnt: "count_repetition rem (codes_at rem found) = rem\<lparr>r_reps := add32 (r_reps rem) 1\<rparr>"
    using assms(3,5) by (simp add: count_repetition_def)
  have st: "r_reps (start_repetition rem found (codes_at rem found) tb) = 0"
    using assms(3,4) by (simp add: start_repetition_def has_toggle_mask_def has_toggle_bit_mask_def Let_def)
  show ?thesis
    using now s1 assms(1,2,5,7) rep cnt st
    by (simp add: set_code_def remote_at_def update_remote_def Let_def) blast
qed

text \<open>The clock of the sample state: two readings, a quarter of a second apart.\<close>

theorem set_code_repeats_witness:
  "r_reps (rx_remotes (exec (do { set_code 0 1 0 True 40000 40000; set_code 0 1 0 True 40000 40000 })
     ((idle_rx [nec_remote] [])\<lparr>rx_clock := [\<lparr>tv_sec = 5, tv_usec = 0\<rparr>, \<lparr>tv_sec = 5, tv_usec = 250000\<rparr>]\<rparr>)) ! 0) = 1"
proof -
  let ?s = "(idle_rx [nec_remote] [])\<lparr>rx_clock := [\<lparr>tv_sec = 5, tv_usec = 0\<rparr>, \<lparr>tv_sec = 5, tv_usec = 250000\<rparr>]\<rparr>"
  let ?s1 = "exec (set_code 0 1 0 True 40000 40000) ?s"
  have len: "0 < length (rx_remotes ?s1)"
    by (simp add: set_code_def gettimeofday_def remote_at_def update_remote_def idle_rx_def Let_def)
  have "\<not> has_toggle_mask (rx_remotes ?s1 ! 0)" "n_next (codes_at (rx_remotes ?s1 ! 0) 1) = []"
    "n_current (codes_at (rx_remotes ?s1 ! 0) 1) = None"
    by code_simp+
  from set_code_repeats [OF len refl this refl refl, of 0 True 40000 40000]
  have "r_reps (rx_remotes (exec (set_code 0 1 0 True 40000 40000) ?s1) ! 0) =
      (if rx_last_decoded ?s1 = Some 0 \<and> r_last_code (rx_remotes ?s1 ! 0) = Some 1 \<and> True \<and>
          time_elapsed (r_last_send (rx_remotes ?s1 ! 0)) (result gettimeofday ?s1) < 1000000 \<and>
          (has_toggle_bit_mask (rx_remotes ?s1 ! 0) \<longrightarrow> 0 = r_toggle_bit_mask_state (rx_remotes ?s1 ! 0))
       then add32 (r_reps (rx_remotes ?s1 ! 0)) 1 else 0)"
    by (rule conjunct1)
  also have "\<dots> = 1"
    by code_simp
  finally show ?thesis
    by (simp add: run_bind del: run_state_bind)
qed

subsection \<open>A signal nobody knows\<close>

lemma update_remote_length: "length (rx_remotes (exec (update_remote r f) s)) = length (rx_remotes s)"
  by (simp add: update_remote_def)

text \<open>
  When every remote rejects the signal, \<open>decodeCommand\<close> reports nothing, forgets the last remote
  and takes every remote out of its toggle sequence.
\<close>

theorem decodeCommand_reject:
  assumes "\<And>r s. fst (run_state (decode r) s) = None \<and> length (rx_remotes (exec (decode r) s)) = length (rx_remotes s) \<and>
     (\<forall>k. k \<noteq> r \<longrightarrow> rx_remotes (exec (decode r) s) ! k = rx_remotes s ! k)"
  shows "result (decodeCommand decode) s = None \<and> rx_last_remote (exec (decodeCommand decode) s) = None \<and>
    rx_decoding (exec (decodeCommand decode) s) = None \<and>
    list_all (\<lambda>rem. r_toggle_mask_state rem = 0) (rx_remotes (exec (decodeCommand decode) s))"
proof -
  have loop: "r + n = length (rx_remotes s) \<Longrightarrow> (\<And>k. k < r \<Longrightarrow> r_toggle_mask_state (rx_remotes s ! k) = 0) \<Longrightarrow>
    result (decode_loop decode r n) s = None \<and> rx_last_remote (exec (decode_loop decode r n) s) = None \<and>
    rx_decoding (exec (decode_loop decode r n) s) = None \<and>
    list_all (\<lambda>rem. r_toggle_mask_state rem = 0) (rx_remotes (exec (decode_loop decode r n) s))" for r n s
  proof (induction n arbitrary: r s)
    case 0
    then show ?case by (simp add: list_all_length)
  next
    case (Suc n)
    define t where "t = exec (update_remote r (\<lambda>rem. rem\<lparr>r_toggle_mask_state := 0\<rparr>)) (exec (decode r) s)"
    have step: "run_state (decode_loop decode r (Suc n)) s = run_state (decode_loop decode (Suc r) n) t"
      using assms [of r s] by (simp add: t_def run_bind del: run_state_bind)
    have len: "length (rx_remotes t) = length (rx_remotes s)"
      using assms [of r s] by (simp add: t_def update_remote_length)
    have "r_toggle_mask_state (rx_remotes t ! k) = 0" if "k < Suc r" for k
      using that Suc.prems assms [of r s]
      by (cases "k = r") (simp_all add: t_def update_remote_def)
    with Suc.IH [of "Suc r" t] Suc.prems(1) len step show ?case
      by simp
  qed
  show ?thesis
    using loop [of 0 "length (rx_remotes s)" "s\<lparr>rx_decoding := (if length (rx_remotes s) = 0 then None else Some 0)\<rparr>"]
    by (simp add: decodeCommand_def)
qed

theorem decodeCommand_reject_witness:
  "result (decodeCommand (\<lambda>r. ret None)) (idle_rx [nec_remote\<lparr>r_toggle_mask_state := 1\<rparr>] []) = None \<and>
   list_all (\<lambda>rem. r_toggle_mask_state rem = 0)
     (rx_remotes (exec (decodeCommand (\<lambda>r. ret None)) (idle_rx [nec_remote\<lparr>r_toggle_mask_state := 1\<rparr>] [])))"
  using decodeCommand_reject [of "\<lambda>r. ret None" "idle_rx [nec_remote\<lparr>r_toggle_mask_state := 1\<rparr>] []"] by simp

end
