(* ===== verification/CommandLaws.thy ===== *)
theory CommandLaws
  imports IRRemoteLaws
begin
text \<open>
  \<open>decodeCommand\<close> over the list of remotes: every remote is tried on the same signal; and the line
  that \<open>write_message\<close> makes of the button found.
\<close>

subsection \<open>Every remote hears the same signal\<close>

definition hears :: "lirc_t list \<Rightarrow> mode2_dev rx \<Rightarrow> bool" where
  "hears sig s \<longleftrightarrow> signal_ok mode2_coming mode2_sound s \<and> signal mode2_coming s = sig \<and>
     list_all (\<lambda>rem. \<not> is_serial rem) (rx_remotes s)"

lemma hears_fields:
  assumes "rb_data t = rb_data s" "rb_wptr t = rb_wptr s" "rb_rptr t = rb_rptr s" "rx_dev t = rx_dev s" "rx_ub s \<longrightarrow> rx_ub t"
    "map r_flags (rx_remotes t) = map r_flags (rx_remotes s)" "hears sig s"
  shows "hears sig t"
proof -
  have "list_all (\<lambda>rem. \<not> is_serial rem) xs = list_all (\<lambda>f. f AND IR_PROTOCOL_MASK \<noteq> SERIAL) (map r_flags xs)" for xs
    by (simp add: list.pred_map o_def is_serial_def protocol_def)
  with assms show ?thesis
    by (simp add: hears_def signal_ok_def signal_def buf_ok_def)
qed

lemma get_code_flags: "r_flags (snd (get_code rem pre code post)) = r_flags rem"
  by (auto simp: get_code_def Let_def split: prod.splits option.splits)

lemma flags_update: "r_flags x = r_flags (xs ! r) \<Longrightarrow> map r_flags (xs[r := x]) = map r_flags xs"
  by (cases "r < length xs") (simp_all add: map_update list_update_same_conv list_update_beyond)

lemma set_code_flags:
  "map r_flags (rx_remotes (exec (update_remote r f) s)) = map r_flags (rx_remotes s)"
  if "\<And>rem. r_flags (f rem) = r_flags rem"
  using that by (simp add: update_remote_def flags_update)

lemma hears_decode:
  assumes "hears sig s" and "r < length (rx_remotes s)"
  shows "hears sig (exec (receive_decode mode2_hw r) s)"
proof -
  have "\<not> is_serial (rx_remotes s ! r)"
    using assms by (simp add: hears_def list_all_length)
  with assms mode2.kept.decode [of r]
  have "signal_ok mode2_coming mode2_sound (exec (receive_decode mode2_hw r) s)"
    "signal mode2_coming (exec (receive_decode mode2_hw r) s) = sig"
    by (auto simp: state_io_rel_def same_signal_def hears_def)
  moreover have "list_all (\<lambda>rem. \<not> is_serial rem) xs = list_all (\<lambda>f. f AND IR_PROTOCOL_MASK \<noteq> SERIAL) (map r_flags xs)" for xs
    by (simp add: list.pred_map o_def is_serial_def protocol_def)
  ultimately show ?thesis
    using assms(1) receive_keeps_globals(4) [of mode2_hw r s] by (simp add: hears_def)
qed

text \<open>What \<open>report_code\<close> and the loop do to the state besides decoding leaves the signal alone.\<close>

lemma hears_step:
  assumes "\<And>s. rb_data (f s) = rb_data s \<and> rb_wptr (f s) = rb_wptr s \<and> rb_rptr (f s) = rb_rptr s \<and>
    rx_dev (f s) = rx_dev s \<and> (rx_ub s \<longrightarrow> rx_ub (f s)) \<and> map r_flags (rx_remotes (f s)) = map r_flags (rx_remotes s)"
  shows "state_io_rel (keeping (hears sig)) (wr f)"
  using assms by (auto simp: state_io_rel_def keeping_def intro: hears_fields)

lemma hears_update: "(\<And>rem. r_flags (f rem) = r_flags rem) \<Longrightarrow> state_io_rel (keeping (hears sig)) (update_remote r f)"
  unfolding update_remote_def by (rule hears_step) (simp add: flags_update)

lemma hears_clock: "state_io_rel (keeping (hears sig)) gettimeofday"
  by (auto simp: state_io_rel_def keeping_def gettimeofday_def split: list.split elim!: hears_fields [rotated -1])

lemma hears_ub: "state_io_rel (keeping (hears sig)) undefined_behaviour"
  unfolding undefined_behaviour_def by (rule hears_step) simp

lemma hears_set_code: "state_io_rel (keeping (hears sig)) (set_code r i tb rep g1 g2)"
proof -
  have "r_flags (count_repetition rem nc) = r_flags rem" "r_flags (start_repetition rem i nc tb) = r_flags rem" for rem nc
    by (simp_all add: count_repetition_def start_repetition_def Let_def)
  then show ?thesis
    unfolding set_code_def remote_at_def Let_def
    by (intro keeping.flow hears_clock hears_update hears_step) simp_all
qed

lemma hears_report: "state_io_rel (keeping (hears sig)) (report_code r i tb d)"
proof -
  have x: "state_io_rel (keeping (hears sig)) (restart_xmp r)"
    unfolding restart_xmp_def by (rule hears_update) (simp split: option.split)
  have rs: "state_io_rel (keeping (hears sig)) reset_sequences"
    unfolding reset_sequences_def
    by (intro keeping.flow hears_ub hears_step) (simp add: o_def)
  show ?thesis
    unfolding report_code_def remote_at_def Let_def
    by (intro keeping.flow hears_set_code hears_step hears_ub x rs) (simp_all split: option.split prod.split)
qed

lemma hears_loop:
  "hears sig s \<Longrightarrow> r + n = length (rx_remotes s) \<Longrightarrow> hears sig (exec (decode_loop (receive_decode mode2_hw) r n) s)"
proof (induction n arbitrary: r s)
  case 0
  then show ?case by (simp add: hears_fields [of _ s])
next
  case (Suc n)
  obtain d s1 where d: "run_state (receive_decode mode2_hw r) s = (d, s1)" by fastforce
  have s1: "hears sig s1" "length (rx_remotes s1) = length (rx_remotes s)"
    using hears_decode [OF Suc.prems(1), of r] Suc.prems(2) d receive_keeps_globals(4) [of mode2_hw r s]
    by (auto dest: arg_cong [of _ _ length])
  define s2 where "s2 = (case d of None \<Rightarrow> s1
    | Some d \<Rightarrow> s1\<lparr>rx_remotes := (rx_remotes s1)[r := snd (get_code (rx_remotes s1 ! r) (d_pre d) (d_code d) (d_post d))]\<rparr>)"
  have s2: "hears sig s2" "length (rx_remotes s2) = length (rx_remotes s)"
    using s1 by (auto simp: s2_def get_code_flags flags_update split: option.split elim!: hears_fields [rotated -1])
  define t where "t = exec (update_remote r (\<lambda>rem. rem\<lparr>r_toggle_mask_state := 0\<rparr>)) s2"
  have t: "hears sig t" "length (rx_remotes t) = length (rx_remotes s)"
    using s2 hears_update [of "\<lambda>rem. rem\<lparr>r_toggle_mask_state := 0\<rparr>" sig r]
    by (simp_all add: t_def update_remote_length state_io_rel_def keeping_def)
  have rep: "hears sig (exec (report_code r i tb d') s2)" for i tb d'
    using hears_report [of sig r i tb d'] s2(1) by (simp add: state_io_rel_def keeping_def)
  show ?case
  proof (cases d)
    case None
    then have "run_state (decode_loop (receive_decode mode2_hw) r (Suc n)) s =
        run_state (decode_loop (receive_decode mode2_hw) (Suc r) n) t"
      using d by (simp add: s2_def t_def update_remote_def)
    with Suc.IH [OF t(1), of "Suc r"] t(2) Suc.prems(2) show ?thesis by simp
  next
    case (Some d')
    obtain res rem where g: "get_code (rx_remotes s1 ! r) (d_pre d') (d_code d') (d_post d') = (res, rem)"
      by fastforce
    then have s2': "s2 = s1\<lparr>rx_remotes := (rx_remotes s1)[r := rem]\<rparr>"
      using Some by (simp add: s2_def)
    show ?thesis
    proof (cases res)
      case None
      with Some d g s2' have "run_state (decode_loop (receive_decode mode2_hw) r (Suc n)) s =
          run_state (decode_loop (receive_decode mode2_hw) (Suc r) n) t"
        by (simp add: t_def update_remote_def)
      with Suc.IH [OF t(1), of "Suc r"] t(2) Suc.prems(2) show ?thesis by simp
    next
      case (Some p)
      with \<open>d = Some d'\<close> d g s2' have "run_state (decode_loop (receive_decode mode2_hw) r (Suc n)) s =
          run_state (report_code r (fst p) (snd p) d') s2"
        by (cases p) simp
      with rep show ?thesis by simp
    qed
  qed
qed

text \<open>
  C3: every remote is tried on the same signal: whatever \<open>decodeCommand\<close> does with the remotes in
  turn, the samples captured so far followed by those still to come are the same afterwards, provided
  none of the remotes uses the serial protocol.
\<close>

theorem decodeCommand_keeps_signal:
  assumes "signal_ok mode2_coming mode2_sound s" and "\<forall>rem\<in>set (rx_remotes s). \<not> is_serial rem"
  shows "signal mode2_coming (exec (decodeCommand (receive_decode mode2_hw)) s) = signal mode2_coming s \<and>
    signal_ok mode2_coming mode2_sound (exec (decodeCommand (receive_decode mode2_hw)) s)"
proof -
  let ?s = "s\<lparr>rx_decoding := (if length (rx_remotes s) = 0 then None else Some 0)\<rparr>"
  have "hears (signal mode2_coming s) s"
    using assms by (simp add: hears_def list_all_iff)
  then have "hears (signal mode2_coming s) ?s"
    by (rule hears_fields [rotated -1]) simp_all
  from hears_loop [OF this, of 0 "length (rx_remotes s)"] show ?thesis
    by (simp add: decodeCommand_def hears_def)
qed

theorem decodeCommand_keeps_signal_witness:
  "signal mode2_coming (exec (decodeCommand (receive_decode mode2_hw))
     (idle_rx [nec_remote, nec_remote\<lparr>r_pre_data := 3\<rparr>] [PULSE_MASK, 0x1002328, 4500])) = [PULSE_MASK, 0x1002328, 4500]"
proof -
  let ?s = "idle_rx [nec_remote, nec_remote\<lparr>r_pre_data := 3\<rparr>] [PULSE_MASK, 0x1002328, 4500]"
  have "signal_ok mode2_coming mode2_sound ?s" "signal mode2_coming ?s = [PULSE_MASK, 0x1002328, 4500]"
    by (rule idle_signal; simp)+
  moreover have "\<forall>rem\<in>set (rx_remotes ?s). \<not> is_serial rem"
    by (simp add: idle_rx_def nec_remote_def zero_remote_def is_serial_def protocol_def)
  ultimately show ?thesis
    using decodeCommand_keeps_signal [of ?s] by simp
qed

subsection \<open>The line\<close>

text \<open>
  The line can be read back: its first sixteen characters are the composite code in hexadecimal,
  all 64 bits of it, and what follows is a space, the repeat count, the button and the remote.
\<close>

theorem message_text_parses:
  "of_hex (take 16 (message_text remote_name button button_suffix code reps)) = unat code \<and>
   message_text remote_name button button_suffix code reps ! 16 = CHR '' '' \<and>
   (\<exists>n. of_hex (take n (drop 17 (message_text remote_name button button_suffix code reps))) = nat (u32 reps) \<and>
     drop (17 + n) (message_text remote_name button button_suffix code reps) =
       '' '' @ button @ button_suffix @ '' '' @ remote_name @ [CHR 0x0A])"
proof -
  let ?v = "nat (u32 reps)"
  have "unat code < 16 ^ 16"
    using unsigned_less [of code] by simp
  then have "of_hex (take 16 (message_text remote_name button button_suffix code reps)) = unat code"
    by (simp add: message_text_def of_hex_digits)
  moreover have "?v < 2 ^ 32"
    using u32_range [of reps] by (simp add: nat_less_iff)
  then have "?v < 16 ^ hex_width ?v"
    by (rule hex_width_enough)
  ultimately show ?thesis
    by (auto simp: message_text_def Let_def of_hex_digits nth_append intro!: exI [of _ "hex_width ?v"])
qed

text \<open>
  The length test after \<open>write_message\<close> cannot catch a line that does not fit: for every line
  longer than the buffer the length is -1, which is not at least \<open>PACKET_SIZE+1\<close>, and the buffer is
  full to its last character, without the terminating null.
\<close>

theorem write_message_overlong:
  assumes "257 < length (message_text name button suff code reps)"
  shows "snd (write_message 257 name button suff code reps) < 257 \<and>
    length (fst (write_message 257 name button suff code reps)) = 257"
  using assms by (simp add: write_message_def Let_def)

theorem write_message_overlong_witness:
  "length (fst (write_message 257 (replicate 300 CHR ''x'') ''KEY_1'' [] 0x59 0)) = 257"
proof -
  have "257 < length (message_text (replicate 300 CHR ''x'') ''KEY_1'' [] 0x59 0)"
    by (simp add: message_text_def Let_def)
  from write_message_overlong [OF this] show ?thesis by simp
qed
end
