(* ===== verification/ConfigLaws.thy ===== *)
theory ConfigLaws
  imports "HOL-Library.Multiset" Config CommandLaws
begin

text \<open>
  Theorems about the configuration parser: sorting, flags, the reading of codes, what holds of every
  remote that \<open>read_config\<close> returns, and that an include cycle is an error, not an endless loop.
\<close>

subsection \<open>Sorting\<close>

lemma mset_insert: "mset (insert_by_bit_count rem xs) = add_mset rem (mset xs)"
  by (induction xs) auto

lemma sorted_insert:
  "sorted (map bit_count xs) \<Longrightarrow> sorted (map bit_count (insert_by_bit_count rem xs))"
proof (induction xs)
  case Nil
  show ?case by simp
next
  case (Cons x xs)
  have "set (insert_by_bit_count rem xs) = insert rem (set xs)"
    using mset_insert [of rem xs] by (metis set_mset_add_mset_insert set_mset_mset)
  with Cons show ?case by auto
qed

lemma filter_insert:
  "sorted (map bit_count xs) \<Longrightarrow>
   filter (\<lambda>x. bit_count x = k) (insert_by_bit_count rem xs) =
   filter (\<lambda>x. bit_count x = k) xs @ (if bit_count rem = k then [rem] else [])"
proof (induction xs)
  case Nil
  show ?case by simp
next
  case (Cons x xs)
  have "filter (\<lambda>y. bit_count y = k) xs = []" if "bit_count rem < bit_count x" "bit_count rem = k"
    using that Cons.prems by (auto simp: filter_empty_conv)
  with Cons show ?case by auto
qed

lemma sort_laws:
  "mset (sort_by_bit_count xs) = mset xs" "sorted (map bit_count (sort_by_bit_count xs))"
  "filter (\<lambda>x. bit_count x = k) (sort_by_bit_count xs) = filter (\<lambda>x. bit_count x = k) xs"
proof -
  have *: "sorted (map bit_count acc) \<Longrightarrow>
    mset (foldl (\<lambda>top rem. insert_by_bit_count rem top) acc xs) = mset acc + mset xs \<and>
    sorted (map bit_count (foldl (\<lambda>top rem. insert_by_bit_count rem top) acc xs)) \<and>
    filter (\<lambda>x. bit_count x = k) (foldl (\<lambda>top rem. insert_by_bit_count rem top) acc xs) =
      filter (\<lambda>x. bit_count x = k) acc @ filter (\<lambda>x. bit_count x = k) xs" for acc xs k
    by (induction xs arbitrary: acc) (simp_all add: sorted_insert mset_insert filter_insert)
  from * [of "[]" xs k] show "mset (sort_by_bit_count xs) = mset xs"
    "sorted (map bit_count (sort_by_bit_count xs))"
    "filter (\<lambda>x. bit_count x = k) (sort_by_bit_count xs) = filter (\<lambda>x. bit_count x = k) xs"
    by (simp_all add: sort_by_bit_count_def)
qed

text \<open>
  The pointer surgery of \<open>sort_by_bit_count\<close> is the stable sort by the number of bits: no remote
  is lost or doubled, the shorter ones come first, and remotes of the same length keep the order of
  the file, which decides which of them \<open>decodeCommand\<close> tries first.
\<close>

theorem sort_by_bit_count_stable:
  "sort_by_bit_count remotes = sort_key bit_count remotes"
proof (rule properties_for_sort_key [symmetric])
  show "mset (sort_by_bit_count remotes) = mset remotes"
    by (rule sort_laws)
  show "sorted (map bit_count (sort_by_bit_count remotes))"
    by (rule sort_laws)
  show "filter (\<lambda>x. bit_count k = bit_count x) (sort_by_bit_count remotes) =
      filter (\<lambda>x. bit_count k = bit_count x) remotes" for k
    using sort_laws(3) [of "bit_count k" remotes] by (simp add: eq_commute)
qed

subsection \<open>Flags\<close>

definition protocols :: "int set" where
  "protocols = {RAW_CODES, RC5, RC6, RCMM, SPACE_ENC, SPACE_FIRST, GOLDSTAR, GRUNDIG, BO, SERIAL, XMP}"

lemma flag_of_known: "flag_of fl = Some f \<Longrightarrow> f \<in> snd ` set all_flags"
  by (auto simp: flag_of_def find_Some_iff image_iff) (metis nth_mem snd_conv)

lemma known_flags:
  assumes "f \<in> snd ` set all_flags"
  shows "f AND IR_PROTOCOL_MASK = 0 \<or> f \<in> protocols \<and> f AND IR_PROTOCOL_MASK = f"
  using assms by (auto simp: all_flags_def protocols_def)

lemma parse_flag_list_ok:
  "parse_flag_list fs flags = Some res \<Longrightarrow>
   flags AND IR_PROTOCOL_MASK = 0 \<or> flags AND IR_PROTOCOL_MASK \<in> protocols \<Longrightarrow>
   (res AND IR_PROTOCOL_MASK = 0 \<or> res AND IR_PROTOCOL_MASK \<in> protocols) \<and>
   (\<forall>k. bit res k \<longleftrightarrow> bit flags k \<or> (\<exists>f\<in>set fs. \<exists>v. flag_of f = Some v \<and> bit v k))"
proof (induction fs arbitrary: flags)
  case Nil
  then show ?case by simp
next
  case (Cons fl fs)
  from Cons.prems(1) obtain f where f: "flag_of fl = Some f"
    "\<not> (f AND IR_PROTOCOL_MASK \<noteq> 0 \<and> flags AND IR_PROTOCOL_MASK \<noteq> 0)" "parse_flag_list fs (flags OR f) = Some res"
    by (auto split: option.splits if_splits)
  have "(flags OR f) AND IR_PROTOCOL_MASK = (flags AND IR_PROTOCOL_MASK) OR (f AND IR_PROTOCOL_MASK)"
    by (simp add: bit.conj_disj_distrib2)
  with f(2) known_flags [OF flag_of_known [OF f(1)]] Cons.prems(2)
  have "(flags OR f) AND IR_PROTOCOL_MASK = 0 \<or> (flags OR f) AND IR_PROTOCOL_MASK \<in> protocols"
    by auto
  from Cons.IH [OF f(3) this] f(1) show ?case
    by (auto simp: bit_or_iff)
qed

text \<open>
  A flags line that is accepted sets exactly the bits of the flags it names, and of the
  protocols it names at most one, so every predicate like \<open>is_rc5\<close> decides the protocol uniquely.
\<close>

theorem parseFlags_exclusive:
  assumes "\<not> cf_error s" and "run_state (parseFlags val) s = (flags, s')" and "\<not> cf_error s'"
  shows "(flags AND IR_PROTOCOL_MASK = 0 \<or> flags AND IR_PROTOCOL_MASK \<in> protocols) \<and> s' = s \<and>
    (\<forall>k. bit flags k \<longleftrightarrow> (\<exists>f\<in>set (split_at (CHR ''|'') val). \<exists>v. flag_of f = Some v \<and> bit v k))"
proof -
  from assms have "parse_flag_list (split_at (CHR ''|'') val) 0 = Some flags" "s' = s"
    by (auto simp: parseFlags_def fail_def split: option.splits)
  with parse_flag_list_ok [of "split_at (CHR ''|'') val" 0 flags] show ?thesis
    by simp
qed

theorem parseFlags_exclusive_witness:
  "result (parseFlags ''rc5|CONST_LENGTH'') cfg_init AND IR_PROTOCOL_MASK = RC5"
proof -
  have r: "run_state (parseFlags ''rc5|CONST_LENGTH'') cfg_init = (0x4002, cfg_init)"
    by code_simp
  have "\<not> cf_error cfg_init"
    by (simp add: cfg_init_def)
  from parseFlags_exclusive [OF this r this] have "(0x4002 :: int) AND IR_PROTOCOL_MASK \<in> protocols"
    by simp
  with r show ?thesis by simp
qed

subsection \<open>Codes\<close>

lemma convert_hex_digit: "d < 16 \<Longrightarrow> convert (hex_digit d) = Some d"
  by (simp add: hex_digit_def convert_def)

lemma strtouq_hex_digits:
  "strtouq_digits (hex_digits n v @ cs) 16 res = strtouq_digits cs 16 (res * 16 ^ n + of_nat (v mod 16 ^ n))"
proof (induction n arbitrary: v res cs)
  case 0
  show ?case by simp
next
  case (Suc n)
  have "strtouq_digits (hex_digits (Suc n) v @ cs) 16 res =
      strtouq_digits (hex_digits n (v div 16) @ (hex_digit (v mod 16) # cs)) 16 res"
    by simp
  also have "\<dots> = strtouq_digits cs 16 ((res * 16 ^ n + of_nat (v div 16 mod 16 ^ n)) * 16 + of_nat (v mod 16))"
    by (simp add: Suc.IH convert_hex_digit)
  also have "(res * 16 ^ n + of_nat (v div 16 mod 16 ^ n)) * 16 + of_nat (v mod 16) =
      res * 16 ^ Suc n + (of_nat (v div 16 mod 16 ^ n * 16 + v mod 16) :: ir_code)"
    by (simp add: algebra_simps)
  also have "v div 16 mod 16 ^ n * 16 + v mod 16 = v mod 16 ^ Suc n"
    using mod_mult2_eq [of v 16 "16 ^ n"] by simp
  finally show ?case .
qed

text \<open>
  Codes survive the round trip through text: the sixteen hexadecimal digits with which a code is
  broadcast, read back by the configuration parser, give the same 64-bit code, with nothing left over
  and no parse error.
\<close>

theorem code_text_roundtrip:
  "run_state (s_strtocode (''0x'' @ take 16 (message_text remote_name button suff code reps))) s = (code, s)"
proof -
  have "unat code < 16 ^ 16"
    using unsigned_less [of code] by simp
  then have "strtouq_digits (hex_digits 16 (unat code)) 16 0 = (code, [])"
    using strtouq_hex_digits [of 16 "unat code" "[]" 0] by simp
  then show ?thesis
    by (simp add: s_strtocode_def strtouq_def message_text_def is_blank_def)
qed

subsection \<open>What a configuration contains\<close>

text \<open>The settings that \<open>sanityChecks\<close> accepts and leaves behind.\<close>

definition masked :: "int \<Rightarrow> ir_code \<Rightarrow> bool" where
  "masked bits c \<longleftrightarrow> c AND gen_mask bits = c"

definition checked :: "ir_remote \<Rightarrow> bool" where
  "checked rem \<longleftrightarrow> r_name rem \<noteq> None \<and>
     (\<not> is_raw rem \<longrightarrow> masked (r_pre_data_bits rem) (r_pre_data rem) \<and>
        masked (r_post_data_bits rem) (r_post_data rem) \<and>
        (\<exists>ncs. r_codes rem = Some ncs \<and> (\<forall>nc\<in>set ncs. masked (r_bits rem) (n_code nc))))"

lemma masked_and [simp]: "masked bits (c AND gen_mask bits)"
  by (simp add: masked_def bit_eq_iff bit_and_iff)

lemma masked_reverse [simp]: "masked bits (reverse c bits)"
proof -
  define step where "step = (\<lambda>i r. r OR shl64 (if c AND shl64 1 (int i) \<noteq> 0 then 1 else 0) (bits - 1 - int i))"
  have "bit (fold step [0..<n] 0) k \<Longrightarrow> int k < bits" for n k
    by (induction n) (auto simp: step_def bit_or_iff bit_shl64 bit_1_iff split: if_splits)
  then have "bit (reverse c bits) k \<Longrightarrow> int k < bits" for k
    by (simp add: reverse_def step_def)
  then show ?thesis
    by (auto simp: masked_def bit_eq_iff bit_and_iff bit_gen_mask dest: bit_imp_le_length)
qed

lemma sanityChecks_ok: "sanityChecks rem = Some (True, rem') \<Longrightarrow> checked rem'"
  by (auto simp: sanityChecks_def checked_def is_raw_def protocol_def mask_code_def
      split: if_splits option.splits)

text \<open>
  Inside a remote the lines write only to the open remote, the last of the chain, and to the lists
  that are being built.
\<close>

locale open_remote = step_relation R
  for R :: "cfg \<Rightarrow> cfg \<Rightarrow> bool" +
  assumes fail: "state_io_rel R fail"
    and set_rem: "state_io_rel R (set_rem f)"
    and set_mode: "m \<noteq> ID_none \<Longrightarrow> R s (s\<lparr>cf_mode := m\<rparr>)"
    and set_lists: "R s (s\<lparr>cf_codes_list := cl, cf_raw_codes := rl, cf_signals := ss, cf_raw_code := rc\<rparr>)"
begin

lemma lists:
  assumes "\<And>s. f s = s\<lparr>cf_codes_list := cf_codes_list (f s), cf_raw_codes := cf_raw_codes (f s),
    cf_signals := cf_signals (f s), cf_raw_code := cf_raw_code (f s)\<rparr>"
  shows "state_io_rel R (wr f)"
  by (rule wr) (metis assms set_lists)

lemma modes:
  assumes "m \<noteq> ID_none" and "\<And>s. f s = s\<lparr>cf_codes_list := cf_codes_list (f s), cf_raw_codes := cf_raw_codes (f s),
    cf_signals := cf_signals (f s), cf_raw_code := cf_raw_code (f s), cf_mode := m\<rparr>"
  shows "state_io_rel R (wr f)"
proof (rule wr)
  fix s
  let ?t = "s\<lparr>cf_codes_list := cf_codes_list (f s), cf_raw_codes := cf_raw_codes (f s),
    cf_signals := cf_signals (f s), cf_raw_code := cf_raw_code (f s)\<rparr>"
  from assms(2) [of s] have "f s = ?t\<lparr>cf_mode := m\<rparr>" by simp
  moreover have "R s (?t\<lparr>cf_mode := m\<rparr>)"
    by (rule R_trans [OF set_lists set_mode]) (rule assms(1))
  ultimately show "R s (f s)" by simp
qed

lemma readers:
  "state_io_rel R (s_strtocode v)" "state_io_rel R (s_strtoul v)" "state_io_rel R (s_strtoi v)"
  "state_io_rel R (s_strtoui v)" "state_io_rel R (s_strtolirc_t v)" "state_io_rel R (parseFlags v)"
  "state_io_rel R (checkMode m)"
  unfolding s_strtocode_def s_strtoul_def s_strtoi_def s_strtoui_def s_strtolirc_t_def parseFlags_def
    checkMode_def Let_def
  by (intro flow fail)+

lemmas setters = flow fail set_rem readers

lemma case_string:
  "state_io_rel R m \<Longrightarrow> (\<And>x xs. state_io_rel R (f x xs)) \<Longrightarrow>
   state_io_rel R (case l of [] \<Rightarrow> m | x # xs \<Rightarrow> f x xs)"
  by (cases l) auto

lemma serial: "state_io_rel R (serial_mode v)"
  unfolding serial_mode_def Let_def by (intro setters case_string)

lemma define_remote: "state_io_rel R (defineRemote key v v2)"
  unfolding defineRemote_def set_int_def set_code_field_def define_pair_def set_pair_def define_gap_def
  by (intro setters serial)

lemma nodes: "state_io_rel R (add_nodes c vs)"
  by (induction vs arbitrary: c)
    (simp_all only: add_nodes.simps defineNode_def, (intro setters | assumption)+)

lemma button: "state_io_rel R (add_button key v vs)"
  unfolding add_button_def defineCode_def by (intro setters nodes lists) simp

lemma add_signal: "state_io_rel R (addSignal v)"
  unfolding addSignal_def by (intro setters lists) simp

lemma add_all: "state_io_rel R (add_signals vs)"
  by (induction vs) (simp_all only: add_signals.simps, (intro setters add_signal | assumption)+)

lemma end_raw: "state_io_rel R end_raw_button"
  unfolding end_raw_button_def by (intro setters lists) simp_all

lemma raw_line: "state_io_rel R (raw_line key v vs)"
  unfolding raw_line_def by (intro setters end_raw add_all modes [of ID_raw_name]) simp_all

end

text \<open>The remotes before the open one are complete.\<close>

definition opened :: "cfg \<Rightarrow> bool" where
  "opened s \<longleftrightarrow> cf_mode s \<noteq> ID_none \<and> Suc (cf_rem s) = length (cf_remotes s) \<and>
     (\<forall>rem\<in>set (take (cf_rem s) (cf_remotes s)). checked rem)"

definition closed :: "cfg \<Rightarrow> bool" where
  "closed s \<longleftrightarrow> cf_mode s = ID_none \<and> (cf_remotes s = [] \<or> Suc (cf_rem s) = length (cf_remotes s)) \<and>
     (\<forall>rem\<in>set (cf_remotes s). checked rem)"

interpretation opened: open_remote "keeping opened"
  by unfold_locales (auto simp: state_io_rel_def keeping_def opened_def fail_def set_rem_def)

lemmas keeps = opened.define_remote opened.button opened.add_signal opened.raw_line opened.end_raw
  opened.readers opened.fail opened.set_rem

lemma keeps_opened: "state_io_rel (keeping opened) m \<Longrightarrow> opened s \<Longrightarrow> opened (exec m s)"
  by (simp add: state_io_rel_def keeping_def)

lemma keeps_wr: "(\<And>s. opened s \<Longrightarrow> opened (f s)) \<Longrightarrow> state_io_rel (keeping opened) (wr f)"
  by (simp add: state_io_rel_def keeping_def)

lemma begin_line_opened:
  assumes "opened s" and "\<not> strcasecmp ''remote'' v"
  shows "opened (exec (begin_line key v vs) s)"
proof -
  have "state_io_rel (keeping opened) (begin_line key v vs)"
    unfolding begin_line_def by (intro keeping.flow keeps keeps_wr | simp add: opened_def assms(2))+
  from keeps_opened [OF this assms(1)] show ?thesis .
qed

lemma end_line_opened:
  assumes "opened s" and "\<not> strcasecmp ''remote'' v"
  shows "opened (exec (end_line key v vs) s)"
proof -
  have "state_io_rel (keeping opened) (end_line key v vs)"
    unfolding end_line_def by (intro keeping.flow keeps keeps_wr | simp add: opened_def assms(2))+
  from keeps_opened [OF this assms(1)] show ?thesis .
qed

lemma checkMode_run: "run_state (checkMode m) s =
    (cf_mode s = m, if cf_mode s = m then s else s\<lparr>cf_error := True\<rparr>)"
  by (simp add: checkMode_def fail_def)

lemma begin_line_closed:
  assumes "closed s"
  shows "let t = exec (begin_line key v vs) s in cf_error t \<or> opened t"
  using assms
  by (auto simp: begin_line_def checkMode_run link_remotes_def fail_def closed_def opened_def Let_def)

lemma end_remote_opened:
  assumes "opened s"
  shows "let t = exec end_remote s in cf_error t \<or> cf_ub t \<or> closed t"
proof (cases "sanityChecks (cf_remotes s ! cf_rem s)")
  case None
  then show ?thesis by (simp add: end_remote_def crash_def)
next
  case (Some p)
  then obtain ok rem where p: "sanityChecks (cf_remotes s ! cf_rem s) = Some (ok, rem)"
    by (cases p) auto
  show ?thesis
  proof (cases ok)
    case False
    with p show ?thesis by (simp add: end_remote_def fail_def)
  next
    case True
    with p sanityChecks_ok have "checked rem" by simp
    then have "checked (rem\<lparr>r_last_code := None\<rparr>)"
      by (simp add: checked_def is_raw_def protocol_def)
    with True p assms show ?thesis
      by (auto simp: end_remote_def set_rem_def closed_def opened_def Let_def upd_conv_take_nth_drop)
  qed
qed

text \<open>After a line, unless it is the last one read, the state is open or closed.\<close>

definition between :: "cfg \<Rightarrow> bool" where
  "between s \<longleftrightarrow> cf_error s \<or> cf_ub s \<or> opened s \<or> closed s"

lemma include_closed: "between s \<Longrightarrow> between (exec (include_line (\<lambda>_. None) deep name v) s)"
  by (auto simp: include_line_def fail_def between_def split: option.splits)

lemma between_keep: "opened s \<Longrightarrow> state_io_rel (keeping opened) m \<Longrightarrow> between (exec m s)"
  using keeps_opened [of m s] by (simp add: between_def)

lemma errs: "exec fail s = s\<lparr>cf_error := True\<rparr>"
  by (simp add: fail_def)

lemma begin_line_between:
  assumes "opened s \<or> closed s"
  shows "between (exec (begin_line key v vs) s)"
  using assms
proof
  assume "closed s"
  from begin_line_closed [OF this, of key v vs] show ?thesis by (auto simp: between_def Let_def)
next
  assume s: "opened s"
  show ?thesis
  proof (cases "strcasecmp ''remote'' v")
    case True
    then have "\<not> strcasecmp ''codes'' v" "\<not> strcasecmp ''raw_codes'' v"
      by (auto simp: strcasecmp_def)
    with True s show ?thesis
      by (auto simp: begin_line_def checkMode_run between_def opened_def)
  next
    case False
    from begin_line_opened [OF s this] show ?thesis by (simp add: between_def)
  qed
qed

lemma end_line_between:
  assumes "opened s \<or> closed s"
  shows "between (exec (end_line key v vs) s)"
  using assms
proof
  assume "closed s"
  then show ?thesis
    by (auto simp: end_line_def checkMode_run fail_def closed_def between_def)
next
  assume s: "opened s"
  show ?thesis
  proof (cases "strcasecmp ''remote'' v")
    case True
    then have "\<not> strcasecmp ''codes'' v" "\<not> strcasecmp ''raw_codes'' v"
      by (auto simp: strcasecmp_def)
    with True s end_remote_opened [OF s] show ?thesis
      by (auto simp: end_line_def checkMode_run between_def Let_def)
  next
    case False
    from end_line_opened [OF s this] show ?thesis by (simp add: between_def)
  qed
qed

lemma config_line_between:
  assumes "\<not> cf_error s" and "\<not> cf_ub s" and "between s"
  shows "between (exec (config_line (\<lambda>_. None) deep name buf) s)"
proof -
  from assms have s: "opened s \<or> closed s" by (simp add: between_def)
  have wrong: "between (exec fail s)" by (simp add: between_def errs)
  show ?thesis
  proof (cases "tokens (chomp buf)")
    case Nil
    with assms(3) show ?thesis by (simp add: config_line_def Let_def)
  next
    case (Cons key rest)
    note key = this
    show ?thesis
    proof (cases rest)
      case Nil
      have "between (exec (addSignal key) s)" if "cf_mode s = ID_raw_name"
      proof -
        from that s have "opened s" by (auto simp: closed_def)
        from keeps_opened [OF keeps(3) this] show ?thesis by (simp add: between_def)
      qed
      with key Nil assms(3) wrong show ?thesis
        by (simp add: config_line_def Let_def run_bind del: run_state_bind)
    next
      case (Cons v vs)
      have inside: "opened s" if "cf_mode s \<noteq> ID_none"
        using that s by (auto simp: closed_def)
      have other: "between (exec (do { mode \<leftarrow> rd cf_mode;
          case mode of ID_none \<Rightarrow> ret ()
          | ID_remote \<Rightarrow> do { _ \<leftarrow> defineRemote key v (case vs of [] \<Rightarrow> None | v # _ \<Rightarrow> Some v); ret () }
          | ID_codes \<Rightarrow> add_button key v vs
          | _ \<Rightarrow> raw_line key v vs }) s)"
        using assms(3)
        by (cases "cf_mode s") (simp_all add: run_bind between_keep [OF inside] keeps del: run_state_bind)
      from key Cons assms(3) other begin_line_between [OF s] end_line_between [OF s] include_closed [OF assms(3)]
      show ?thesis
        by (simp add: config_line_def Let_def run_bind del: run_state_bind)
    qed
  qed
qed

lemma config_lines_step:
  "exec (config_lines inc deep name (buf # bufs)) s =
   (if cf_error (exec (config_line inc deep name buf) s) \<or> cf_ub (exec (config_line inc deep name buf) s)
    then exec (config_line inc deep name buf) s
    else exec (config_lines inc deep name bufs) (exec (config_line inc deep name buf) s))"
  by (simp add: run_bind del: run_state_bind)

lemma config_lines_between:
  "between s \<Longrightarrow> \<not> cf_error s \<Longrightarrow> \<not> cf_ub s \<Longrightarrow>
   between (exec (config_lines (\<lambda>_. None) deep name bufs) s)"
proof (induction bufs arbitrary: s)
  case Nil
  then show ?case by simp
next
  case (Cons buf bufs)
  let ?t = "exec (config_line (\<lambda>_. None) deep name buf) s"
  from Cons.prems have t: "between ?t" by (intro config_line_between)
  with Cons.IH [of ?t] show ?case
    by (simp add: run_bind del: run_state_bind)
qed

text \<open>What \<open>finish_remote\<close> establishes beyond that.\<close>

definition usable :: "ir_remote \<Rightarrow> bool" where
  "usable rem \<longleftrightarrow> checked rem \<and> r_toggle_bit rem \<le> 0 \<and>
     (is_serial rem \<longrightarrow> r_bits_in_byte rem \<noteq> 0) \<and>
     (r_min_code_repeat rem > 0 \<longrightarrow> has_repeat rem \<and> r_min_code_repeat rem \<le> r_min_repeat rem) \<and>
     (is_raw rem \<or> \<not> has_flag rem REVERSE)"

lemmas remote_facts = checked_def is_raw_def is_serial_def protocol_def has_flag_def has_repeat_def

lemma no_reverse:
  "(f AND NOT REVERSE OR COMPAT_REVERSE) AND IR_PROTOCOL_MASK = f AND IR_PROTOCOL_MASK"
  "(f AND NOT REVERSE OR COMPAT_REVERSE) AND REVERSE = 0"
  by (simp_all only: bit.conj_disj_distrib2 and.assoc) simp_all

lemma kick_reverse_checked:
  assumes "checked rem" and "kick_reverse rem = Some rem'"
  shows "checked rem' \<and> (is_raw rem' \<or> \<not> has_flag rem' REVERSE)"
proof (cases "\<not> is_raw rem \<and> has_flag rem REVERSE")
  case False
  with assms show ?thesis by (auto simp: kick_reverse_def)
next
  case True
  with assms show ?thesis
    by (auto simp: kick_reverse_def Let_def remote_facts no_reverse no_reverse [simplified] split: option.splits if_splits)
qed

lemma fix_toggle_ok:
  assumes "checked rem" and "is_raw rem \<or> \<not> has_flag rem REVERSE"
  shows "checked (fix_toggle rem) \<and> r_toggle_bit (fix_toggle rem) \<le> 0 \<and>
    (is_raw (fix_toggle rem) \<or> \<not> has_flag (fix_toggle rem) REVERSE)"
  using assms by (auto simp: fix_toggle_def Let_def remote_facts split: option.splits)

lemma fix_serial_ok:
  assumes "checked rem" and "r_toggle_bit rem \<le> 0" and "is_raw rem \<or> \<not> has_flag rem REVERSE"
  shows "checked (fix_serial rem) \<and> r_toggle_bit (fix_serial rem) \<le> 0 \<and>
    (is_raw (fix_serial rem) \<or> \<not> has_flag (fix_serial rem) REVERSE) \<and>
    (is_serial (fix_serial rem) \<longrightarrow> r_bits_in_byte (fix_serial rem) \<noteq> 0)"
  using assms by (auto simp: fix_serial_def Let_def remote_facts)

lemma finish_remote_usable:
  assumes "checked rem" and "finish_remote rem = Some rem'"
  shows "usable rem'"
proof -
  from assms(2) obtain r where r: "kick_reverse rem = Some r" "rem' = fix_repeat (fix_serial (fix_toggle r))"
    by (auto simp: finish_remote_def)
  let ?r = "fix_serial (fix_toggle r)"
  from kick_reverse_checked [OF assms(1) r(1)] have "checked (fix_toggle r) \<and> r_toggle_bit (fix_toggle r) \<le> 0 \<and>
      (is_raw (fix_toggle r) \<or> \<not> has_flag (fix_toggle r) REVERSE)"
    by (intro fix_toggle_ok) simp_all
  then have "checked ?r \<and> r_toggle_bit ?r \<le> 0 \<and> (is_raw ?r \<or> \<not> has_flag ?r REVERSE) \<and>
      (is_serial ?r \<longrightarrow> r_bits_in_byte ?r \<noteq> 0)"
    by (intro fix_serial_ok) simp_all
  then show ?thesis
    unfolding r(2) fix_repeat_def usable_def by (auto simp: remote_facts)
qed


text \<open>A small file, read line by line.\<close>

abbreviation nl :: char where "nl \<equiv> CHR 0x0A"

abbreviation small_conf :: "string list" where
  "small_conf \<equiv> [''begin remote'' @ [nl], ''name r'' @ [nl], ''bits 4'' @ [nl], ''begin codes'' @ [nl],
     ''k 0x1F'' @ [nl], ''end codes'' @ [nl], ''end remote'']"

abbreviation small_step :: "string \<Rightarrow> cfg \<Rightarrow> cfg" where
  "small_step l s \<equiv> exec (config_line (\<lambda>_. None) False None l) s"

abbreviation small_remote :: ir_remote where
  "small_remote \<equiv> zero_remote\<lparr>r_name := Some ''r'', r_bits := 4\<rparr>"

abbreviation small_code :: ir_ncode where
  "small_code \<equiv> no_code_entry\<lparr>n_name := ''k'', n_code := 0x1F\<rparr>"

lemma small_conf_1:
  "small_step (''begin remote'' @ [nl]) cfg_init = cfg_init\<lparr>cf_mode := ID_remote, cf_remotes := [zero_remote]\<rparr>"
  by code_simp

lemma small_conf_2:
  "small_step (''name r'' @ [nl]) (cfg_init\<lparr>cf_mode := ID_remote, cf_remotes := [zero_remote]\<rparr>) =
   cfg_init\<lparr>cf_mode := ID_remote, cf_remotes := [zero_remote\<lparr>r_name := Some ''r''\<rparr>]\<rparr>"
  by code_simp

lemma small_conf_3:
  "small_step (''bits 4'' @ [nl]) (cfg_init\<lparr>cf_mode := ID_remote, cf_remotes := [zero_remote\<lparr>r_name := Some ''r''\<rparr>]\<rparr>) =
   cfg_init\<lparr>cf_mode := ID_remote, cf_remotes := [small_remote]\<rparr>"
  by code_simp

lemma small_conf_4:
  "small_step (''begin codes'' @ [nl]) (cfg_init\<lparr>cf_mode := ID_remote, cf_remotes := [small_remote]\<rparr>) =
   cfg_init\<lparr>cf_mode := ID_codes, cf_remotes := [small_remote]\<rparr>"
  by code_simp

lemma small_conf_5:
  "small_step (''k 0x1F'' @ [nl]) (cfg_init\<lparr>cf_mode := ID_codes, cf_remotes := [small_remote]\<rparr>) =
   cfg_init\<lparr>cf_mode := ID_codes, cf_remotes := [small_remote], cf_codes_list := [small_code]\<rparr>"
  by (simp add: config_line_def tokens_def add_button_def defineCode_def s_strtocode_def strtouq_def convert_def
      is_blank_def chomp_def strcasecmp_def tolower_def no_code_entry_def cfg_init_def)

lemma small_conf_6:
  "small_step (''end codes'' @ [nl]) (cfg_init\<lparr>cf_mode := ID_codes, cf_remotes := [small_remote], cf_codes_list := [small_code]\<rparr>) =
   cfg_init\<lparr>cf_mode := ID_remote, cf_remotes := [small_remote\<lparr>r_codes := Some [small_code]\<rparr>], cf_codes_list := [small_code]\<rparr>"
  by code_simp

lemma small_conf_7:
  "small_step ''end remote'' (cfg_init\<lparr>cf_mode := ID_remote, cf_remotes := [small_remote\<lparr>r_codes := Some [small_code]\<rparr>], cf_codes_list := [small_code]\<rparr>) =
   cfg_init\<lparr>cf_remotes := [small_remote\<lparr>r_codes := Some [small_code\<lparr>n_code := 0xF\<rparr>]\<rparr>], cf_codes_list := [small_code]\<rparr>"
  by code_simp

lemma small_conf_buffers: "buffers (concat small_conf) = small_conf"
  by code_simp


lemma small_conf_read:
  "read_config (\<lambda>_. None) None (concat small_conf) =
   (False, False, [small_remote\<lparr>r_codes := Some [small_code\<lparr>n_code := 0xF\<rparr>]\<rparr>])"
proof -
  have "read_config (\<lambda>_. None) None (concat small_conf) =
      finish_config (exec (config_lines (\<lambda>_. None) False None (buffers (concat small_conf))) cfg_init)"
    by (simp add: read_config_def eval_nat_numeral del: buffers.simps concat.simps)
  also have "exec (config_lines (\<lambda>_. None) False None (buffers (concat small_conf))) cfg_init =
      cfg_init\<lparr>cf_remotes := [small_remote\<lparr>r_codes := Some [small_code\<lparr>n_code := 0xF\<rparr>]\<rparr>], cf_codes_list := [small_code]\<rparr>"
    unfolding small_conf_buffers
    by (simp only: config_lines_step config_lines.simps(1) small_conf_1 small_conf_2 small_conf_3 small_conf_4
        small_conf_5 small_conf_6 small_conf_7) (simp add: cfg_init_def)
  also have "finish_config \<dots> = (False, False, [small_remote\<lparr>r_codes := Some [small_code\<lparr>n_code := 0xF\<rparr>]\<rparr>])"
    by code_simp
  finally show ?thesis .
qed


subsection \<open>Includes\<close>

text \<open>The file that the first line of a file includes.\<close>

definition first_include :: "string \<Rightarrow> string \<Rightarrow> string option" where
  "first_include name f = (case buffers f of
       [] \<Rightarrow> None
     | buf # _ \<Rightarrow>
         (case tokens (chomp buf) of
            key # v # _ \<Rightarrow>
              if take 1 (chomp buf) \<noteq> ''#'' \<and> strcasecmp ''include'' key
              then Option.bind (lirc_parse_include v) (\<lambda>child. lirc_parse_relative child (Some name))
              else None
          | _ \<Rightarrow> None))"

lemma first_include_step:
  assumes "first_include name f = Some q"
  obtains buf bufs where "buffers f = buf # bufs"
    and "\<And>inc deep s. exec (config_line inc deep (Some name) buf) s =
      (if deep then s\<lparr>cf_error := True\<rparr>
       else (case inc q of None \<Rightarrow> s
         | Some (err, ub, xs) \<Rightarrow> (exec (link_remotes xs) s)\<lparr>cf_error := err, cf_ub := cf_ub (exec (link_remotes xs) s) \<or> ub\<rparr>))"
proof -
  from assms obtain buf bufs key v vs child where *:
    "buffers f = buf # bufs" "tokens (chomp buf) = key # v # vs" "take 1 (chomp buf) \<noteq> ''#''"
    "strcasecmp ''include'' key" "lirc_parse_include v = Some child"
    "lirc_parse_relative child (Some name) = Some q"
    by (auto simp: first_include_def bind_eq_Some_conv split: list.splits if_splits)
  then have "exec (config_line inc deep (Some name) buf) s =
      (if deep then s\<lparr>cf_error := True\<rparr>
       else (case inc q of None \<Rightarrow> s
         | Some (err, ub, xs) \<Rightarrow> (exec (link_remotes xs) s)\<lparr>cf_error := err, cf_ub := cf_ub (exec (link_remotes xs) s) \<or> ub\<rparr>))"
    for inc deep s
    by (simp add: config_line_def include_line_def errs run_bind split: option.split prod.split
        del: run_state_bind)
  with * that show ?thesis by blast
qed

lemma include_cycle_deep:
  assumes "\<And>p. p \<in> cycle \<Longrightarrow> \<exists>f q. files p = Some f \<and> first_include p f = Some q \<and> q \<in> cycle"
    and "p \<in> cycle" and "files p = Some f"
  shows "read_config_recursive n files (Some p) f = (True, False, [])"
  using assms(2,3)
proof (induction n arbitrary: p f)
  case 0
  from assms(1) [OF 0(1)] 0(2) obtain q where "first_include p f = Some q" by auto
  then show ?case
    by (rule first_include_step)
      (simp add: run_bind finish_config_def cfg_init_def del: run_state_bind buffers.simps)
next
  case (Suc n)
  from assms(1) [OF Suc.prems(1)] Suc.prems(2) obtain q where q: "first_include p f = Some q" "q \<in> cycle"
    by auto
  from assms(1) [OF q(2)] obtain g where "files q = Some g" by auto
  with q(2) Suc.IH have "read_config_recursive n files (Some q) g = (True, False, [])" "files q = Some g"
    by auto
  with q(1) show ?case
    by (elim first_include_step)
      (simp add: run_bind link_remotes_def finish_config_def cfg_init_def del: run_state_bind buffers.simps)
qed

text \<open>
  Files that include each other in a cycle of any length are a parse error: the nesting limit ends
  the recursion, every level passes the error on, and no remotes are left.
\<close>

theorem include_cycle_rejected:
  assumes "\<forall>p\<in>cycle. \<exists>f q. files p = Some f \<and> first_include p f = Some q \<and> q \<in> cycle"
    and "p \<in> cycle" and "files p = Some f"
  shows "read_config files (Some p) f = (True, False, [])"
  unfolding read_config_def using assms by (intro include_cycle_deep) auto

abbreviation loop_files :: "string \<Rightarrow> string option" where
  "loop_files \<equiv> [''/a'' \<mapsto> ''include <b>'', ''/b'' \<mapsto> ''include </a>'']"

theorem include_cycle_rejected_witness:
  "read_config loop_files (Some ''/a'') ''include <b>'' = (True, False, [])"
proof (rule include_cycle_rejected [of "{''/a'', ''/b''}"])
  have a: "first_include ''/a'' ''include <b>'' = Some ''/b''" by code_simp
  have b: "first_include ''/b'' ''include </a>'' = Some ''/a''" by code_simp
  from a b show "\<forall>p\<in>{''/a'', ''/b''}. \<exists>f q. loop_files p = Some f \<and> first_include p f = Some q \<and> q \<in> {''/a'', ''/b''}"
    by simp
qed simp_all

end
