(* ===== verification/Server.thy ===== *)
theory Server
  imports LircDefs CText
begin

text \<open>
  The TCP server, \<open>winlirc/server.cpp\<close>: the eight client slots and their line buffers, the loop of
  \<open>ThreadProc\<close> over the events of the sockets, and the commands \<open>VERSION\<close>, \<open>LIST\<close>,
  \<open>SET_TRANSMITTERS\<close> and \<open>SEND_ONCE\<close>.

  A socket is a number; what the network delivers is part of an event. Everything sent is appended
  to \<open>sv_out\<close>, with the socket it is sent to. The plugin behind \<open>app.dlg->driver\<close> is the record
  \<open>driver\<close> of its entry points over a state of its own, \<^const>\<open>None\<close> where the library does not
  export the function; \<open>sendIR\<close> gets the chain of remotes, since a plugin updates the remote it is
  sending, and the positions of the remote and the code.
\<close>

subsection \<open>The driver\<close>

record 'p driver =
  dr_send :: "('p \<Rightarrow> ir_remote list \<Rightarrow> nat \<Rightarrow> nat \<Rightarrow> int \<Rightarrow> bool \<times> ir_remote list \<times> 'p) option"
  dr_transmitters :: "('p \<Rightarrow> 32 word \<Rightarrow> bool \<times> 'p) option"

subsection \<open>The state\<close>

abbreviation MAX_CLIENTS :: nat where "MAX_CLIENTS \<equiv> 8"
abbreviation MAX_DATA :: nat where "MAX_DATA \<equiv> 1024"

record 'p server =
  sv_clients :: "nat option list"
  sv_data :: "string list"
  sv_out :: "(nat \<times> string) list"
  sv_remotes :: "ir_remote list"
  sv_plugin :: 'p

definition server_start :: "ir_remote list \<Rightarrow> 'p \<Rightarrow> 'p server" where
  "server_start remotes p = \<lparr>sv_clients = replicate MAX_CLIENTS None, sv_data = replicate MAX_CLIENTS [],
     sv_out = [], sv_remotes = remotes, sv_plugin = p\<rparr>"

subsection \<open>Sending\<close>

text \<open>
  The bytes the loop of \<open>sendData\<close> hands to the network when the successive calls of \<open>send\<close> accept
  the given numbers of bytes: each call starts at \<open>s+sent\<close>, where \<open>sent\<close> is what the call before
  accepted.
\<close>

fun sendData_bytes :: "nat \<Rightarrow> nat \<Rightarrow> string \<Rightarrow> nat list \<Rightarrow> string" where
  "sendData_bytes sent len s [] = []"
| "sendData_bytes sent len s (n # ns) =
    (if len = 0 then []
     else (let m = min n len in take m (drop sent s) @ sendData_bytes m (len - m) s ns))"

text \<open>In the rest of the model one call accepts everything.\<close>

definition sendData :: "nat option \<Rightarrow> string \<Rightarrow> ('p server, unit) state" where
  "sendData socket s = (case socket of
       None \<Rightarrow> ret ()
     | Some k \<Rightarrow> wr (\<lambda>sv. sv\<lparr>sv_out := sv_out sv @ [(k, sendData_bytes 0 (length s) s [length s])]\<rparr>))"

fun send_each :: "nat option list \<Rightarrow> string \<Rightarrow> ('p server, unit) state" where
  "send_each [] s = ret ()"
| "send_each (k # ks) s = do { sendData k s; send_each ks s }"

definition sendToClients :: "string \<Rightarrow> ('p server, unit) state" where
  "sendToClients s = do { ks \<leftarrow> rd sv_clients; send_each ks s }"

abbreviation lf :: string where "lf \<equiv> [CHR 0x0A]"

definition packet :: "string \<Rightarrow> bool \<Rightarrow> string \<Rightarrow> string" where
  "packet command success data =
     ''BEGIN'' @ lf @ command @ (if success then lf @ ''SUCCESS'' @ lf else lf @ ''ERROR'' @ lf) @ data @ ''END'' @ lf"

definition reply :: "string \<Rightarrow> nat \<Rightarrow> bool \<Rightarrow> string \<Rightarrow> ('p server, unit) state" where
  "reply command client success data = do {
     k \<leftarrow> rd (\<lambda>sv. sv_clients sv ! client);
     sendData k (packet command success data)
   }"

subsection \<open>The commands\<close>

definition is_delim :: "char \<Rightarrow> bool" where
  "is_delim c \<longleftrightarrow> c = CHR '' '' \<or> c = CHR 0x09 \<or> c = CHR 0x0D"

text \<open>\<open>DATA\<close>, the number of lines and the lines.\<close>

definition data_lines :: "string list \<Rightarrow> string" where
  "data_lines ls = ''DATA'' @ lf @ dec_digits (length ls) @ lf @ concat (map (\<lambda>l. l @ lf) ls)"

fun index_where :: "('a \<Rightarrow> bool) \<Rightarrow> 'a list \<Rightarrow> nat option" where
  "index_where P [] = None"
| "index_where P (x # xs) = (if P x then Some 0 else map_option Suc (index_where P xs))"

definition get_remote_by_name :: "ir_remote list \<Rightarrow> string \<Rightarrow> nat option" where
  "get_remote_by_name remotes name = index_where (\<lambda>rem. strcasecmp name (the (r_name rem))) remotes"

text \<open>\<^const>\<open>None\<close> is the entry without a name that ends the array.\<close>

definition get_code_by_name :: "ir_ncode list \<Rightarrow> string \<Rightarrow> nat option" where
  "get_code_by_name codes name = index_where (\<lambda>nc. strcasecmp name (n_name nc)) codes"

definition codes_of :: "ir_remote \<Rightarrow> ir_ncode list" where
  "codes_of rem = the (r_codes rem)"

definition parseVersion :: "string \<Rightarrow> string list \<Rightarrow> bool \<times> string" where
  "parseVersion ident args = (if args = [] then (True, data_lines [ident]) else (False, data_lines [''bad send packet'']))"

text \<open>\<open>%016llX\<close>\<close>

text \<open>
  For an unknown code \<open>get_code_by_name\<close> returns the end of the array, code 0 and a null name, which
  \<open>CString::Format\<close> prints as \<open>(null)\<close>; the branch for \<open>NULL\<close> is never taken.
\<close>

definition parseListString :: "ir_remote list \<Rightarrow> string list \<Rightarrow> bool \<times> string" where
  "parseListString remotes args =
    (case args of
       [] \<Rightarrow> (True, if remotes = [] then [] else data_lines (map (\<lambda>rem. the (r_name rem)) remotes))
     | remoteName # args' \<Rightarrow>
         (case get_remote_by_name remotes remoteName of
            None \<Rightarrow> (False, data_lines [''unknown remote: '' @ remoteName])
          | Some r \<Rightarrow>
              let codes = codes_of (remotes ! r)
              in (case args' of
                    [] \<Rightarrow> (True, if codes = [] then [] else data_lines (map n_name codes))
                  | codeName # _ \<Rightarrow>
                      let (code, name) = (case get_code_by_name codes codeName of
                          None \<Rightarrow> (0, ''(null)'')
                        | Some i \<Rightarrow> (n_code (codes ! i), n_name (codes ! i)))
                      in (True, data_lines [map upper_hex (hex_digits 16 (unat code)) @ '' '' @ name]))))"

text \<open>The mask of the numbers given; \<^const>\<open>None\<close> when one is above 32. Zero is skipped, and so is what is not a number.\<close>

fun transmitter_mask :: "string list \<Rightarrow> 32 word \<Rightarrow> 32 word option" where
  "transmitter_mask [] acc = Some acc"
| "transmitter_mask (w # ws) acc =
    (let n = atoi w
     in if n = 0 then transmitter_mask ws acc
        else if n > 32 then None
        else transmitter_mask ws (acc OR push_bit (nat ((n - 1) mod 32)) 1))"

definition setTransmitters :: "'p driver \<Rightarrow> 32 word \<Rightarrow> ('p server, bool) state" where
  "setTransmitters drv tmask = (case dr_transmitters drv of
       None \<Rightarrow> ret False
     | Some f \<Rightarrow> State (\<lambda>sv. let (ok, p) = f (sv_plugin sv) tmask in (ok, sv\<lparr>sv_plugin := p\<rparr>)))"

definition parseTransmitters :: "'p driver \<Rightarrow> string list \<Rightarrow> ('p server, bool \<times> string) state" where
  "parseTransmitters drv args = (case transmitter_mask args 0 of
       None \<Rightarrow> ret (False, data_lines [''cannot support more than 32 transmitters''])
     | Some tmask \<Rightarrow> do {
         ok \<leftarrow> setTransmitters drv tmask;
         ret (ok, if ok then [] else data_lines [''SetTransmitters failed/not supported''])
       })"

text \<open>
  \<open>sscanf_s(string,"%*s %s %s %i",...)\<close>: the words are separated by white space, a name must be
  shorter than its buffer, and the number is 0 when there is none.
\<close>

definition scan_send :: "string \<Rightarrow> (string \<times> string \<times> int) option" where
  "scan_send s =
    (case words isspace s of
       _ # remote # key # rest \<Rightarrow>
         if length remote \<ge> 128 \<or> length key \<ge> 128 then None
         else Some (remote, key, case rest of [] \<Rightarrow> 0 | w # _ \<Rightarrow> scan_int w)
     | _ \<Rightarrow> None)"

definition sendIR :: "'p driver \<Rightarrow> nat \<Rightarrow> nat \<Rightarrow> int \<Rightarrow> ('p server, bool) state" where
  "sendIR drv r i repeats = (case dr_send drv of
       None \<Rightarrow> ret False
     | Some f \<Rightarrow> State (\<lambda>sv. let (ok, remotes, p) = f (sv_plugin sv) (sv_remotes sv) r i repeats
         in (ok, sv\<lparr>sv_remotes := remotes, sv_plugin := p\<rparr>)))"

definition reset_toggles :: "ir_remote \<Rightarrow> ir_remote" where
  "reset_toggles rem =
    (let rem = (if has_toggle_mask rem then rem\<lparr>r_toggle_mask_state := 0\<rparr> else rem)
     in if has_toggle_bit_mask rem
        then rem\<lparr>r_toggle_bit_mask_state := r_toggle_bit_mask_state rem XOR r_toggle_bit_mask rem\<rparr> else rem)"

definition parseSendString :: "'p driver \<Rightarrow> string \<Rightarrow> ('p server, bool \<times> string) state" where
  "parseSendString drv string =
    (case scan_send string of
       None \<Rightarrow> ret (False, data_lines [''remote or code missing''])
     | Some (remoteName, keyName, repeats) \<Rightarrow> do {
         remotes \<leftarrow> rd sv_remotes;
         (case get_remote_by_name remotes remoteName of
            None \<Rightarrow> ret (False, data_lines [''remote not found''])
          | Some r \<Rightarrow>
              (case get_code_by_name (codes_of (remotes ! r)) keyName of
                 None \<Rightarrow> ret (False, data_lines [''code not found''])
               | Some i \<Rightarrow> do {
                   let repeats = min (max repeats (r_min_repeat (remotes ! r))) 10;
                   wr (\<lambda>sv. sv\<lparr>sv_remotes := (sv_remotes sv)[r := reset_toggles (sv_remotes sv ! r)]\<rparr>);
                   success \<leftarrow> sendIR drv r i repeats;
                   ret (if success then (True, []) else (False, data_lines [''send failed/not supported'']))
                 }))
       })"

definition run_command :: "'p driver \<Rightarrow> string \<Rightarrow> string \<Rightarrow> string list \<Rightarrow> string \<Rightarrow> ('p server, bool \<times> string) state" where
  "run_command drv ident cmd args line =
    (if strcasecmp cmd ''VERSION'' then ret (parseVersion ident args)
     else if strcasecmp cmd ''LIST'' then do { remotes \<leftarrow> rd sv_remotes; ret (parseListString remotes args) }
     else if strcasecmp cmd ''SET_TRANSMITTERS'' then parseTransmitters drv args
     else if strcasecmp cmd ''SEND_ONCE'' then parseSendString drv line
     else ret (False, []))"

subsection \<open>Lines\<close>

definition newline :: char where
  "newline = CHR 0x0A"

definition upto_newline :: "string \<Rightarrow> string" where
  "upto_newline s = takeWhile (\<lambda>c. c \<noteq> newline) s"

text \<open>
  The loop over the lines in \<open>clientData[i]\<close>, started at \<open>buf\<close>; \<open>cur\<close> is what is left of it. The
  result is the new content of \<open>clientData[i]\<close>: the incomplete line at the end, or, when a line
  without a word ends the loop, what the array holds in front of the null that replaced the first
  newline.
\<close>

function line_loop :: "'p driver \<Rightarrow> string \<Rightarrow> nat \<Rightarrow> string \<Rightarrow> string \<Rightarrow> ('p server, string) state" where
  "line_loop drv ident i buf cur =
    (if newline \<notin> set cur then ret cur
     else (case words is_delim (upto_newline cur) of
         [] \<Rightarrow> ret (upto_newline buf)
       | cmd # args \<Rightarrow> do {
           (success, response) \<leftarrow> run_command drv ident cmd args (upto_newline cur);
           reply (upto_newline cur) i success response;
           line_loop drv ident i buf (drop (Suc (length (upto_newline cur))) cur)
         }))"
  by pat_completeness auto
termination by (relation "measure (\<lambda>(_, _, _, _, cur). length cur)") (auto simp: upto_newline_def intro!: diff_less length_pos_if_in_set)

declare line_loop.simps [simp del]

subsection \<open>The event loop\<close>

text \<open>
  An event: the exit event, a connection (\<^const>\<open>None\<close> when \<open>accept\<close> fails), or a signal from the
  socket in a slot. \<open>net\<close> is what \<open>recv\<close> finds on each socket: \<^const>\<open>None\<close> an error, which is also
  what an idle socket gives, the empty string a closed connection.
\<close>

datatype event = Exit_event | Server_event "nat option" | Client_event nat "nat \<Rightarrow> string option"

text \<open>
  \<open>WaitForMultipleObjects\<close> returns the position in \<open>events\<close>, which holds the two events of the
  server and then those of the slots in use, without gaps.
\<close>

definition wait_result :: "nat option list \<Rightarrow> nat \<Rightarrow> nat" where
  "wait_result clients i = 2 + length (filter (\<lambda>k. k \<noteq> None) (take i clients))"

definition free_slot :: "nat option list \<Rightarrow> nat option" where
  "free_slot clients = index_where (\<lambda>k. k = None) clients"

definition accept_client :: "nat option \<Rightarrow> ('p server, unit) state" where
  "accept_client sock = do {
     clients \<leftarrow> rd sv_clients;
     (case free_slot clients of
        None \<Rightarrow> sendData sock (''Sorry the server is full.'' @ lf)
      | Some i \<Rightarrow> wr (\<lambda>sv. sv\<lparr>sv_clients := (sv_clients sv)[i := sock],
          sv_data := (if sock = None then sv_data sv else (sv_data sv)[i := []])\<rparr>))
   }"

definition close_client :: "nat \<Rightarrow> ('p server, unit) state" where
  "close_client i = wr (\<lambda>sv. sv\<lparr>sv_clients := (sv_clients sv)[i := None]\<rparr>)"

definition before_null :: "string \<Rightarrow> string" where
  "before_null s = takeWhile (\<lambda>c. c \<noteq> CHR 0x00) s"

text \<open>\<open>recv\<close> with room for \<open>maxlen\<close> bytes; it delivers nothing when there is no room.\<close>

definition recv :: "(nat \<Rightarrow> string option) \<Rightarrow> nat \<Rightarrow> nat \<Rightarrow> string" where
  "recv net k maxlen = (case net k of None \<Rightarrow> [] | Some bytes \<Rightarrow> take maxlen bytes)"

definition read_client :: "'p driver \<Rightarrow> string \<Rightarrow> nat \<Rightarrow> nat \<Rightarrow> (nat \<Rightarrow> string option) \<Rightarrow> ('p server, unit) state" where
  "read_client drv ident i k net = do {
     cur \<leftarrow> rd (\<lambda>sv. sv_data sv ! i);
     let bytes = recv net k (MAX_DATA - length cur - 1);
     if bytes = [] then close_client i
     else do {
       let buf = before_null (cur @ bytes);
       left_over \<leftarrow> line_loop drv ident i buf buf;
       wr (\<lambda>sv. sv\<lparr>sv_data := (sv_data sv)[i := left_over]\<rparr>)
     }
   }"

text \<open>The slot whose number matches the result of the wait, if it is in use.\<close>

definition client_event :: "'p driver \<Rightarrow> string \<Rightarrow> nat \<Rightarrow> (nat \<Rightarrow> string option) \<Rightarrow> ('p server, unit) state" where
  "client_event drv ident res net = do {
     clients \<leftarrow> rd sv_clients;
     let i = res - 2;
     if i < length clients then
       (case clients ! i of
          None \<Rightarrow> ret ()
        | Some k \<Rightarrow> read_client drv ident i k net)
     else ret ()
   }"

definition server_step :: "'p driver \<Rightarrow> string \<Rightarrow> event \<Rightarrow> ('p server, bool) state" where
  "server_step drv ident e =
    (case e of
       Exit_event \<Rightarrow> ret False
     | Server_event sock \<Rightarrow> do { accept_client sock; ret True }
     | Client_event i net \<Rightarrow> do {
         clients \<leftarrow> rd sv_clients;
         (if i < length clients \<and> clients ! i \<noteq> None
          then client_event drv ident (wait_result clients i) net else ret ());
         ret True
       })"

fun server_run :: "'p driver \<Rightarrow> string \<Rightarrow> event list \<Rightarrow> ('p server, unit) state" where
  "server_run drv ident [] = ret ()"
| "server_run drv ident (e # es) = do {
     go \<leftarrow> server_step drv ident e;
     if go then server_run drv ident es else ret ()
   }"

definition stopServer :: "'p server \<Rightarrow> 'p server" where
  "stopServer sv = sv\<lparr>sv_clients := replicate (length (sv_clients sv)) None\<rparr>"

end
