(* ===== verification/Driver.thy ===== *)
theory Driver
  imports Server Config IRRemote
begin

text \<open>
  What stands between the plugin and the server: the life of the plugin library and of the daemon
  thread (\<open>winlirc/irdriver.cpp\<close>), the daemon's filter for repeats, and the reading of the
  configuration of remotes (\<open>CIRConfig::readConfig\<close> of \<open>winlirc/irconfig.cpp\<close>).
\<close>

subsection \<open>Loading and unloading\<close>

text \<open>The functions a plugin can export, and what \<open>CIRDriver\<close> does to the library, in order.\<close>

datatype entry = E_init | E_deinit | E_hasGui | E_loadSetupGui | E_sendIR | E_decodeIR | E_setTransmitters

datatype action = Load | Free | Call entry

text \<open>
  The pointers of \<open>m_dll\<close> that are not null, whether \<open>dllFile\<close> and the handle of the daemon thread
  are set, and the actions so far. \<open>KillThread2\<close> always ends the thread, if need be by force.
\<close>

record irdriver =
  dll_functions :: "entry list"
  dll_file :: bool
  daemon_running :: bool
  dll_log :: "action list"

definition CIRDriver :: irdriver where
  "CIRDriver = \<lparr>dll_functions = [], dll_file = False, daemon_running = False, dll_log = []\<rparr>"

definition driver_deinit :: "irdriver \<Rightarrow> irdriver" where
  "driver_deinit d =
    (let d = d\<lparr>daemon_running := False\<rparr>
     in if E_deinit \<in> set (dll_functions d) then d\<lparr>dll_log := dll_log d @ [Call E_deinit]\<rparr> else d)"

definition unloadPlugin :: "irdriver \<Rightarrow> irdriver" where
  "unloadPlugin d =
    (let d = (driver_deinit d)\<lparr>dll_functions := []\<rparr>;
         d = (if dll_file d then d\<lparr>dll_log := dll_log d @ [Free]\<rparr> else d)
     in d\<lparr>dll_file := False\<rparr>)"

definition required_entries :: "entry list" where
  "required_entries = [E_init, E_deinit, E_hasGui, E_loadSetupGui, E_sendIR, E_decodeIR]"

text \<open>\<open>library\<close> is the exports of the file, \<^const>\<open>None\<close> when \<open>LoadLibrary\<close> fails.\<close>

definition loadPlugin :: "entry list option \<Rightarrow> irdriver \<Rightarrow> bool \<times> irdriver" where
  "loadPlugin library d =
    (let d = unloadPlugin d
     in case library of
          None \<Rightarrow> (False, d)
        | Some exports \<Rightarrow>
            (list_all (\<lambda>e. e \<in> set exports) required_entries,
             d\<lparr>dll_file := True, dll_functions := exports, dll_log := dll_log d @ [Load]\<rparr>))"

text \<open>\<open>init\<close>, given the result of the plugin's \<open>init\<close> and whether the thread can be started.\<close>

definition driver_init :: "bool \<Rightarrow> bool \<Rightarrow> irdriver \<Rightarrow> bool \<times> irdriver" where
  "driver_init plugin_ok thread_ok d =
    (let d = driver_deinit d
     in if E_init \<in> set (dll_functions d) then
          (let d = d\<lparr>dll_log := dll_log d @ [Call E_init]\<rparr>
           in if plugin_ok then (thread_ok, d\<lparr>daemon_running := thread_ok\<rparr>)
              else (False, driver_deinit d))
        else (False, d))"

datatype driver_op = Op_load "entry list option" | Op_unload | Op_init bool bool | Op_deinit

fun driver_step :: "driver_op \<Rightarrow> irdriver \<Rightarrow> irdriver" where
  "driver_step (Op_load library) d = snd (loadPlugin library d)"
| "driver_step Op_unload d = unloadPlugin d"
| "driver_step (Op_init a b) d = snd (driver_init a b d)"
| "driver_step Op_deinit d = driver_deinit d"

subsection \<open>The filter for repeats\<close>

text \<open>
  The conversions of \<open>sscanf\<close> the daemon uses. \<open>%I64x\<close> and \<open>%x\<close> skip white space and read a sign, an
  optional \<open>0x\<close> and hexadecimal digits; \<open>%s\<close> reads up to the next white space.
\<close>

definition scan_hex :: "string \<Rightarrow> (int \<times> string) option" where
  "scan_hex s =
    (let (neg, s2) = sign_of (dropWhile isspace s);
         s3 = (if has_hex_prefix s2 then drop 2 s2 else s2);
         ds = takeWhile (is_digit 16) s3;
         n = digits_value 16 ds
     in if ds = [] then None else Some (if neg then - n else n, dropWhile (is_digit 16) s3))"

definition scan_word :: "string \<Rightarrow> (string \<times> string) option" where
  "scan_word s =
    (let s = dropWhile isspace s; w = takeWhile (\<lambda>c. \<not> isspace c) s
     in if w = [] then None else Some (w, drop (length w) s))"

definition scan_code_repeat :: "string \<Rightarrow> (ir_code \<times> int \<times> string) option" where
  "scan_code_repeat s = (case scan_hex s of
       None \<Rightarrow> None
     | Some (code, s) \<Rightarrow> (case scan_hex s of
         None \<Rightarrow> None
       | Some (reps, s) \<Rightarrow> Some (of_int code, i32 reps, s)))"

definition scan_names :: "string \<Rightarrow> (string \<times> string) option" where
  "scan_names s = (case scan_word s of
       None \<Rightarrow> None
     | Some (command, s) \<Rightarrow> (case scan_word s of
         None \<Rightarrow> None
       | Some (name, s) \<Rightarrow> Some (command, name)))"

text \<open>The settings \<open>disableRepeats\<close> and \<open>disableFirstKeyRepeats\<close> of \<open>CIRConfig\<close>.\<close>

record repeat_settings =
  disable_repeats :: bool
  disable_first :: int

text \<open>
  What the daemon does with a line: the line to send, \<^const>\<open>None\<close> for none. The first component says
  whether a name overran its 128 characters on the stack.
\<close>

definition filter_repeats :: "repeat_settings \<Rightarrow> string \<Rightarrow> bool \<times> string option" where
  "filter_repeats st message =
    (if disable_repeats st then
       (case scan_code_repeat message of
          None \<Rightarrow> (False, Some message)
        | Some (code, reps, _) \<Rightarrow> (False, if reps \<noteq> 0 then None else Some message))
     else if disable_first st > 0 then
       (case scan_code_repeat message of
          None \<Rightarrow> (False, Some message)
        | Some (code, reps, rest) \<Rightarrow>
            (case scan_names rest of
               None \<Rightarrow>
                 (case scan_word rest of
                    None \<Rightarrow> (False, Some message)
                  | Some (command, _) \<Rightarrow> (length command \<ge> 128, Some message))
             | Some (command, name) \<Rightarrow>
                 (length command \<ge> 128 \<or> length name \<ge> 128,
                  if reps = 0 then Some message
                  else if reps \<le> disable_first st then None
                  else Some (message_text name command [] code (sub32 reps (disable_first st))))))
     else (False, Some message))"

text \<open>One round of \<open>DaemonThreadProc\<close> for a line that the plugin has decoded.\<close>

definition daemon_round :: "repeat_settings \<Rightarrow> string \<Rightarrow> ('p server, unit) state" where
  "daemon_round st message =
    (case snd (filter_repeats st message) of
       None \<Rightarrow> ret ()
     | Some line \<Rightarrow> sendToClients line)"

subsection \<open>The configuration of remotes\<close>

text \<open>
  \<open>readConfig\<close>: success and the new \<open>global_remotes\<close>; \<^const>\<open>None\<close> when the parser follows a null
  pointer. The old remotes stay only when the file cannot be opened.
\<close>

definition readConfig :: "(string \<Rightarrow> string option) \<Rightarrow> string \<Rightarrow> ir_remote list \<Rightarrow> (bool \<times> ir_remote list) option" where
  "readConfig files remoteConfig old =
    (if remoteConfig = [] then Some (False, old)
     else (case files remoteConfig of
         None \<Rightarrow> Some (False, old)
       | Some text \<Rightarrow>
           let (err, ub, remotes) = read_config files (Some remoteConfig) text
           in if ub then None
              else if \<exists>rem\<in>set remotes. r_codes rem = None then Some (False, [])
              else if remotes = [] then Some (False, [])
              else Some (True, remotes)))"

end
