(* ===== verification/ServerLaws.thy ===== *)
theory ServerLaws
  imports Server Config
begin

text \<open>
  Theorems about the server: what a command may change, the bounds of the line buffers, that the way
  the network cuts a stream of lines into pieces does not matter, when the event loop serves the
  right client, and the replies.
\<close>

subsection \<open>What a line can change\<close>

text \<open>
  The work for a line of the client in slot \<open>i\<close> consists of sending to that client and of what the
  plugin does.
\<close>

locale client_work = step_relation R
  for R :: "'p server \<Rightarrow> 'p server \<Rightarrow> bool" +
  fixes i :: nat
  assumes to_client: "sv_clients s ! i = Some k \<Longrightarrow> R s (s\<lparr>sv_out := sv_out s @ [(k, m)]\<rparr>)"
    and to_plugin: "R s (s\<lparr>sv_remotes := remotes, sv_plugin := p\<rparr>)"
begin

lemma to_remotes: "R s (s\<lparr>sv_remotes := remotes\<rparr>)"
  using to_plugin [where s = s and remotes = remotes and p = "sv_plugin s"] by simp

lemma to_state: "R s (s\<lparr>sv_plugin := p\<rparr>)"
  using to_plugin [where s = s and remotes = "sv_remotes s" and p = p] by simp

lemma answer: "state_io_rel R (reply line i ok resp)"
  by (simp add: state_io_rel_def reply_def sendData_def R_refl to_client Let_def split: option.split)

lemma transmitters: "state_io_rel R (parseTransmitters drv args)"
  by (auto simp: state_io_rel_def parseTransmitters_def setTransmitters_def R_refl
      intro: to_state split: option.split prod.split)

lemma send_string: "state_io_rel R (parseSendString drv line)"
proof -
  have "state_io_rel R (sendIR drv r n repeats)" for r n repeats
    by (auto simp: state_io_rel_def sendIR_def R_refl intro: to_plugin split: option.split prod.split)
  then show ?thesis
    unfolding parseSendString_def Let_def by (intro flow wr [OF to_remotes])
qed

lemma command: "state_io_rel R (run_command drv ident cmd args line)"
  unfolding run_command_def by (intro flow transmitters send_string)

lemma line_loop: "state_io_rel R (line_loop drv ident i buf cur)"
proof (induction cur rule: length_induct)
  case (1 cur)
  show ?case
  proof (cases "newline \<in> set cur")
    case False
    then show ?thesis by (simp add: line_loop.simps ret)
  next
    case True
    then have "length (drop (Suc (length (upto_newline cur))) cur) < length cur"
      by (auto intro!: diff_less length_pos_if_in_set)
    with 1 have rest: "state_io_rel R (line_loop drv ident i buf (drop (Suc (length (upto_newline cur))) cur))"
      by blast
    show ?thesis
    proof (cases "words is_delim (upto_newline cur)")
      case Nil
      with True show ?thesis by (simp add: line_loop.simps ret)
    next
      case (Cons cmd args)
      with True show ?thesis
        by (subst line_loop.simps) (simp, intro flow command answer rest)
    qed
  qed
qed

end

interpretation slots: client_work "same (\<lambda>s. (sv_clients s, sv_data s))" i for i
  by unfold_locales (auto simp: same_def)

text \<open>Output goes to the client in slot \<open>i\<close> only.\<close>

definition only_to :: "nat \<Rightarrow> 'p server \<Rightarrow> 'p server \<Rightarrow> bool" where
  "only_to i s t \<longleftrightarrow> sv_clients t = sv_clients s \<and>
     (\<exists>xs. sv_out t = sv_out s @ xs \<and> (\<forall>x\<in>set xs. sv_clients s ! i = Some (fst x)))"

interpretation replies: client_work "only_to i" i for i
proof unfold_locales
  show "only_to i s u" if "only_to i s t" "only_to i t u" for s t u :: "'p server"
  proof -
    from that obtain xs ys where "sv_out t = sv_out s @ xs" "\<forall>x\<in>set xs. sv_clients s ! i = Some (fst x)"
      "sv_out u = sv_out t @ ys" "\<forall>x\<in>set ys. sv_clients s ! i = Some (fst x)"
      "sv_clients u = sv_clients s"
      by (auto simp: only_to_def)
    then show ?thesis unfolding only_to_def by (intro conjI exI [of _ "xs @ ys"]) auto
  qed
qed (auto simp: only_to_def)

lemma line_loop_slots:
  "sv_clients (exec (line_loop drv ident i buf cur) s) = sv_clients s"
  "sv_data (exec (line_loop drv ident i buf cur) s) = sv_data s"
  using slots.line_loop [of drv ident i buf cur] by (simp_all add: state_io_rel_def same_def)

subsection \<open>Bounds\<close>

definition server_ok :: "'p server \<Rightarrow> bool" where
  "server_ok s \<longleftrightarrow> length (sv_clients s) = MAX_CLIENTS \<and> length (sv_data s) = MAX_CLIENTS \<and>
     (\<forall>d\<in>set (sv_data s). length d < MAX_DATA)"

lemma line_loop_shorter:
  "length cur \<le> length buf \<Longrightarrow> length (result (line_loop drv ident i buf cur) s) \<le> length buf"
proof (induction cur arbitrary: s rule: length_induct)
  case (1 cur)
  show ?case
  proof (cases "newline \<in> set cur")
    case False
    with 1 show ?thesis by (simp add: line_loop.simps)
  next
    case True
    then have "length (drop (Suc (length (upto_newline cur))) cur) < length cur"
      by (auto intro!: diff_less length_pos_if_in_set)
    with 1 have rest: "length (result (line_loop drv ident i buf (drop (Suc (length (upto_newline cur))) cur)) t) \<le> length buf" for t
      by auto
    with True show ?thesis
      by (subst line_loop.simps)
        (auto simp: run_bind upto_newline_def length_takeWhile_le split_def simp del: run_state_bind split: list.split)
  qed
qed

lemma index_where_bound: "index_where P xs = Some i \<Longrightarrow> i < length xs \<and> P (xs ! i) \<and> (\<forall>j<i. \<not> P (xs ! j))"
  by (induction xs arbitrary: i) (auto simp: less_Suc_eq_0_disj split: if_splits)

lemma read_client_ok:
  assumes "server_ok s" and "i < MAX_CLIENTS"
  shows "server_ok (exec (read_client drv ident i k net) s)"
proof -
  let ?cur = "sv_data s ! i"
  let ?bytes = "recv net k (MAX_DATA - length ?cur - 1)"
  have cur: "length ?cur < MAX_DATA"
    using assms by (auto simp: server_ok_def)
  have "length ?bytes \<le> MAX_DATA - length ?cur - 1"
    by (simp add: recv_def split: option.split)
  with cur have "length (?cur @ ?bytes) < MAX_DATA" by simp
  then have "length (before_null (?cur @ ?bytes)) < MAX_DATA"
    using length_takeWhile_le [of "\<lambda>c. c \<noteq> CHR 0x00" "?cur @ ?bytes"] by (simp only: before_null_def)
  then have "length (result (line_loop drv ident i (before_null (?cur @ ?bytes)) (before_null (?cur @ ?bytes))) s) < MAX_DATA"
    using line_loop_shorter [of "before_null (?cur @ ?bytes)" "before_null (?cur @ ?bytes)" drv ident i s]
    by linarith
  with assms show ?thesis
    by (auto simp: read_client_def close_client_def Let_def run_bind server_ok_def line_loop_slots
        simp del: run_state_bind dest!: subsetD [OF set_update_subset_insert])
qed

lemma server_step_ok: "server_ok s \<Longrightarrow> server_ok (exec (server_step drv ident e) s)"
proof (cases e)
  case (Server_event sock)
  then show "server_ok s \<Longrightarrow> ?thesis"
    by (auto simp: server_step_def accept_client_def sendData_def server_ok_def free_slot_def run_bind
        simp del: run_state_bind split: option.split dest!: subsetD [OF set_update_subset_insert])
next
  case (Client_event i net)
  then show "server_ok s \<Longrightarrow> ?thesis"
    using read_client_ok [of s]
    by (auto simp: server_step_def client_event_def Let_def run_bind server_ok_def
        simp del: run_state_bind split: option.split)
qed (simp add: server_step_def)

lemma server_run_ok: "server_ok s \<Longrightarrow> server_ok (exec (server_run drv ident es) s)"
  by (induction es arbitrary: s) (simp_all add: run_bind server_step_ok del: run_state_bind)

text \<open>
  C19: the line buffers are never overrun: whatever the clients send and in whatever order their events
  come, there are eight slots and what each buffer holds, with its terminating null, fits into
  \<open>MAX_DATA\<close> bytes.
\<close>

theorem server_bounds:
  "server_ok (exec (server_run drv ident es) (server_start remotes p))"
  by (rule server_run_ok) (simp add: server_ok_def server_start_def)

subsection \<open>Streams of lines\<close>

text \<open>Every complete line has a word.\<close>

function no_blank_line :: "string \<Rightarrow> bool" where
  "no_blank_line cur =
    (if newline \<in> set cur then
       (if words is_delim (upto_newline cur) = [] then False
        else no_blank_line (drop (Suc (length (upto_newline cur))) cur))
     else True)"
  by pat_completeness auto
termination by (relation "measure length") (auto intro!: diff_less length_pos_if_in_set)

declare no_blank_line.simps [simp del]

lemma upto_newline_append: "newline \<in> set xs \<Longrightarrow> upto_newline (xs @ ys) = upto_newline xs"
  by (induction xs) (auto simp: upto_newline_def)

lemma line_in: "newline \<in> set cur \<Longrightarrow> Suc (length (upto_newline cur)) \<le> length cur"
  by (induction cur) (auto simp: upto_newline_def)

text \<open>Without blank lines the loop can be stopped and resumed anywhere.\<close>

lemma line_loop_append:
  "no_blank_line xs \<Longrightarrow>
   line_loop drv ident i buf (xs @ ys) =
   do { left_over \<leftarrow> line_loop drv ident i buf' xs; line_loop drv ident i buf (left_over @ ys) }"
proof (induction xs rule: no_blank_line.induct)
  case (1 xs)
  show ?case
  proof (cases "newline \<in> set xs")
    case False
    then show ?thesis by (simp add: line_loop.simps [of drv ident i buf' xs])
  next
    case True
    let ?rest = "drop (Suc (length (upto_newline xs))) xs"
    from True 1 have b: "words is_delim (upto_newline xs) \<noteq> []" "no_blank_line ?rest"
      by (simp_all add: no_blank_line.simps [of xs] split: if_splits)
    then obtain cmd args where w: "words is_delim (upto_newline xs) = cmd # args"
      by (cases "words is_delim (upto_newline xs)") auto
    have d: "drop (Suc (length (upto_newline xs))) (xs @ ys) = ?rest @ ys"
      using line_in [OF True] by simp
    from 1 True b have IH: "line_loop drv ident i buf (?rest @ ys) =
        do { left_over \<leftarrow> line_loop drv ident i buf' ?rest; line_loop drv ident i buf (left_over @ ys) }"
      by blast
    show ?thesis
      using True w d IH
      by (simp add: line_loop.simps [of drv ident i buf "xs @ ys"] line_loop.simps [of drv ident i buf' xs]
          upto_newline_append split_def)
  qed
qed

lemma line_loop_buf:
  "no_blank_line xs \<Longrightarrow> line_loop drv ident i buf xs = line_loop drv ident i buf' xs"
proof (induction xs rule: no_blank_line.induct)
  case (1 xs)
  then show ?case
    by (subst (1 2) line_loop.simps) (auto simp: no_blank_line.simps [of xs] split: list.split)
qed

text \<open>The work for a line does not look at the buffers.\<close>

definition blind :: "('p server, 'a) state \<Rightarrow> bool" where
  "blind m \<longleftrightarrow> (\<forall>s ds. run_state m (s\<lparr>sv_data := ds\<rparr>) = (result m s, (exec m s)\<lparr>sv_data := ds\<rparr>))"

lemma blind_ret: "blind (ret x)"
  by (simp add: blind_def)

lemma blind_bind: "blind m \<Longrightarrow> (\<And>x. blind (f x)) \<Longrightarrow> blind (m \<bind> f)"
  by (simp add: blind_def run_bind del: run_state_bind)

lemma blind_rd: "(\<And>s ds. f (s\<lparr>sv_data := ds\<rparr>) = f s) \<Longrightarrow> blind (rd f)"
  by (simp add: blind_def)

lemma blind_if: "blind m \<Longrightarrow> blind n \<Longrightarrow> blind (if b then m else n)"
  by simp

lemma blind_option: "blind m \<Longrightarrow> (\<And>x. blind (f x)) \<Longrightarrow> blind (case z of None \<Rightarrow> m | Some x \<Rightarrow> f x)"
  by (cases z) auto

lemma blind_pair: "(\<And>a b. blind (f a b)) \<Longrightarrow> blind (case z of (a, b) \<Rightarrow> f a b)"
  by (cases z) auto

lemma blind_prims:
  "blind (reply line i ok resp)" "blind (setTransmitters drv tmask)" "blind (sendIR drv r n repeats)"
  "blind (wr (\<lambda>sv. sv\<lparr>sv_remotes := (sv_remotes sv)[r := reset_toggles (sv_remotes sv ! r)]\<rparr>))"
  by (auto simp: blind_def reply_def sendData_def setTransmitters_def sendIR_def Let_def
      split: option.split prod.split)

lemmas blinds = blind_ret blind_bind blind_if blind_option blind_pair blind_prims

lemma blind_command: "blind (run_command drv ident cmd args line)"
  unfolding run_command_def parseTransmitters_def parseSendString_def Let_def
  by (intro blinds blind_rd) simp_all

lemma blind_line_loop: "blind (line_loop drv ident i buf cur)"
proof (induction cur rule: length_induct)
  case (1 cur)
  show ?case
  proof (cases "newline \<in> set cur")
    case False
    then show ?thesis by (simp add: line_loop.simps blind_ret)
  next
    case True
    then have "length (drop (Suc (length (upto_newline cur))) cur) < length cur"
      by (auto intro!: diff_less length_pos_if_in_set)
    with 1 have rest: "blind (line_loop drv ident i buf (drop (Suc (length (upto_newline cur))) cur))"
      by blast
    with True show ?thesis
      by (subst line_loop.simps) (auto intro!: blinds blind_command rest split: list.split)
  qed
qed

text \<open>A piece that fits into the buffer.\<close>

lemma read_piece:
  assumes "sv_data s ! i = d" and "length d + length piece < MAX_DATA" and "piece \<noteq> []"
    and "CHR 0x00 \<notin> set (d @ piece)" and "no_blank_line (d @ piece)"
  shows "exec (read_client drv ident i k (\<lambda>_. Some piece)) s =
    (exec (line_loop drv ident i [] (d @ piece)) s)
      \<lparr>sv_data := (sv_data s)[i := result (line_loop drv ident i [] (d @ piece)) s]\<rparr>"
proof -
  have "before_null (d @ piece) = d @ piece"
    using assms(4) by (auto simp: before_null_def takeWhile_eq_all_conv)
  moreover have "recv (\<lambda>_. Some piece) k (MAX_DATA - length d - 1) = piece"
    using assms(2) by (simp add: recv_def)
  ultimately show ?thesis
    using assms(1,3) line_loop_buf [OF assms(5), of drv ident i "d @ piece" "[]"]
    by (simp add: read_client_def Let_def run_bind line_loop_slots del: run_state_bind)
qed

lemma left_over_incomplete:
  "no_blank_line cur \<Longrightarrow> newline \<notin> set (result (line_loop drv ident i buf cur) s) \<and>
   set (result (line_loop drv ident i buf cur) s) \<subseteq> set cur"
proof (induction cur arbitrary: s rule: no_blank_line.induct)
  case (1 cur)
  show ?case
  proof (cases "newline \<in> set cur")
    case False
    then show ?thesis by (simp add: line_loop.simps)
  next
    case True
    with 1(2) have b: "words is_delim (upto_newline cur) \<noteq> []"
      "no_blank_line (drop (Suc (length (upto_newline cur))) cur)"
      by (simp_all add: no_blank_line.simps [of cur] split: if_splits)
    with 1(1) True show ?thesis
      by (subst (1 2) line_loop.simps)
        (auto simp: run_bind split_def simp del: run_state_bind split: list.split dest: in_set_dropD)
  qed
qed

lemma no_blank_line_append:
  "no_blank_line (xs @ ys) \<Longrightarrow> no_blank_line xs"
proof (induction xs rule: no_blank_line.induct)
  case (1 xs)
  show ?case
  proof (cases "newline \<in> set xs")
    case True
    with 1(2) have "words is_delim (upto_newline xs) \<noteq> []"
      "no_blank_line (drop (Suc (length (upto_newline xs))) xs @ ys)"
      using line_in [OF True]
      by (simp_all add: no_blank_line.simps [of "xs @ ys"] upto_newline_append split: if_splits)
    with 1(1) True show ?thesis by (simp add: no_blank_line.simps [of xs])
  qed (simp add: no_blank_line.simps)
qed

lemma left_over_no_blank:
  "no_blank_line (xs @ ys) \<Longrightarrow> no_blank_line (result (line_loop drv ident i buf xs) s @ ys)"
proof (induction xs arbitrary: s rule: no_blank_line.induct)
  case (1 xs)
  show ?case
  proof (cases "newline \<in> set xs")
    case True
    with 1(2) have "words is_delim (upto_newline xs) \<noteq> []"
      "no_blank_line (drop (Suc (length (upto_newline xs))) xs @ ys)"
      using line_in [OF True]
      by (simp_all add: no_blank_line.simps [of "xs @ ys"] upto_newline_append split: if_splits)
    with 1(1) True show ?thesis
      by (subst line_loop.simps) (auto simp: run_bind split_def simp del: run_state_bind split: list.split)
  next
    case False
    with 1(2) show ?thesis by (simp add: line_loop.simps)
  qed
qed

text \<open>Two pieces have the effect of one.\<close>

lemma read_two_pieces:
  assumes "i < length (sv_data s)" and "sv_data s ! i = d" and "length d + length (xs @ ys) < MAX_DATA"
    and "xs \<noteq> []" and "ys \<noteq> []" and "CHR 0x00 \<notin> set (d @ xs @ ys)" and "no_blank_line (d @ xs @ ys)"
  shows "exec (read_client drv ident i k (\<lambda>_. Some ys)) (exec (read_client drv ident i k (\<lambda>_. Some xs)) s) =
    exec (read_client drv ident i k (\<lambda>_. Some (xs @ ys))) s"
proof -
  have nb: "no_blank_line (d @ xs)"
    using no_blank_line_append [of "d @ xs" ys] assms(7) by simp
  let ?l = "result (line_loop drv ident i [] (d @ xs)) s" and ?t = "exec (line_loop drv ident i [] (d @ xs)) s"
  let ?s = "?t\<lparr>sv_data := (sv_data s)[i := ?l]\<rparr>"
  have one: "exec (read_client drv ident i k (\<lambda>_. Some xs)) s = ?s"
    by (rule read_piece) (use assms nb in auto)
  have l: "length ?l \<le> length (d @ xs)" "set ?l \<subseteq> set (d @ xs)" "no_blank_line (?l @ ys)"
    using line_loop_shorter [of "d @ xs" "d @ xs" drv ident i s] line_loop_buf [OF nb, of drv ident i "d @ xs" "[]"]
      left_over_incomplete [OF nb, of drv ident i "[]" s] left_over_no_blank [of "d @ xs" ys drv ident i "[]" s] assms(7)
    by simp_all
  have "run_state (line_loop drv ident i [] (?l @ ys)) ?s =
      (result (line_loop drv ident i [] (?l @ ys)) ?t,
       (exec (line_loop drv ident i [] (?l @ ys)) ?t)\<lparr>sv_data := (sv_data s)[i := ?l]\<rparr>)"
    using blind_line_loop [of drv ident i "[]" "?l @ ys"] by (simp add: blind_def)
  moreover have "run_state (line_loop drv ident i [] (d @ xs @ ys)) s = run_state (line_loop drv ident i [] (?l @ ys)) ?t"
    using line_loop_append [OF nb, of drv ident i "[]" ys "[]"] by (simp add: run_bind del: run_state_bind)
  moreover have "exec (read_client drv ident i k (\<lambda>_. Some ys)) ?s =
      (exec (line_loop drv ident i [] (?l @ ys)) ?s)\<lparr>sv_data := (sv_data ?s)[i := result (line_loop drv ident i [] (?l @ ys)) ?s]\<rparr>"
    by (rule read_piece) (use assms l in auto)
  moreover have "exec (read_client drv ident i k (\<lambda>_. Some (xs @ ys))) s =
      (exec (line_loop drv ident i [] (d @ xs @ ys)) s)
        \<lparr>sv_data := (sv_data s)[i := result (line_loop drv ident i [] (d @ xs @ ys)) s]\<rparr>"
    by (rule read_piece) (use assms in auto)
  ultimately show ?thesis
    unfolding one by (simp add: assms(1))
qed

lemma takeWhile_tail: "c \<notin> set xs \<Longrightarrow> takeWhile (\<lambda>x. x \<noteq> c) (xs @ c # ys) = xs"
  by (induction xs) auto

subsection \<open>Which client is served\<close>

definition in_order :: "nat option list \<Rightarrow> nat \<Rightarrow> bool" where
  "in_order clients i \<longleftrightarrow> i < length clients \<and> (\<forall>j\<le>i. clients ! j \<noteq> None)"

lemma wait_result_in_order: "in_order clients i \<Longrightarrow> wait_result clients i = 2 + i"
proof -
  assume a: "in_order clients i"
  then have "\<forall>k\<in>set (take i clients). k \<noteq> None"
    by (auto simp: in_order_def in_set_conv_nth)
  then have "filter (\<lambda>k. k \<noteq> None) (take i clients) = take i clients"
    by simp
  with a show ?thesis by (simp add: wait_result_def in_order_def)
qed

lemma event_in_order:
  assumes "in_order (sv_clients s) i" and "sv_clients s ! i = Some k"
  shows "run_state (server_step drv ident (Client_event i net)) s = (True, exec (read_client drv ident i k net) s)"
  using assms wait_result_in_order [OF assms(1)]
  by (simp add: server_step_def client_event_def run_bind in_order_def del: run_state_bind)

lemma read_piece_clients:
  "recv net k (MAX_DATA - length (sv_data s ! i) - 1) \<noteq> [] \<Longrightarrow>
   sv_clients (exec (read_client drv ident i k net) s) = sv_clients s"
  by (simp add: read_client_def Let_def run_bind line_loop_slots del: run_state_bind)

lemma run_pieces:
  assumes "in_order (sv_clients s) i" and "sv_clients s ! i = Some k" and "i < length (sv_data s)"
    and "pieces \<noteq> []" and "\<forall>c\<in>set pieces. c \<noteq> []"
    and "length (sv_data s ! i) + length (concat pieces) < MAX_DATA"
    and "CHR 0x00 \<notin> set (sv_data s ! i @ concat pieces)" and "no_blank_line (sv_data s ! i @ concat pieces)"
  shows "exec (server_run drv ident (map (\<lambda>c. Client_event i (\<lambda>_. Some c)) pieces)) s =
    exec (read_client drv ident i k (\<lambda>_. Some (concat pieces))) s"
  using assms(4-8)
proof (induction pieces rule: length_induct)
  case (1 pieces)
  then obtain c cs where pieces: "pieces = c # cs" by (cases pieces) auto
  show ?case
  proof (cases cs)
    case Nil
    with pieces assms(1,2) show ?thesis
      by (simp add: run_bind event_in_order del: run_state_bind)
  next
    case (Cons c2 cs2)
    let ?t = "exec (read_client drv ident i k (\<lambda>_. Some c)) s"
    have "sv_clients ?t = sv_clients s"
      by (rule read_piece_clients) (use 1 pieces Cons in \<open>simp add: recv_def\<close>)
    then have t: "in_order (sv_clients ?t) i" "sv_clients ?t ! i = Some k"
      using assms(1,2) by simp_all
    have two: "exec (read_client drv ident i k (\<lambda>_. Some c2)) ?t = exec (read_client drv ident i k (\<lambda>_. Some (c @ c2))) s"
      using 1 pieces Cons assms(3) no_blank_line_append [of "sv_data s ! i @ c @ c2" "concat cs2"]
      by (intro read_two_pieces [where d = "sv_data s ! i"]) auto
    have "exec (server_run drv ident (map (\<lambda>c. Client_event i (\<lambda>_. Some c)) ((c @ c2) # cs2))) s =
        exec (read_client drv ident i k (\<lambda>_. Some (concat ((c @ c2) # cs2)))) s"
      using 1 pieces Cons by (intro 1(1) [rule_format]) auto
    with two assms(1,2) t pieces Cons show ?thesis
      by (simp add: run_bind event_in_order del: run_state_bind)
  qed
qed

text \<open>
  C18: TCP is a stream. However the network cuts what a client sends into pieces, the server executes
  the same commands, sends the same replies and keeps the same incomplete line as if it had come at
  once, as long as no line is blank, the text fits into the buffer, and the slots below the client's
  are in use.
\<close>

theorem fragmentation_invisible:
  assumes "in_order (sv_clients s) i" and "i < length (sv_data s)"
    and "pieces \<noteq> []" and "\<forall>c\<in>set pieces. c \<noteq> []"
    and "length (sv_data s ! i) + length (concat pieces) < MAX_DATA"
    and "CHR 0x00 \<notin> set (sv_data s ! i @ concat pieces)" and "no_blank_line (sv_data s ! i @ concat pieces)"
  shows "exec (server_run drv ident (map (\<lambda>c. Client_event i (\<lambda>_. Some c)) pieces)) s =
    exec (server_run drv ident [Client_event i (\<lambda>_. Some (concat pieces))]) s"
proof -
  from assms(1) obtain k where k: "sv_clients s ! i = Some k"
    by (auto simp: in_order_def)
  from run_pieces [OF assms(1) k assms(2-7), of drv ident] show ?thesis
    by (simp add: run_bind event_in_order [OF assms(1) k] del: run_state_bind)
qed

text \<open>A client in slot 0 that sends two commands in three pieces.\<close>

abbreviation one_client :: "unit server" where
  "one_client \<equiv> (server_start [] ())\<lparr>sv_clients := [Some 7, None, None, None, None, None, None, None]\<rparr>"

abbreviation no_driver :: "unit driver" where
  "no_driver \<equiv> \<lparr>dr_send = None, dr_transmitters = None\<rparr>"

theorem fragmentation_invisible_witness:
  "exec (server_run no_driver ''W'' (map (\<lambda>c. Client_event 0 (\<lambda>_. Some c)) [''LI'', ''ST'' @ lf @ ''VER'', ''SION'' @ lf])) one_client =
   exec (server_run no_driver ''W'' [Client_event 0 (\<lambda>_. Some (''LIST'' @ lf @ ''VERSION'' @ lf))]) one_client"
proof -
  have "no_blank_line (''LIST'' @ lf @ ''VERSION'' @ lf)"
    by code_simp
  then show ?thesis
    using fragmentation_invisible [of one_client 0 "[''LI'', ''ST'' @ lf @ ''VER'', ''SION'' @ lf]" no_driver "''W''"]
    by (simp add: in_order_def server_start_def)
qed

text \<open>
  C23: the event loop confuses clients. With slot 0 free and clients in slots 1 and 2, data from the
  client in slot 2 makes the server read from the client in slot 1, which has sent nothing: the server
  closes that connection, and the data of slot 2 stays unread.
\<close>

theorem wrong_client_closed:
  assumes "sv_clients s = None # Some k1 # Some k2 # others" and "net k1 = None"
  shows "exec (server_step drv ident (Client_event 2 net)) s =
    s\<lparr>sv_clients := None # None # Some k2 # others\<rparr>"
  using assms
  by (simp add: server_step_def client_event_def wait_result_def read_client_def recv_def close_client_def
      Let_def eval_nat_numeral)

theorem wrong_client_closed_witness:
  "sv_clients (exec (server_step no_driver ''W'' (Client_event 2 (\<lambda>k. if k = 9 then Some (''LIST'' @ lf) else None)))
     (one_client\<lparr>sv_clients := [None, Some 8, Some 9, None, None, None, None, None]\<rparr>)) =
   [None, None, Some 9, None, None, None, None, None]"
  using wrong_client_closed [of "one_client\<lparr>sv_clients := [None, Some 8, Some 9, None, None, None, None, None]\<rparr>" 8 9
      "[None, None, None, None, None]" "\<lambda>k. if k = 9 then Some (''LIST'' @ lf) else None" no_driver "''W''"]
  by simp

text \<open>
  A blank line brings back the line before it. When a command is followed by a line without a word,
  the command has been executed and answered, but its text stays in the buffer, in front of what the
  client sends next.
\<close>

theorem blank_line_repeats:
  assumes "newline \<notin> set line" and "words is_delim line \<noteq> []" and "newline \<notin> set blank" and "words is_delim blank = []"
  shows "run_state (line_loop drv ident i (line @ lf @ blank @ lf @ rest) (line @ lf @ blank @ lf @ rest)) s =
    (line, exec (do {
        (success, response) \<leftarrow> run_command drv ident (hd (words is_delim line)) (tl (words is_delim line)) line;
        reply line i success response
      }) s)"
proof -
  have up: "upto_newline (line @ lf @ zs) = line" "upto_newline (blank @ lf @ zs) = blank" for zs
    using assms(1,3) by (simp_all add: upto_newline_def newline_def takeWhile_tail)
  obtain cmd args where "words is_delim line = cmd # args"
    using assms(2) by (cases "words is_delim line") auto
  with assms(4) up show ?thesis
    by (simp add: line_loop.simps [of drv ident i _ "line @ lf @ blank @ lf @ rest"]
        line_loop.simps [of drv ident i _ "blank @ lf @ rest"] run_bind split_def newline_def
        del: run_state_bind append_Cons)
qed

theorem blank_line_repeats_witness:
  "result (line_loop no_driver ''W'' 0 (''LIST'' @ lf @ [] @ lf @ []) (''LIST'' @ lf @ [] @ lf @ [])) one_client = ''LIST''"
proof -
  have "words is_delim ''LIST'' \<noteq> []"
    by code_simp
  from blank_line_repeats [OF _ this, of "[]" no_driver "''W''" 0 "[]" one_client] show ?thesis
    by (simp add: newline_def)
qed



subsection \<open>Replies\<close>

lemma split_at_line: "c \<notin> set l \<Longrightarrow> split_at c (l @ c # rest) = l # split_at c rest"
  by (induction l) auto

lemma split_at_lines:
  "\<forall>l\<in>set ls. newline \<notin> set l \<Longrightarrow>
   split_at newline (concat (map (\<lambda>l. l @ lf) ls) @ rest) = ls @ split_at newline rest"
  by (induction ls) (simp_all add: split_at_line [unfolded newline_def] newline_def)

lemma dec_digits_one_line: "newline \<notin> set (dec_digits n)"
  using dec_digit_char [of newline n] by (auto simp: newline_def isspace_def)

text \<open>
  The list can be read back: a client that cuts the reply to \<open>LIST\<close> at the newlines finds the
  command, the result, the number of remotes in decimal and exactly the names of the remotes in their
  order, framed by \<open>BEGIN\<close> and \<open>END\<close>.
\<close>

theorem list_reply_readable:
  assumes "remotes \<noteq> []" and "newline \<notin> set command" and "\<forall>rem\<in>set remotes. newline \<notin> set (the (r_name rem))"
  shows "\<exists>count. split_at newline (packet command True (snd (parseListString remotes []))) =
      [''BEGIN'', command, ''SUCCESS'', ''DATA'', count] @ map (\<lambda>rem. the (r_name rem)) remotes @ [''END'', []] \<and>
    digits_value 10 count = int (length remotes)"
proof -
  let ?names = "map (\<lambda>rem. the (r_name rem)) remotes"
  let ?lines = "[''BEGIN'', command, ''SUCCESS'', ''DATA'', dec_digits (length remotes)] @ ?names @ [''END'']"
  have "packet command True (snd (parseListString remotes [])) = concat (map (\<lambda>l. l @ lf) ?lines)"
    using assms(1) by (simp add: packet_def parseListString_def data_lines_def)
  moreover have "\<forall>l\<in>set ?lines. newline \<notin> set l"
    using assms(2,3) dec_digits_one_line by (auto simp: newline_def)
  ultimately show ?thesis
    using split_at_lines [of ?lines "[]"] dec_digits_value by (intro exI [of _ "dec_digits (length remotes)"]) simp
qed

theorem list_reply_readable_witness:
  "\<exists>count. split_at newline (packet ''LIST'' True (snd (parseListString [zero_remote\<lparr>r_name := Some ''tv''\<rparr>, zero_remote\<lparr>r_name := Some ''amp''\<rparr>] []))) =
     [''BEGIN'', ''LIST'', ''SUCCESS'', ''DATA'', count, ''tv'', ''amp'', ''END'', []] \<and> digits_value 10 count = 2"
  using list_reply_readable [of "[zero_remote\<lparr>r_name := Some ''tv''\<rparr>, zero_remote\<lparr>r_name := Some ''amp''\<rparr>]" "''LIST''"]
  by (simp add: newline_def)

text \<open>A name that survives the text protocol.\<close>

definition plain_name :: "string \<Rightarrow> bool" where
  "plain_name w \<longleftrightarrow> w \<noteq> [] \<and> length w < 128 \<and> (\<forall>c\<in>set w. \<not> isspace c)"

definition send_line :: "string \<Rightarrow> string \<Rightarrow> nat \<Rightarrow> string" where
  "send_line remote button n = ''SEND_ONCE '' @ remote @ '' '' @ button @ '' '' @ dec_digits n"

lemma words_spaced:
  "w \<noteq> [] \<Longrightarrow> \<forall>c\<in>set w. \<not> isspace c \<Longrightarrow> words isspace (w @ CHR '' '' # rest) = w # words isspace rest"
  by (subst words_word) (simp_all add: isspace_def)

lemma scan_send_line:
  assumes "plain_name remote" and "plain_name button" and "int n < 2 ^ 31"
  shows "scan_send (send_line remote button n) = Some (remote, button, int n)"
proof -
  have cmd: "\<forall>c\<in>set ''SEND_ONCE''. \<not> isspace c"
    by (simp add: isspace_def)
  have num: "words isspace (dec_digits n) = [dec_digits n]"
    using words_word [of "dec_digits n" isspace "[]"] dec_digit_char [of _ n] by simp
  have "words isspace (send_line remote button n) = [''SEND_ONCE'', remote, button, dec_digits n]"
    using assms(1,2) words_spaced [OF _ cmd, of "remote @ '' '' @ button @ '' '' @ dec_digits n"]
      words_spaced [of remote "button @ '' '' @ dec_digits n"] words_spaced [of button "dec_digits n"] num
    by (simp add: send_line_def plain_name_def)
  with assms scan_int_dec [of n] show ?thesis
    by (simp add: scan_send_def plain_name_def)
qed



text \<open>
  \<open>LIST\<close> succeeds for a button that does not exist: the reply is \<open>SUCCESS\<close> with the code 0 and a
  null name, since \<open>get_code_by_name\<close> never returns \<open>NULL\<close>.
\<close>

theorem list_unknown_code_succeeds:
  assumes "get_remote_by_name remotes remote = Some r"
    and "get_code_by_name (codes_of (remotes ! r)) button = None"
  shows "parseListString remotes [remote, button] = (True, data_lines [''0000000000000000 (null)''])"
proof -
  have "map upper_hex (hex_digits 16 (unat (0 :: ir_code))) = ''0000000000000000''"
    by code_simp
  with assms show ?thesis
    by (simp add: parseListString_def Let_def del: hex_digits.simps)
qed

theorem list_unknown_code_succeeds_witness:
  "fst (parseListString [zero_remote\<lparr>r_name := Some ''tv'', r_codes := Some []\<rparr>] [''tv'', ''nothing''])"
  using list_unknown_code_succeeds [of "[zero_remote\<lparr>r_name := Some ''tv'', r_codes := Some []\<rparr>]" "''tv''" 0 "''nothing''"]
  by (simp add: get_remote_by_name_def get_code_by_name_def codes_of_def strcasecmp_def)

end
