(* ===== verification/DriverLaws.thy ===== *)
theory DriverLaws
  imports Driver ServerLaws CommandLaws
begin

text \<open>
  Theorems about the life of a plugin library, the daemon's filter for repeats and the remotes that
  \<open>readConfig\<close> accepts.
\<close>

subsection \<open>The plugin library\<close>

text \<open>
  The protocol of the library: it is loaded when it is not, and called and freed only while it is
  loaded. The result is whether it is loaded at the end, \<^const>\<open>None\<close> after a violation.
\<close>

fun library_state :: "action list \<Rightarrow> bool \<Rightarrow> bool option" where
  "library_state [] loaded = Some loaded"
| "library_state (Load # as) loaded = (if loaded then None else library_state as True)"
| "library_state (Free # as) loaded = (if loaded then library_state as False else None)"
| "library_state (Call e # as) loaded = (if loaded then library_state as loaded else None)"

lemma library_state_append:
  "library_state (as @ bs) loaded = Option.bind (library_state as loaded) (library_state bs)"
  by (induction as loaded rule: library_state.induct) auto

definition last_call :: "action list \<Rightarrow> action option" where
  "last_call as = (if as = [] then None else Some (last as))"

definition driver_ok :: "irdriver \<Rightarrow> bool" where
  "driver_ok d \<longleftrightarrow> library_state (dll_log d) False = Some (dll_file d) \<and>
     (\<not> dll_file d \<longrightarrow> dll_functions d = []) \<and>
     (daemon_running d \<longrightarrow> E_init \<in> set (dll_functions d) \<and> last_call (dll_log d) = Some (Call E_init))"

lemma driver_deinit_ok: "driver_ok d \<Longrightarrow> driver_ok (driver_deinit d) \<and> \<not> daemon_running (driver_deinit d)"
  by (auto simp: driver_ok_def driver_deinit_def Let_def library_state_append last_call_def)

lemma driver_deinit_same:
  "dll_functions (driver_deinit d) = dll_functions d" "dll_file (driver_deinit d) = dll_file d"
  by (simp_all add: driver_deinit_def Let_def)

lemma unloadPlugin_ok: "driver_ok d \<Longrightarrow> driver_ok (unloadPlugin d) \<and> \<not> dll_file (unloadPlugin d) \<and> \<not> daemon_running (unloadPlugin d)"
  using driver_deinit_ok [of d] driver_deinit_same [of d]
  by (auto simp: unloadPlugin_def Let_def driver_ok_def library_state_append)

lemma driver_step_ok: "driver_ok d \<Longrightarrow> driver_ok (driver_step oper d)"
proof (cases oper)
  case (Op_load library)
  assume "driver_ok d"
  from unloadPlugin_ok [OF this] Op_load show ?thesis
    by (auto simp: loadPlugin_def Let_def driver_ok_def library_state_append split: option.split)
next
  case (Op_init a b)
  assume d: "driver_ok d"
  let ?d = "driver_deinit d"
  let ?e = "?d\<lparr>dll_log := dll_log ?d @ [Call E_init]\<rparr>"
  have "driver_ok ?e" if "E_init \<in> set (dll_functions ?d)"
    using driver_deinit_ok [OF d] that by (auto simp: driver_ok_def library_state_append)
  moreover have "driver_ok (?e\<lparr>daemon_running := b\<rparr>)" if "E_init \<in> set (dll_functions ?d)"
    using driver_deinit_ok [OF d] that by (auto simp: driver_ok_def library_state_append last_call_def)
  ultimately show ?thesis
    using driver_deinit_ok [OF d] driver_deinit_ok Op_init by (auto simp: driver_init_def Let_def)
qed (simp_all add: unloadPlugin_ok driver_deinit_ok)


subsection \<open>Repeats\<close>

lemma scan_hex_digits:
  assumes "0 < n" and "rest = [] \<or> \<not> is_digit 16 (hd rest) \<and> hd rest \<noteq> CHR ''x'' \<and> hd rest \<noteq> CHR ''X''"
  shows "scan_hex (hex_digits n v @ rest) = Some (int (v mod 16 ^ n), rest)"
    and "scan_hex (CHR '' '' # hex_digits n v @ rest) = Some (int (v mod 16 ^ n), rest)"
proof -
  have all: "\<forall>x\<in>set (hex_digits n v). is_digit 16 x"
    using hex_digit_char by blast
  obtain c ds where c: "hex_digits n v = c # ds"
    using assms(1) length_hex_digits [of n v] by (cases "hex_digits n v") auto
  have x: "\<not> is_digit 16 (CHR ''x'')" "\<not> is_digit 16 (CHR ''X'')"
    by (simp_all add: is_digit_def digit_of_def)
  have "\<not> isspace c"
    using hex_digit_char [of c n v] c by simp
  moreover have "c \<noteq> CHR ''-''" "c \<noteq> CHR ''+''"
    using all c by (auto simp: is_digit_def digit_of_def)
  moreover have "\<not> has_hex_prefix (hex_digits n v @ rest)"
    using x all c assms(2) by (cases ds; cases rest) (auto simp: has_hex_prefix_def)
  moreover have "takeWhile (is_digit 16) (hex_digits n v @ rest) = hex_digits n v"
    "dropWhile (is_digit 16) (hex_digits n v @ rest) = rest"
    using all assms(2) by (cases rest; simp add: takeWhile_append2 dropWhile_append2)+
  ultimately show one: "scan_hex (hex_digits n v @ rest) = Some (int (v mod 16 ^ n), rest)"
    using c hex_digits_value [of n v] by (simp add: scan_hex_def sign_of_def Let_def)
  have "scan_hex (CHR '' '' # s) = scan_hex s" for s
    by (simp add: scan_hex_def isspace_def)
  with one show "scan_hex (CHR '' '' # hex_digits n v @ rest) = Some (int (v mod 16 ^ n), rest)"
    by simp
qed

lemma scan_word_first:
  assumes "w \<noteq> []" and "\<forall>c\<in>set w. \<not> isspace c" and "rest = [] \<or> isspace (hd rest)"
  shows "scan_word (CHR '' '' # w @ rest) = Some (w, rest)"
proof -
  have sp: "isspace (CHR '' '')"
    by (simp add: isspace_def)
  have "dropWhile isspace (CHR '' '' # w @ rest) = w @ rest"
    using assms(1,2) sp by (cases w) simp_all
  moreover have "takeWhile (\<lambda>c. \<not> isspace c) (w @ rest) = w"
    using assms(2,3) by (cases rest) (simp_all add: takeWhile_append2)
  ultimately show ?thesis
    using assms(1) by (simp add: scan_word_def Let_def)
qed

lemma scan_message:
  assumes "plain_name remote" and "plain_name button" and "0 \<le> reps" and "reps < 2 ^ 31"
  shows "scan_code_repeat (message_text remote button [] code reps) =
      Some (code, reps, '' '' @ button @ '' '' @ remote @ lf)"
    and "scan_names ('' '' @ button @ '' '' @ remote @ lf) = Some (button, remote)"
proof -
  let ?v = "nat reps" and ?tail = "CHR '' '' # button @ CHR '' '' # remote @ lf"
  have u: "u32 reps = reps"
    using assms(3,4) by (simp add: small)
  have width: "0 < hex_width ?v" "?v mod 16 ^ hex_width ?v = ?v"
    using hex_width_enough [of ?v] assms(3,4) by (auto simp: hex_width_def)
  have sp: "\<not> is_digit 16 (CHR '' '')"
    by (simp add: is_digit_def digit_of_def)
  have "unat code < 16 ^ 16"
    using unsigned_less [of code] by simp
  then have code: "unat code mod 16 ^ 16 = unat code"
    by simp
  have "scan_hex (message_text remote button [] code reps) =
      Some (int (unat code), CHR '' '' # hex_digits (hex_width ?v) ?v @ ?tail)"
    using scan_hex_digits(1) [of 16 "CHR '' '' # hex_digits (hex_width ?v) ?v @ ?tail" "unat code"] sp code
    by (simp add: message_text_def Let_def u del: hex_digits.simps)
  moreover have "scan_hex (CHR '' '' # hex_digits (hex_width ?v) ?v @ ?tail) = Some (int ?v, ?tail)"
    using scan_hex_digits(2) [of "hex_width ?v" ?tail ?v] width sp by simp
  ultimately show "scan_code_repeat (message_text remote button [] code reps) =
      Some (code, reps, '' '' @ button @ '' '' @ remote @ lf)"
    using assms(3,4) by (simp add: scan_code_repeat_def small in32_def)
  have "isspace (CHR '' '')" "isspace (CHR 0x0A)"
    by (simp_all add: isspace_def)
  with assms(1,2) show "scan_names ('' '' @ button @ '' '' @ remote @ lf) = Some (button, remote)"
    using scan_word_first [of button "CHR '' '' # remote @ lf"] scan_word_first [of remote lf]
    by (simp add: scan_names_def plain_name_def)
qed

text \<open>
  Holding a button. With \<open>disableFirstKeyRepeats\<close> set to \<open>n\<close>, the daemon reads back the line
  \<open>decodeCommand\<close> wrote, passes the first press on unchanged, drops the next \<open>n\<close> repeats, and
  renumbers the ones after them from 1, with the same code, button and remote; no name overruns its
  buffer when it has fewer than 128 characters.
\<close>

theorem first_repeats_dropped:
  assumes "plain_name remote" and "plain_name button" and "0 \<le> reps" and "reps < 2 ^ 31"
    and "\<not> disable_repeats st" and "0 < disable_first st" and "disable_first st < 2 ^ 31"
  shows "filter_repeats st (message_text remote button [] code reps) =
    (False, if reps = 0 then Some (message_text remote button [] code reps)
      else if reps \<le> disable_first st then None
      else Some (message_text remote button [] code (reps - disable_first st)))"
proof -
  have "length button < 128" "length remote < 128"
    using assms(1,2) by (simp_all add: plain_name_def)
  moreover have "sub32 reps (disable_first st) = reps - disable_first st"
    using assms(3,4,6,7) by (simp add: c_arith small in32_def)
  ultimately show ?thesis
    using scan_message(1) [OF assms(1-4), of code] scan_message(2) [OF assms(1-4)] assms(5,6) by (simp add: filter_repeats_def)
qed

theorem first_repeats_dropped_witness:
  "filter_repeats \<lparr>disable_repeats = False, disable_first = 3\<rparr> (message_text ''nec'' ''KEY_1'' [] 0xC59 5) =
   (False, Some (message_text ''nec'' ''KEY_1'' [] 0xC59 2))"
proof -
  have "plain_name ''nec''" "plain_name ''KEY_1''"
    by (simp_all add: plain_name_def isspace_def)
  from first_repeats_dropped [OF this, where reps = 5 and st = "\<lparr>disable_repeats = False, disable_first = 3\<rparr>" and code = "0xC59"]
  show ?thesis by simp
qed

text \<open>
  With \<open>disableRepeats\<close> set, exactly the lines with repeat count 0 reach the clients.
\<close>

theorem repeats_disabled:
  assumes "plain_name remote" and "plain_name button" and "0 \<le> reps" and "reps < 2 ^ 31" and "disable_repeats st"
  shows "exec (daemon_round st (message_text remote button [] code reps)) s =
    (if reps = 0 then exec (sendToClients (message_text remote button [] code reps)) s else s)"
  using scan_message(1) [OF assms(1-4), of code] scan_message(2) [OF assms(1-4)] assms(5) by (simp add: daemon_round_def filter_repeats_def)

theorem repeats_disabled_witness:
  "sv_out (exec (daemon_round \<lparr>disable_repeats = True, disable_first = 0\<rparr> (message_text ''nec'' ''KEY_1'' [] 0xC59 1)) one_client) = []"
proof -
  have "plain_name ''nec''" "plain_name ''KEY_1''"
    by (simp_all add: plain_name_def isspace_def)
  from repeats_disabled [OF this, where reps = 1 and st = "\<lparr>disable_repeats = True, disable_first = 0\<rparr>" and code = "0xC59" and s = one_client]
  show ?thesis by (simp add: server_start_def)
qed

end
