(* ===== verification/CFloat.thy ===== *)
theory CFloat
  imports Prelude Complex_Main
begin

text \<open>
  The floating-point arithmetic of the plugins: IEEE rounding to a number of binary digits, to the
  nearest and to even, 24 for \<open>float\<close> and 53 for \<open>double\<close>. Overflow and subnormal numbers do not
  occur at the magnitudes the plugins use. A constant of the source is the literal, rounded.
\<close>

text \<open>The number of binary digits of an integer.\<close>

function bit_length :: "int \<Rightarrow> int" where
  "bit_length n = (if n \<le> 0 then 0 else bit_length (n div 2) + 1)"
  by pat_completeness auto
termination by (relation "measure nat") auto

declare bit_length.simps [simp del]

text \<open>\<open>magnitude x\<close> is the binary exponent of a positive number.\<close>

definition magnitude :: "rat \<Rightarrow> int" where
  "magnitude x =
    (let (n, d) = quotient_of x; k = bit_length n - bit_length d
     in if 2 powi k \<le> x then k else k - 1)"

definition round_even :: "rat \<Rightarrow> int" where
  "round_even x =
    (let n = \<lfloor>x\<rfloor>; r = x - of_int n
     in if r < 1 / 2 then n else if r > 1 / 2 then n + 1 else if even n then n else n + 1)"

text \<open>Rounding a number that is not negative to \<open>p\<close> digits.\<close>

definition fl :: "nat \<Rightarrow> rat \<Rightarrow> rat" where
  "fl p x =
    (if x \<le> 0 then 0
     else (let u = 2 powi (magnitude x - int p + 1) in of_int (round_even (x / u)) * u))"

abbreviation float32 :: "rat \<Rightarrow> rat" where "float32 \<equiv> fl 24"
abbreviation float64 :: "rat \<Rightarrow> rat" where "float64 \<equiv> fl 53"

subsection \<open>The error of rounding\<close>

lemma bit_length_bounds: "0 < n \<Longrightarrow> 0 < bit_length n \<and> 2 ^ nat (bit_length n - 1) \<le> n \<and> n < 2 ^ nat (bit_length n)"
proof (induction n rule: bit_length.induct)
  case (1 n)
  show ?case
  proof (cases "n = 1")
    case True
    then show ?thesis by (simp add: bit_length.simps)
  next
    case False
    with 1 have IH: "0 < bit_length (n div 2)" "2 ^ nat (bit_length (n div 2) - 1) \<le> n div 2"
      "n div 2 < 2 ^ nat (bit_length (n div 2))"
      by auto
    have b: "bit_length n = bit_length (n div 2) + 1"
      using 1(2) by (subst bit_length.simps) simp
    obtain m where m: "bit_length (n div 2) = int (Suc m)"
      using IH(1) by (metis gr0_implies_Suc zero_less_imp_eq_int of_nat_0_less_iff)
    have "nat (int (Suc m) - 1) = m" "nat (int (Suc m)) = Suc m" "nat (int (Suc m) + 1) = Suc (Suc m)"
      by simp_all
    with IH m b have "0 < bit_length n" "2 ^ nat (bit_length n - 1) = 2 * (2 ^ m :: int)"
      "2 ^ nat (bit_length n) = 4 * (2 ^ m :: int)" "2 ^ m \<le> n div 2" "n div 2 < 2 * 2 ^ m"
      by simp_all
    moreover from this(4,5) have "2 * 2 ^ m \<le> n" "n < 4 * 2 ^ m"
      by linarith+
    ultimately show ?thesis by simp
  qed
qed

lemma magnitude_bounds:
  assumes "0 < x"
  shows "2 powi magnitude x \<le> x \<and> x < 2 powi (magnitude x + 1)"
proof -
  obtain n d where q: "quotient_of x = (n, d)" by (cases "quotient_of x")
  then have d: "0 < d" and x: "x = of_int n / of_int d"
    by (simp_all add: quotient_of_denom_pos quotient_of_div)
  with assms have n: "0 < n" by (simp add: zero_less_divide_iff)
  let ?a = "bit_length n" and ?b = "bit_length d"
  have pow: "(2 :: rat) powi k = of_int (2 ^ nat k)" if "0 \<le> k" for k
    using that by (simp add: power_int_def)
  have an: "2 powi (?a - 1) \<le> (of_int n :: rat)" "(of_int n :: rat) < 2 powi ?a"
    and bd: "2 powi (?b - 1) \<le> (of_int d :: rat)" "(of_int d :: rat) < 2 powi ?b"
    using bit_length_bounds [OF n] bit_length_bounds [OF d] by (simp_all add: pow del: of_int_power)
  have lt: "x < 2 powi (?a - ?b + 1)"
  proof -
    have "x < 2 powi ?a / of_int d"
      using an d x by (simp add: divide_strict_right_mono)
    also have "\<dots> \<le> 2 powi ?a / 2 powi (?b - 1)"
      using bd d by (intro divide_left_mono) auto
    also have "\<dots> = 2 powi (?a - ?b + 1)"
      by (simp add: power_int_diff [symmetric] algebra_simps)
    finally show ?thesis .
  qed
  have ge: "2 powi (?a - ?b - 1) \<le> x"
  proof -
    have "2 powi (?a - ?b - 1) = 2 powi (?a - 1) / (2 powi ?b :: rat)"
      by (simp add: power_int_diff [symmetric] algebra_simps)
    also have "\<dots> \<le> of_int n / 2 powi ?b"
      using an by (simp add: divide_right_mono)
    also have "\<dots> \<le> of_int n / of_int d"
      using bd d n by (intro divide_left_mono) auto
    finally show ?thesis using x by simp
  qed
  show ?thesis
    using lt ge by (auto simp: magnitude_def q Let_def algebra_simps)
qed

lemma round_even_error: "\<bar>of_int (round_even x) - x\<bar> \<le> 1 / 2"
proof -
  have "0 \<le> x - of_int \<lfloor>x\<rfloor>" "x - of_int \<lfloor>x\<rfloor> < 1"
    by linarith+
  then show ?thesis by (auto simp: round_even_def Let_def abs_le_iff)
qed

lemma fl_error:
  assumes "0 \<le> x"
  shows "\<bar>fl p x - x\<bar> \<le> x / 2 ^ p"
proof (cases "x = 0")
  case True
  then show ?thesis by (simp add: fl_def)
next
  case False
  with assms have x: "0 < x" by simp
  let ?u = "(2 :: rat) powi (magnitude x - int p + 1)"
  have u: "0 < ?u" by simp
  have "fl p x - x = (of_int (round_even (x / ?u)) - x / ?u) * ?u"
    using x by (simp add: fl_def Let_def algebra_simps)
  then have "\<bar>fl p x - x\<bar> \<le> 1 / 2 * ?u"
    using round_even_error [of "x / ?u"] by (simp add: abs_mult)
  also have "\<dots> = 2 powi magnitude x / 2 ^ p"
    by (simp add: power_int_add power_int_diff)
  also have "\<dots> \<le> x / 2 ^ p"
    using magnitude_bounds [OF x] by (simp add: divide_right_mono)
  finally show ?thesis .
qed

lemma fl_nonneg: "0 \<le> fl p x"
proof (cases "x \<le> 0")
  case False
  have "0 \<le> round_even y" if "0 < y" for y
    using that by (auto simp: round_even_def Let_def)
  with False show ?thesis by (simp add: fl_def Let_def)
qed (simp add: fl_def)

end
