(* ===== verification/Irdroid.thy ===== *)
theory Irdroid
  imports CFloat Device Send
begin

text \<open>
  The plugin for the Irdroid USB transceiver, \<open>DLL/Irdroid/SendReceiveData.cpp\<close>; the plugin for the
  IR Toy, \<open>DLL/IRToy/SendReceiveData.cpp\<close>, has the same code. The device counts in ticks of about
  21.33 microseconds, two bytes each, high byte first, and ends a signal with the word 0xFFFF.

  What the serial port delivers to one call of \<open>Read\<close> is a list of bytes; what is written is a list
  of writes. A read that never returns is \<^const>\<open>None\<close>.
\<close>

subsection \<open>Ticks\<close>

text \<open>\<open>(int)((float)value * 21.3333f)\<close>\<close>

definition usecs_of_ticks :: "int \<Rightarrow> lirc_t" where
  "usecs_of_ticks v = \<lfloor>float32 (of_int v * float32 (213333 / 10000))\<rfloor>"

text \<open>\<open>(USHORT)((signals[i] & PULSE_MASK) / 21.33)\<close>\<close>

definition ticks_of_usecs :: "lirc_t \<Rightarrow> int" where
  "ticks_of_usecs d = \<lfloor>float64 (of_int (d AND PULSE_MASK) / float64 (2133 / 100))\<rfloor> mod 65536"

subsection \<open>Receiving\<close>

text \<open>The local variables of \<open>receiveLoop\<close> and the buffer it fills.\<close>

record sampler =
  sm_highByte :: bool
  sm_pulse :: bool
  sm_value :: int
  sm_firstSpace :: bool
  sm_fifo :: fifo

definition sampler_start :: "fifo \<Rightarrow> sampler" where
  "sampler_start f = \<lparr>sm_highByte = True, sm_pulse = True, sm_value = 0, sm_firstSpace = False, sm_fifo = f\<rparr>"

text \<open>A complete value: the sample, with a long space in front of the first one after a time-out.\<close>

definition put_sample :: "int \<Rightarrow> sampler \<Rightarrow> sampler" where
  "put_sample value s =
    (let v = usecs_of_ticks value;
         v = (if sm_pulse s then v OR PULSE_BIT else v);
         s = s\<lparr>sm_value := v, sm_pulse := \<not> sm_pulse s\<rparr>;
         s = (if sm_firstSpace s then s else s\<lparr>sm_fifo := fifo_push PULSE_MASK (sm_fifo s), sm_firstSpace := True\<rparr>)
     in s\<lparr>sm_fifo := fifo_push v (sm_fifo s)\<rparr>)"

text \<open>One buffer of bytes. The word 0xFFFF resynchronises and leaves the loop over the buffer.\<close>

fun feed_buffer :: "int list \<Rightarrow> sampler \<Rightarrow> sampler" where
  "feed_buffer [] s = s"
| "feed_buffer (b # bs) s =
    (if sm_highByte s then feed_buffer bs (s\<lparr>sm_value := (b AND 0xFF) * 256, sm_highByte := False\<rparr>)
     else
       (let v = sm_value s + (b AND 0xFF); s = s\<lparr>sm_value := v, sm_highByte := True\<rparr>
        in if v = 0xFFFF then s\<lparr>sm_pulse := True, sm_firstSpace := False\<rparr>
           else feed_buffer bs (put_sample v s)))"

definition receiveLoop :: "int list list \<Rightarrow> sampler \<Rightarrow> sampler" where
  "receiveLoop reads s = fold feed_buffer reads s"

subsection \<open>Sending\<close>

text \<open>Rounding is on magnitudes; the conversion to \<open>int\<close> drops the fraction.\<close>

definition calcPR2 :: "int \<Rightarrow> int" where
  "calcPR2 frequency =
    (let oscillatorPeriod = float64 (1 / 48000000);
         pwmPeriod = float64 (1 / of_int \<bar>frequency\<bar>);
         x = float64 (pwmPeriod / float64 (16 * oscillatorPeriod));
         pr2 = (if frequency < 0 then - \<lfloor>float64 (x + 1 / 2)\<rfloor>
                else if x < 1 / 2 then 0 else \<lfloor>float64 (x - 1 / 2)\<rfloor>)
     in if pr2 = 0 \<or> pr2 > 255 then 0 else pr2 mod 256)"

text \<open>
  The words of a signal of \<open>send_buffer.wptr\<close> durations, with the terminator; a space at the end is
  replaced by it.
\<close>

definition signal_words :: "lirc_t list \<Rightarrow> int list" where
  "signal_words durations =
    (let ticks = map ticks_of_usecs durations
     in (if even (length durations) then butlast ticks else ticks) @ [0xFFFF])"

definition bytes_of_words :: "int list \<Rightarrow> int list" where
  "bytes_of_words ws = concat (map (\<lambda>w. [w div 256, w mod 256]) ws)"

text \<open>
  The loop over the packets: the device says how many bytes it takes. The result is the writes and the
  replies that are left. An odd number of bytes as long as the rest reads one byte past the array.
\<close>

fun write_packets :: "nat \<Rightarrow> nat \<Rightarrow> int list \<Rightarrow> nat list \<Rightarrow> (int list list \<times> nat list) option" where
  "write_packets i len bytes [] = (if i < len then None else Some ([], []))"
| "write_packets i len bytes (reply # replies) =
    (if i < len then
       (let n = (if len - i < reply div 2 then (len - i) * 2 else reply)
        in map_option (\<lambda>(writes, rest). (take n (drop (2 * i) bytes) # writes, rest))
             (write_packets (i + n div 2) len bytes replies))
     else Some ([], reply # replies))"

text \<open>The command that sets the carrier, when the remote has one and the device can make it.\<close>

definition irdroid_carrier :: "ir_remote \<Rightarrow> int list list" where
  "irdroid_carrier remote =
    (let freq = r_freq remote; pr2 = calcPR2 (i32 freq)
     in if freq \<noteq> 0 \<and> pr2 \<noteq> 0 then [[0x06, pr2, 0]] else [])"

text \<open>
  \<open>send\<close>: the result, what is written to the port and the transmitter afterwards. After the packets
  the device sends one more count and then \<open>C\<close> or \<open>F\<close>.
\<close>

definition irdroid_send :: "int \<Rightarrow> nat list \<Rightarrow> tx \<Rightarrow> (bool \<times> int list list \<times> tx) option" where
  "irdroid_send repeats replies s =
    (case init_send repeats s of
       None \<Rightarrow> None
     | Some (ok, s') \<Rightarrow>
         if \<not> ok then Some (False, [], s')
         else
           (let words = signal_words (take (nat (sb_wptr s')) (sb_data s'))
            in (case write_packets 0 (length words) (bytes_of_words words) replies of
                  None \<Rightarrow> None
                | Some (writes, rest) \<Rightarrow>
                    (case rest of
                       _ # outcome # _ \<Rightarrow>
                         Some (outcome = of_char (CHR ''C''), irdroid_carrier (tx_remote s') @ [[0x03]] @ writes, s')
                     | _ \<Rightarrow> None))))"

end
