(* ===== verification/IrdroidLaws.thy ===== *)
theory IrdroidLaws
  imports Irdroid RoundTrip
begin

text \<open>
  Theorems about the Irdroid plugin: the error of its time base, the decoding of the byte stream, the
  packets, and what one such device hears of another.
\<close>

subsection \<open>The time base\<close>

lemma within: "\<bar>a - b\<bar> \<le> (e :: rat) \<Longrightarrow> b - e \<le> a \<and> a \<le> b + e"
  by linarith

lemma tick_constants:
  "\<bar>float32 (213333 / 10000) - 213333 / 10000\<bar> \<le> 213333 / 10000 / 2 ^ 24"
  "\<bar>float64 (2133 / 100) - 2133 / 100\<bar> \<le> 2133 / 100 / 2 ^ 53"
  by (rule fl_error; simp)+

lemma usecs_bounds:
  assumes "0 \<le> v"
  shows "of_int v * (213332 / 10000) - 1 < (of_int (usecs_of_ticks v) :: rat)"
    and "of_int (usecs_of_ticks v) \<le> (of_int v * (213334 / 10000) :: rat)"
proof -
  let ?c = "float32 (213333 / 10000)"
  have c: "?c \<le> 213333 / 10000 * (1 + 1 / 2 ^ 24)" "213333 / 10000 * (1 - 1 / 2 ^ 24) \<le> ?c"
    using within [OF tick_constants(1)] by simp_all
  have e: "\<bar>float32 (of_int v * ?c) - of_int v * ?c\<bar> \<le> of_int v * ?c / 2 ^ 24"
    using assms c by (intro fl_error mult_nonneg_nonneg) simp_all
  have lo: "of_int v * (213332 / 10000) \<le> of_int v * (?c * (1 - 1 / 2 ^ 24))"
    using assms c by (intro mult_left_mono) simp_all
  have hi: "of_int v * (?c * (1 + 1 / 2 ^ 24)) \<le> of_int v * (213334 / 10000)"
    using assms c by (intro mult_left_mono) simp_all
  have "of_int v * (213332 / 10000) \<le> float32 (of_int v * ?c)" "float32 (of_int v * ?c) \<le> of_int v * (213334 / 10000)"
    using within [OF e] lo hi by (simp_all add: algebra_simps)
  then show "of_int v * (213332 / 10000) - 1 < (of_int (usecs_of_ticks v) :: rat)"
    "of_int (usecs_of_ticks v) \<le> (of_int v * (213334 / 10000) :: rat)"
    unfolding usecs_of_ticks_def by linarith+
qed

lemma raw_ticks_bounds:
  assumes "0 \<le> d"
  shows "of_int d / (213301 / 10000) - 1 < (of_int \<lfloor>float64 (of_int d / float64 (2133 / 100))\<rfloor> :: rat)"
    and "of_int \<lfloor>float64 (of_int d / float64 (2133 / 100))\<rfloor> \<le> (of_int d / (213299 / 10000) :: rat)"
proof -
  let ?c = "float64 (2133 / 100)"
  have c: "?c \<le> 2133 / 100 * (1 + 1 / 2 ^ 53)" "2133 / 100 * (1 - 1 / 2 ^ 53) \<le> ?c"
    using within [OF tick_constants(2)] by simp_all
  then have pos: "0 < ?c" by (simp add: field_simps)
  have e: "\<bar>float64 (of_int d / ?c) - of_int d / ?c\<bar> \<le> of_int d / ?c / 2 ^ 53"
    using assms pos by (intro fl_error) simp
  have lo: "of_int d / (213301 / 10000) \<le> of_int d / ?c * (1 - 1 / 2 ^ 53)"
  proof -
    have "?c \<le> 213301 / 10000 * (1 - 1 / 2 ^ 53)"
      using c by simp
    then have "1 / (213301 / 10000) \<le> 1 / ?c * (1 - 1 / 2 ^ 53)"
      using pos by (simp add: field_simps)
    then have "of_int d * (1 / (213301 / 10000)) \<le> of_int d * (1 / ?c * (1 - 1 / 2 ^ 53))"
      using assms by (intro mult_left_mono) simp_all
    then show ?thesis by simp
  qed
  have hi: "of_int d / ?c * (1 + 1 / 2 ^ 53) \<le> of_int d / (213299 / 10000)"
  proof -
    have "213299 / 10000 * (1 + 1 / 2 ^ 53) \<le> ?c"
      using c by simp
    then have "1 / ?c * (1 + 1 / 2 ^ 53) \<le> 1 / (213299 / 10000)"
      using pos by (simp add: field_simps)
    then have "of_int d * (1 / ?c * (1 + 1 / 2 ^ 53)) \<le> of_int d * (1 / (213299 / 10000))"
      using assms by (intro mult_left_mono) simp_all
    then show ?thesis by simp
  qed
  have "of_int d / (213301 / 10000) \<le> float64 (of_int d / ?c)" "float64 (of_int d / ?c) \<le> of_int d / (213299 / 10000)"
    using within [OF e] lo hi by (simp_all add: algebra_simps)
  then show "of_int d / (213301 / 10000) - 1 < (of_int \<lfloor>float64 (of_int d / ?c)\<rfloor> :: rat)"
    "of_int \<lfloor>float64 (of_int d / ?c)\<rfloor> \<le> (of_int d / (213299 / 10000) :: rat)"
    by linarith+
qed

lemma masked_duration: "0 \<le> d \<Longrightarrow> d < 2 ^ 24 \<Longrightarrow> d AND PULSE_MASK = d"
  using take_bit_int_eq_self [of d 24] by (simp add: take_bit_eq_mask mask_numeral)

lemma ticks_bounds:
  assumes "0 \<le> d" and "d \<le> 1390000"
  shows "of_int d / (213301 / 10000) - 1 < (of_int (ticks_of_usecs d) :: rat)"
    and "of_int (ticks_of_usecs d) \<le> (of_int d / (213299 / 10000) :: rat)"
    and "0 \<le> ticks_of_usecs d" and "ticks_of_usecs d < 0xFFFF"
proof -
  let ?q = "\<lfloor>float64 (of_int d / float64 (2133 / 100))\<rfloor>"
  have "(of_int d :: rat) \<le> 1390000"
    using assms(2) by simp
  then have "of_int d / (213299 / 10000) < (of_int 65535 :: rat)"
    by simp
  with raw_ticks_bounds(2) [OF assms(1)] have "of_int ?q < (of_int 65535 :: rat)"
    by (rule order.strict_trans1)
  then have q: "?q < 65535"
    by (simp only: of_int_less_iff)
  have nn: "0 \<le> ?q"
    using fl_nonneg [of 53] by simp
  have t: "ticks_of_usecs d = ?q"
    using assms q nn masked_duration [of d] by (simp add: ticks_of_usecs_def)
  show "of_int d / (213301 / 10000) - 1 < (of_int (ticks_of_usecs d) :: rat)"
    "of_int (ticks_of_usecs d) \<le> (of_int d / (213299 / 10000) :: rat)"
    unfolding t by (rule raw_ticks_bounds [OF assms(1)])+
  show "0 \<le> ticks_of_usecs d" "ticks_of_usecs d < 0xFFFF"
    using t q nn by simp_all
qed

lemma link_error:
  assumes "0 \<le> d" and "d \<le> 1390000"
  shows "d - 22 \<le> usecs_of_ticks (ticks_of_usecs d)"
    and "usecs_of_ticks (ticks_of_usecs d) \<le> d + d div 6000"
proof -
  let ?t = "ticks_of_usecs d"
  let ?u = "usecs_of_ticks ?t"
  note t = ticks_bounds [OF assms]
  note u = usecs_bounds [OF t(3)]
  have d: "(0 :: rat) \<le> of_int d" using assms(1) by simp
  have "(of_int d :: rat) - 23 < of_int ?u"
    using u(1) t(1) d by simp
  then have "of_int (d - 23) < (of_int ?u :: rat)" by simp
  then show "d - 22 \<le> ?u" by linarith
  have "(of_int ?u :: rat) \<le> of_int d + of_int d / 6000"
    using u(2) t(2) d by simp
  then have "?u - d \<le> \<lfloor>(of_int d :: rat) / 6000\<rfloor>"
    by (simp add: le_floor_iff algebra_simps)
  also have "\<lfloor>(of_int d :: rat) / 6000\<rfloor> = d div 6000"
    using floor_divide_of_int_eq [of d 6000, where 'a = rat] by simp
  finally show "?u \<le> d + d div 6000" by simp
qed

text \<open>
  One Irdroid hears another within the tolerance. A duration of up to 1.39 seconds, cut into ticks
  by the sender and turned back by the receiver, loses at most 22 microseconds and gains at most one
  part in 6000, floating-point rounding included; so a remote with an absolute tolerance of 22
  microseconds and a relative one of one per cent recognises every duration.
\<close>

theorem irdroid_within_tolerance:
  assumes "0 \<le> d" and "d \<le> 1390000" and "sane_eps remote" and "1 \<le> r_eps remote" and "22 \<le> r_aeps remote"
  shows "d - 22 \<le> usecs_of_ticks (ticks_of_usecs d) \<and> usecs_of_ticks (ticks_of_usecs d) \<le> d + d div 6000 \<and>
    (22 \<le> d \<longrightarrow> expect remote (usecs_of_ticks (ticks_of_usecs d)) d)"
proof -
  let ?u = "usecs_of_ticks (ticks_of_usecs d)"
  note e = link_error [OF assms(1,2)]
  have "expect remote ?u d" if "22 \<le> d"
  proof -
    have "d div 6000 \<le> d * r_eps remote div 100"
    proof -
      have "d div 6000 \<le> d div 100"
        using assms(1) by (simp add: zdiv_mono2)
      also have "d div 100 \<le> d * r_eps remote div 100"
        using assms(1,4) mult_left_mono [of 1 "r_eps remote" d] by (intro zdiv_mono1) simp_all
      finally show ?thesis .
    qed
    then have "\<bar>d - ?u\<bar> \<le> tolerance remote d"
      using e assms(5) by (auto simp: tolerance_def abs_le_iff)
    moreover have "d div 6000 \<le> 240"
      using assms(2) by simp
    then have "duration ?u" "duration d"
      using e assms(1,2) that by (auto simp: duration_def)
    ultimately show ?thesis
      using expect_iff [OF assms(3)] by blast
  qed
  with e show ?thesis by blast
qed

theorem irdroid_within_tolerance_witness:
  "expect (zero_remote\<lparr>r_eps := 1, r_aeps := 22\<rparr>) (usecs_of_ticks (ticks_of_usecs 9000)) 9000"
  using irdroid_within_tolerance [of 9000 "zero_remote\<lparr>r_eps := 1, r_aeps := 22\<rparr>"]
  by (simp add: sane_eps_def zero_remote_def)

subsection \<open>The byte stream\<close>

text \<open>No word of the stream is the resynchronisation.\<close>

fun sync_free :: "bool \<Rightarrow> int \<Rightarrow> int list \<Rightarrow> bool" where
  "sync_free high v [] = True"
| "sync_free True v (b # bs) = sync_free False ((b AND 0xFF) * 256) bs"
| "sync_free False v (b # bs) = (v + (b AND 0xFF) \<noteq> 0xFFFF \<and> sync_free True v bs)"

lemma put_sample_high [simp]: "sm_highByte (put_sample v s) = sm_highByte s"
  by (simp add: put_sample_def Let_def)

lemma sync_free_high: "sync_free True v bs = sync_free True w bs"
  by (cases bs) auto

lemma feed_append:
  "sync_free (sm_highByte s) (sm_value s) xs \<Longrightarrow> feed_buffer (xs @ ys) s = feed_buffer ys (feed_buffer xs s)"
proof (induction xs s rule: feed_buffer.induct)
  case (1 s)
  then show ?case by simp
next
  case (2 b bs s)
  then show ?case
    by (cases "sm_highByte s") (auto simp: Let_def intro: sync_free_high [THEN iffD1])
qed

lemma sync_free_after:
  "sync_free (sm_highByte s) (sm_value s) (xs @ ys) \<Longrightarrow>
   sync_free (sm_highByte s) (sm_value s) xs \<and> sync_free (sm_highByte (feed_buffer xs s)) (sm_value (feed_buffer xs s)) ys"
proof (induction xs s rule: feed_buffer.induct)
  case (1 s)
  then show ?case by simp
next
  case (2 b bs s)
  show ?case
  proof (cases "sm_highByte s")
    case True
    with 2 show ?thesis by simp
  next
    case False
    let ?s = "s\<lparr>sm_value := sm_value s + (b AND 0xFF), sm_highByte := True\<rparr>"
    from False 2(3) have v: "sm_value s + (b AND 0xFF) \<noteq> 0xFFFF" "sync_free True (sm_value s) (bs @ ys)"
      by simp_all
    let ?t = "put_sample (sm_value s + (b AND 0xFF)) ?s"
    have "sync_free (sm_highByte ?t) (sm_value ?t) (bs @ ys)"
      using v(2) sync_free_high [of "sm_value ?t" "bs @ ys" "sm_value s"] by simp
    note IH = 2(2) [OF False refl refl v(1) this]
    have "sync_free True (sm_value s) bs"
      using IH sync_free_high [of "sm_value ?t" bs "sm_value s"] by simp
    with IH False v(1) show ?thesis
      using sync_free_high [of "sm_value s + (b AND 0xFF)" bs "sm_value s"] by (simp add: Let_def)
  qed
qed

text \<open>How the port cuts the stream up does not matter if a resynchronisation can only be its end.\<close>

lemma receive_pieces:
  "sync_free (sm_highByte s) (sm_value s) (butlast (concat reads)) \<Longrightarrow> receiveLoop reads s = feed_buffer (concat reads) s"
proof (induction reads arbitrary: s)
  case Nil
  then show ?case by (simp add: receiveLoop_def)
next
  case (Cons r reads)
  show ?case
  proof (cases "concat reads = []")
    case True
    with Cons.IH [of "feed_buffer r s"] have "receiveLoop (r # reads) s = feed_buffer r s"
      by (simp add: receiveLoop_def)
    moreover have "concat (r # reads) = r" using True by (simp only: concat.simps append_Nil2)
    ultimately show ?thesis by (simp only:)
  next
    case False
    with Cons.prems have "sync_free (sm_highByte s) (sm_value s) (r @ butlast (concat reads))"
      by (simp only: concat.simps butlast_append False if_False)
    with sync_free_after [OF this] Cons.IH [of "feed_buffer r s"] show ?thesis
      by (simp add: receiveLoop_def feed_append)
  qed
qed

definition word16 :: "int \<Rightarrow> bool" where
  "word16 w \<longleftrightarrow> 0 \<le> w \<and> w < 0xFFFF"

lemma word_bytes:
  assumes "word16 w"
  shows "(w div 256) AND 255 = w div 256" and "(w mod 256) AND 255 = w mod 256"
proof -
  have "x AND 255 = x" if "0 \<le> x" "x < 256" for x :: int
    using take_bit_int_eq_self [of x 8] that by (simp add: take_bit_eq_mask mask_numeral)
  moreover have "0 \<le> w div 256" "w div 256 < 256"
    using assms by (auto simp: word16_def pos_imp_zdiv_nonneg_iff)
  ultimately show "(w div 256) AND 255 = w div 256" "(w mod 256) AND 255 = w mod 256"
    by simp_all
qed

lemma sync_free_append_high: "list_all word16 ws \<Longrightarrow> sync_free True v (bytes_of_words ws @ [b])"
proof (induction ws arbitrary: v)
  case Nil
  then show ?case by (simp add: bytes_of_words_def)
next
  case (Cons w ws)
  have "w div 256 * 256 + w mod 256 = w" by simp
  with Cons word_bytes [of w] show ?case
    by (simp add: bytes_of_words_def word16_def)
qed

lemma sync_free_words: "list_all word16 ws \<Longrightarrow> sync_free True v (bytes_of_words ws)"
  using sync_free_after [of "\<lparr>sm_highByte = True, sm_pulse = True, sm_value = v, sm_firstSpace = True, sm_fifo = fifo_init\<rparr>"
      "bytes_of_words ws" "[0]"] sync_free_append_high [of ws v 0] by simp

lemma feed_words:
  "list_all word16 ws \<Longrightarrow> sm_highByte s \<Longrightarrow>
   sm_fifo (feed_buffer (bytes_of_words ws) s) =
     fold fifo_push ((if ws = [] \<or> sm_firstSpace s then [] else [PULSE_MASK]) @ marked (sm_pulse s) (map usecs_of_ticks ws))
       (sm_fifo s)"
proof (induction ws arbitrary: s)
  case Nil
  then show ?case by (simp add: bytes_of_words_def)
next
  case (Cons w ws)
  have w: "w div 256 * 256 + w mod 256 = w" "w \<noteq> 0xFFFF" "word16 w"
    using Cons(2) by (auto simp: word16_def)
  let ?s = "put_sample w (s\<lparr>sm_value := w, sm_highByte := True\<rparr>)"
  have "feed_buffer (bytes_of_words (w # ws)) s = feed_buffer (bytes_of_words ws) ?s"
    using Cons(3) w word_bytes [OF w(3)] by (simp add: bytes_of_words_def Let_def)
  moreover have "sm_fifo (feed_buffer (bytes_of_words ws) ?s) =
      fold fifo_push (marked (sm_pulse ?s) (map usecs_of_ticks ws)) (sm_fifo ?s)"
    using Cons by (simp add: put_sample_def Let_def)
  ultimately show ?case
    by (simp add: put_sample_def Let_def flag_pulse_def)
qed

lemma bytes_of_words_append: "bytes_of_words (xs @ ys) = bytes_of_words xs @ bytes_of_words ys"
  by (simp add: bytes_of_words_def)

lemma feed_after_sync:
  "sm_highByte s \<Longrightarrow> feed_buffer (0xFF # 0xFF # rest) s = s\<lparr>sm_value := 0xFFFF, sm_pulse := True, sm_firstSpace := False\<rparr>"
  by (simp add: Let_def)

lemma high_after_words: "list_all word16 ws \<Longrightarrow> sm_highByte s \<Longrightarrow> sm_highByte (feed_buffer (bytes_of_words ws) s)"
proof (induction ws arbitrary: s)
  case Nil
  then show ?case by (simp add: bytes_of_words_def)
next
  case (Cons w ws)
  have w: "w div 256 * 256 + w mod 256 = w" "w \<noteq> 0xFFFF" "word16 w"
    using Cons(2) by (auto simp: word16_def)
  with Cons word_bytes [OF w(3)] show ?case
    by (simp add: bytes_of_words_def Let_def)
qed

lemma stream_decoded:
  assumes "concat reads = bytes_of_words (ws @ [0xFFFF])" and "list_all word16 ws" and "ws \<noteq> []" and "length ws \<le> 254"
    and "fifo_invar f" and "fifo_empty f"
  shows "\<exists>f'. receiveLoop reads (sampler_start f) = (sampler_start f')\<lparr>sm_value := 0xFFFF\<rparr> \<and>
    fifo_contents f' = PULSE_MASK # air (map usecs_of_ticks ws)"
proof -
  let ?xs = "PULSE_MASK # air (map usecs_of_ticks ws)" and ?s = "sampler_start f"
  let ?t = "feed_buffer (bytes_of_words ws) ?s"
  have high: "sm_highByte ?s" "sm_highByte ?t"
    using high_after_words [OF assms(2)] by (simp_all add: sampler_start_def)
  have stream: "bytes_of_words (ws @ [0xFFFF]) = bytes_of_words ws @ [0xFF, 0xFF]"
    by (simp add: bytes_of_words_def)
  have free: "sync_free True (sm_value ?s) (bytes_of_words ws)"
    by (rule sync_free_words [OF assms(2)])
  have "sync_free (sm_highByte ?s) (sm_value ?s) (bytes_of_words ws @ [0xFF])"
    using sync_free_append_high [OF assms(2)] high by simp
  then have "receiveLoop reads ?s = feed_buffer (bytes_of_words ws @ [0xFF, 0xFF]) ?s"
    using receive_pieces [of ?s reads] by (simp add: assms(1) stream butlast_append)
  also have "\<dots> = feed_buffer [0xFF, 0xFF] ?t"
    using free high by (intro feed_append) simp
  also have "\<dots> = (sampler_start (sm_fifo ?t))\<lparr>sm_value := 0xFFFF\<rparr>"
    using high(2) by (simp add: feed_after_sync sampler_start_def)
  finally have "receiveLoop reads ?s = (sampler_start (sm_fifo ?t))\<lparr>sm_value := 0xFFFF\<rparr>" .
  moreover have "sm_fifo ?t = fold fifo_push ?xs f"
    using feed_words [OF assms(2), of ?s] assms(3) by (simp add: sampler_start_def air_marked)
  then have "fifo_contents (sm_fifo ?t) = ?xs"
    using fq.contents_push_all [of f ?xs] assms(4-6) by (simp add: fifo_empty_iff air_marked)
  ultimately show ?thesis by blast
qed

text \<open>
  The byte stream is decoded, however the port cuts it up. The words of a signal, up to 254 of
  them and none the resynchronisation word, and the word that ends it arrive in any number of reads;
  the queue then holds one long space and the durations of the words, pulses and spaces in turn, and
  the receiver stands where it stood before the signal.
\<close>

theorem irdroid_stream:
  assumes "concat reads = bytes_of_words (ws @ [0xFFFF])" and "list_all word16 ws" and "ws \<noteq> []" and "length ws \<le> 254"
    and "fifo_invar f" and "fifo_empty f"
  shows "\<exists>f'. receiveLoop reads (sampler_start f) = (sampler_start f')\<lparr>sm_value := 0xFFFF\<rparr> \<and>
    fifo_contents f' = PULSE_MASK # air (map usecs_of_ticks ws)"
  by (rule stream_decoded [OF assms])

theorem irdroid_stream_witness:
  "\<exists>f'. receiveLoop [[1], [165, 0], [210, 255], [255]] (sampler_start fifo_init) = (sampler_start f')\<lparr>sm_value := 0xFFFF\<rparr> \<and>
     fifo_contents f' = PULSE_MASK # air (map usecs_of_ticks [421, 210])"
  by (rule irdroid_stream) (simp_all add: bytes_of_words_def word16_def fifo_init_def fifo_invar_def fifo_empty_def)

text \<open>
  The resynchronisation drops the rest of its buffer. When a signal ends and the next one begins in
  the same read, the bytes of the next one up to the end of that read are lost.
\<close>

theorem resync_drops_buffer:
  "receiveLoop ([0xFF # 0xFF # rest] @ reads) (sampler_start f) = receiveLoop ([[0xFF, 0xFF]] @ reads) (sampler_start f)"
proof -
  have "sm_highByte (sampler_start f)" by (simp add: sampler_start_def)
  note sync = feed_after_sync [OF this]
  show ?thesis
    unfolding receiveLoop_def append.simps list.simps fold.simps comp_apply sync ..
qed

subsection \<open>Packets\<close>

lemma length_bytes_of_words [simp]: "length (bytes_of_words ws) = 2 * length ws"
  by (induction ws) (simp_all add: bytes_of_words_def)

lemma write_packets_done [simp]: "len \<le> i \<Longrightarrow> write_packets i len bytes replies = Some ([], replies)"
  by (cases replies) simp_all

lemma write_packets_all:
  assumes "\<forall>r\<in>set replies. even r" and "replies \<noteq> []" and "i + (\<Sum>r\<leftarrow>butlast replies. r div 2) < len"
    and "len \<le> i + (\<Sum>r\<leftarrow>replies. r div 2)" and "length bytes = 2 * len"
  shows "\<exists>packets. write_packets i len bytes (replies @ later) = Some (packets, later) \<and>
    concat packets = drop (2 * i) bytes \<and> list_all2 (\<lambda>p r. length p \<le> r) packets replies"
  using assms
proof (induction replies arbitrary: i)
  case Nil
  then show ?case by simp
next
  case (Cons r rs)
  show ?case
  proof (cases "rs = []")
    case True
    let ?n = "if len - i < r div 2 then (len - i) * 2 else r"
    have i: "i < len" "len - i \<le> r div 2" using Cons.prems True by simp_all
    then have n: "?n = 2 * (len - i)" "?n div 2 = len - i" "?n \<le> r"
      using Cons.prems(1) by auto
    then have "take ?n (drop (2 * i) bytes) = drop (2 * i) bytes"
      using Cons.prems(5) by simp
    with i n True show ?thesis by (simp add: Let_def)
  next
    case False
    then have b: "butlast (r # rs) = r # butlast rs" by simp
    have i: "i < len" "\<not> len - i < r div 2" using Cons.prems(3) b by simp_all
    have e: "2 * (r div 2) = r" using Cons.prems(1) by simp
    obtain packets where p: "write_packets (i + r div 2) len bytes (rs @ later) = Some (packets, later)"
      "concat packets = drop (2 * (i + r div 2)) bytes" "list_all2 (\<lambda>p r. length p \<le> r) packets rs"
      using Cons.IH [of "i + r div 2"] Cons.prems b False by auto
    moreover have "take r (drop (2 * i) bytes) @ drop (2 * (i + r div 2)) bytes = drop (2 * i) bytes"
      using e by (metis add.commute append_take_drop_id distrib_left drop_drop)
    ultimately show ?thesis using i by (simp add: Let_def)
  qed
qed

text \<open>
  C26: a signal reaches the device whole. If the device asks for even numbers of bytes and the last of its
  requests is the one that covers the signal, \<open>send\<close> returns; after the carrier and the command to
  transmit it has written the words of the signal, every byte once and in order, and no packet is
  larger than the device asked for. The result is what the device reports.
\<close>

theorem irdroid_send_complete:
  assumes "init_send repeats s = Some (True, s')" and "words = signal_words (take (nat (sb_wptr s')) (sb_data s'))"
    and "\<forall>r\<in>set replies. even r" and "replies \<noteq> []" and "(\<Sum>r\<leftarrow>butlast replies. r div 2) < length words"
    and "length words \<le> (\<Sum>r\<leftarrow>replies. r div 2)"
  shows "\<exists>packets. irdroid_send repeats (replies @ [count, outcome]) s =
      Some (outcome = of_char (CHR ''C''), irdroid_carrier (tx_remote s') @ [[0x03]] @ packets, s') \<and>
    concat packets = bytes_of_words words \<and> list_all2 (\<lambda>p r. length p \<le> r) packets replies"
proof -
  obtain packets where p: "write_packets 0 (length words) (bytes_of_words words) (replies @ [count, outcome]) =
      Some (packets, [count, outcome])"
    "concat packets = bytes_of_words words" "list_all2 (\<lambda>p r. length p \<le> r) packets replies"
    using write_packets_all [of replies 0 "length words" "bytes_of_words words" "[count, outcome]"] assms(3-6) by auto
  then show ?thesis
    using assms(1,2) by (simp add: irdroid_send_def Let_def)
qed

theorem irdroid_send_complete_witness:
  "\<exists>s' packets. irdroid_send 0 ([62] @ [56, 67]) sample_tx =
      Some (True, irdroid_carrier (tx_remote s') @ [[0x03]] @ packets, s') \<and>
    concat packets = bytes_of_words (signal_words key_1_wire) \<and> list_all2 (\<lambda>p r. length p \<le> r) packets [62]"
proof -
  have t: "tx_remote sample_tx = nec_remote" "tx_code sample_tx = nec_codes ! 0" "length (sb_data sample_tx) = 2048"
    by (simp_all add: idle_tx_def)
  have min: "r_min_repeat nec_remote \<le> 0"
    by (simp add: nec_remote_def zero_remote_def)
  obtain s' where s': "init_send 0 sample_tx = Some (True, s')" "take (nat (sb_wptr s')) (sb_data s') = key_1_wire"
    using plain_send [of sample_tx] nec_sendable min t key_1_signal(1) by auto
  have n: "length (signal_words key_1_wire) = 28"
    by (simp add: signal_words_def)
  show ?thesis
    using irdroid_send_complete [OF s'(1) refl, of "[62]" 56 67] n s'(2) by auto
qed



end
