(* ===== verification/Dump.thy ===== *)
theory Dump
  imports Config
begin

text \<open>
  The printer of remotes, \<open>IRRecord/dump_config.cpp\<close>: the configuration file that \<open>irrecord\<close> writes.
  A function that prints is the text it prints. The date and the name of the hardware in the comment
  are arguments; \<^const>\<open>None\<close> is the null pointer that is followed for a remote without codes.
\<close>

definition eol :: string where
  "eol = [CHR 0x0A]"

text \<open>\<open>%s\<close> of a null pointer.\<close>

definition name_text :: "ir_remote \<Rightarrow> string" where
  "name_text rem = (case r_name rem of None \<Rightarrow> ''(null)'' | Some n \<Rightarrow> n)"

definition fprint_comment :: "string \<Rightarrow> string \<Rightarrow> ir_remote \<Rightarrow> string" where
  "fprint_comment hw_name date rem =
     ''#'' @ eol @
     ''# this config file was automatically generated'' @ eol @
     ''# using lirc-0.9.0('' @ hw_name @ '') on '' @ date @
     ''#'' @ eol @
     ''# contributed by '' @ eol @
     ''#'' @ eol @
     ''# brand:                       '' @ name_text rem @ eol @
     ''# model no. of remote control: '' @ eol @
     ''# devices being controlled by this remote:'' @ eol @
     ''#'' @ eol @ eol"

text \<open>The formats of a line: a word, a number, a duration, two durations, a code.\<close>

definition str_line :: "string \<Rightarrow> string \<Rightarrow> string" where
  "str_line key w = key @ w @ eol"

definition int_line :: "string \<Rightarrow> nat \<Rightarrow> int \<Rightarrow> string" where
  "int_line key w n = key @ pad_left w (dec_int n) @ eol"

definition time_line :: "string \<Rightarrow> nat \<Rightarrow> int \<Rightarrow> string" where
  "time_line key w p = key @ pad_left w (ulong p) @ eol"

definition pair_line :: "string \<Rightarrow> nat \<Rightarrow> lirc_t \<Rightarrow> lirc_t \<Rightarrow> string" where
  "pair_line key w p s = key @ pad_left w (ulong p) @ '' '' @ pad_left w (ulong s) @ eol"

definition code_line :: "string \<Rightarrow> ir_code \<Rightarrow> string" where
  "code_line key c = key @ ''0x'' @ hex_number 1 (unat c) @ eol"

text \<open>The names of the flags that are set; a bit is printed once.\<close>

fun flag_names :: "(string \<times> int) list \<Rightarrow> int \<Rightarrow> string list" where
  "flag_names [] flags = []"
| "flag_names ((nm, f) # rest) flags =
    (if flags AND f \<noteq> 0 then nm # flag_names rest (flags AND NOT f) else flag_names rest flags)"

fun bar_list :: "string list \<Rightarrow> string" where
  "bar_list [] = []"
| "bar_list (w # ws) = (if ws = [] then w else w @ ''|'' @ bar_list ws)"

definition fprint_flags :: "int \<Rightarrow> string" where
  "fprint_flags flags =
    (let names = flag_names all_flags flags
     in if names = [] then [] else str_line ''  flags '' (bar_list names))"

definition fprint_remote_gap :: "ir_remote \<Rightarrow> string" where
  "fprint_remote_gap rem =
    (if r_gap2 rem \<noteq> 0 then pair_line ''  gap          '' 0 (r_gap rem) (r_gap2 rem)
     else time_line ''  gap          '' 0 (r_gap rem))"

definition fprint_remote_head :: "ir_remote \<Rightarrow> string" where
  "fprint_remote_head rem =
     ''begin remote'' @ eol @ eol @
     str_line ''  name  '' (name_text rem) @
     (if \<not> is_raw rem then int_line ''  bits        '' 5 (r_bits rem) else []) @
     fprint_flags (r_flags rem) @
     int_line ''  eps         '' 5 (r_eps rem) @
     int_line ''  aeps        '' 5 (r_aeps rem) @ eol @
     (if \<not> is_raw rem then
        (if has_header rem then pair_line ''  header      '' 5 (r_phead rem) (r_shead rem) else []) @
        (if r_pthree rem \<noteq> 0 \<or> r_sthree rem \<noteq> 0 then pair_line ''  three       '' 5 (r_pthree rem) (r_sthree rem) else []) @
        (if r_ptwo rem \<noteq> 0 \<or> r_stwo rem \<noteq> 0 then pair_line ''  two         '' 5 (r_ptwo rem) (r_stwo rem) else []) @
        pair_line ''  one         '' 5 (r_pone rem) (r_sone rem) @
        pair_line ''  zero        '' 5 (r_pzero rem) (r_szero rem)
      else []) @
     (if r_ptrail rem \<noteq> 0 then time_line ''  ptrail      '' 5 (r_ptrail rem) else []) @
     (if \<not> is_raw rem then
        (if r_plead rem \<noteq> 0 then time_line ''  plead       '' 5 (r_plead rem) else []) @
        (if has_foot rem then pair_line ''  foot        '' 5 (r_pfoot rem) (r_sfoot rem) else [])
      else []) @
     (if has_repeat rem then pair_line ''  repeat      '' 5 (r_prepeat rem) (r_srepeat rem) else []) @
     (if \<not> is_raw rem then
        (if r_pre_data_bits rem > 0 then
           int_line ''  pre_data_bits   '' 0 (r_pre_data_bits rem) @ code_line ''  pre_data       '' (r_pre_data rem)
         else []) @
        (if r_post_data_bits rem > 0 then
           int_line ''  post_data_bits  '' 0 (r_post_data_bits rem) @ code_line ''  post_data      '' (r_post_data rem)
         else []) @
        (if r_pre_p rem \<noteq> 0 \<and> r_pre_s rem \<noteq> 0 then pair_line ''  pre         '' 5 (r_pre_p rem) (r_pre_s rem) else []) @
        (if r_post_p rem \<noteq> 0 \<and> r_post_s rem \<noteq> 0 then pair_line ''  post        '' 5 (r_post_p rem) (r_post_s rem) else [])
      else []) @
     fprint_remote_gap rem @
     (if has_repeat_gap rem then time_line ''  repeat_gap   '' 0 (r_repeat_gap rem) else []) @
     (if r_min_repeat rem > 0 then int_line ''  min_repeat      '' 0 (r_min_repeat rem) else []) @
     (if \<not> is_raw rem then
        (if u32 (r_min_code_repeat rem) > 0 then int_line ''  min_code_repeat '' 0 (i32 (r_min_code_repeat rem)) else []) @
        code_line ''  toggle_bit_mask '' (r_toggle_bit_mask rem) @
        (if has_toggle_mask rem then code_line ''  toggle_mask    '' (r_toggle_mask rem) else []) @
        (if r_rc6_mask rem \<noteq> 0 then code_line ''  rc6_mask    '' (r_rc6_mask rem) else []) @
        (if has_ignore_mask rem then code_line ''  ignore_mask '' (r_ignore_mask rem) else []) @
        (if is_serial rem then
           int_line ''  baud            '' 0 (i32 (r_baud rem)) @
           str_line ''  serial_mode     '' (dec_int (i32 (r_bits_in_byte rem)) @ ''N'' @ dec_int (u32 (r_stop_bits rem) div 2) @
             (if u32 (r_stop_bits rem) mod 2 \<noteq> 0 then ''.5'' else []))
         else [])
      else []) @
     (if r_freq rem \<noteq> 0 then time_line ''  frequency    '' 0 (r_freq rem) else []) @
     (if r_duty_cycle rem \<noteq> 0 then time_line ''  duty_cycle   '' 0 (r_duty_cycle rem) else []) @
     eol"

definition fprint_remote_foot :: string where
  "fprint_remote_foot = ''end remote'' @ eol"

definition fprint_remote_signal_head :: "ir_remote \<Rightarrow> string" where
  "fprint_remote_signal_head rem =
    (if \<not> is_raw rem then ''      begin codes'' @ eol else ''      begin raw_codes'' @ eol @ eol)"

definition fprint_remote_signal_foot :: "ir_remote \<Rightarrow> string" where
  "fprint_remote_signal_foot rem =
    (if \<not> is_raw rem then ''      end codes'' @ eol @ eol else ''      end raw_codes'' @ eol @ eol)"

text \<open>
  The durations of a raw button, six to a line; \<open>j\<close> counts the durations on the line. The further parts of a
  button are printed with \<open>%lX\<close>, which takes 32 bits.
\<close>

fun print_signals :: "nat \<Rightarrow> lirc_t list \<Rightarrow> string" where
  "print_signals j [] = (if j = 0 then eol else eol @ eol)"
| "print_signals j (x # xs) =
    (if j = 0 then ''          '' @ pad_left 7 (ulong x) @ print_signals 1 xs
     else if j < 5 then '' '' @ pad_left 7 (ulong x) @ print_signals (Suc j) xs
     else '' '' @ pad_left 7 (ulong x) @ eol @ print_signals 0 xs)"

definition fprint_remote_signal :: "ir_remote \<Rightarrow> ir_ncode \<Rightarrow> string option" where
  "fprint_remote_signal rem nc =
    (if \<not> is_raw rem then
       (let w = nat (quot (r_bits rem + 3) 4)
        in Some (''          '' @ pad_right 24 (n_name nc) @ '' 0x'' @ hex_number w (unat (n_code nc)) @
             concat (map (\<lambda>c. '' 0x'' @ hex_number w (unat c mod 2 ^ 32)) (n_next nc)) @ eol))
     else if n_length nc \<le> 0 then Some (''          name '' @ n_name nc @ eol @ print_signals 0 [])
     else map_option (\<lambda>sigs. ''          name '' @ n_name nc @ eol @ print_signals 0 (take (nat (n_length nc)) sigs))
       (n_signals nc))"

fun print_all :: "string option list \<Rightarrow> string option" where
  "print_all [] = Some []"
| "print_all (t # ts) = (case (t, print_all ts) of (Some x, Some xs) \<Rightarrow> Some (x @ xs) | _ \<Rightarrow> None)"

definition fprint_remote_signals :: "ir_remote \<Rightarrow> string option" where
  "fprint_remote_signals rem =
    (case r_codes rem of
       None \<Rightarrow> None
     | Some ncs \<Rightarrow> print_all ([Some (fprint_remote_signal_head rem)] @ map (fprint_remote_signal rem) ncs @
         [Some (fprint_remote_signal_foot rem)]))"

definition fprint_remote :: "string \<Rightarrow> string \<Rightarrow> ir_remote \<Rightarrow> string option" where
  "fprint_remote hw_name date rem =
     print_all [Some (fprint_comment hw_name date rem), Some (fprint_remote_head rem), fprint_remote_signals rem,
       Some fprint_remote_foot]"

definition fprint_remotes :: "string \<Rightarrow> string \<Rightarrow> ir_remote list \<Rightarrow> string option" where
  "fprint_remotes hw_name date all =
     print_all (concat (map (\<lambda>rem. [fprint_remote hw_name date rem, Some (eol @ eol)]) all))"

end
