(* ===== verification/IRRecord.thy ===== *)
theory IRRecord
  imports Dump
begin

text \<open>
  The last steps of \<open>irrecord\<close>, \<open>IRRecord/irrecord.cpp\<close>: looking for bits that toggle and moving the bits
  all buttons share from the codes into the pre and post data. What the plugin decodes is an input.
  \<^const>\<open>None\<close> is a null pointer that is followed.
\<close>

subsection \<open>Toggle bits\<close>

text \<open>The loop looks for the one bit \<open>xor\<close> consists of, from the highest bit of the code down.\<close>

definition single_bit :: "int \<Rightarrow> ir_code \<Rightarrow> bool" where
  "single_bit bits xor_mask \<longleftrightarrow> bits \<le> 64 \<and> list_ex (\<lambda>i. shl64 1 (int i) = xor_mask) (rev [0..<nat bits])"

definition set_toggle_bit_mask :: "ir_code \<Rightarrow> ir_remote \<Rightarrow> ir_remote" where
  "set_toggle_bit_mask xor_mask remote =
    (case r_codes remote of
       None \<Rightarrow> remote
     | Some ncs \<Rightarrow>
         if single_bit (bit_count remote) xor_mask then
           remote\<lparr>r_toggle_bit_mask := xor_mask,
             r_codes := Some (map (\<lambda>nc. nc\<lparr>n_code := n_code nc AND NOT xor_mask\<rparr>) ncs)\<rparr>
         else if bit_count remote = 15 \<and> xor_mask = 0x3FF then remote\<lparr>r_toggle_mask := xor_mask\<rparr>
         else remote\<lparr>r_toggle_bit_mask := xor_mask\<rparr>)"

text \<open>What \<open>decode_func\<close> reports for a remote: the code, whether it is a repeat, and the remaining gaps.\<close>

type_synonym decoding = "ir_remote \<Rightarrow> (ir_code \<times> bool \<times> lirc_t \<times> lirc_t) option"

definition set_gaps :: "lirc_t \<Rightarrow> lirc_t \<Rightarrow> ir_remote \<Rightarrow> ir_remote" where
  "set_gaps g1 g2 remote = remote\<lparr>r_min_remaining_gap := g1, r_max_remaining_gap := g2\<rparr>"

text \<open>For a remote that is RC-6 by its flag every bit is tried as the long one.\<close>

fun try_rc6_masks :: "decoding \<Rightarrow> ir_remote \<Rightarrow> nat list \<Rightarrow> (ir_remote \<times> (ir_code \<times> bool) option)" where
  "try_rc6_masks decode remote [] = (remote\<lparr>r_rc6_mask := 0\<rparr>, None)"
| "try_rc6_masks decode remote (i # is) =
    (let rem = remote\<lparr>r_rc6_mask := shl64 1 (int i)\<rparr>
     in case decode rem of
          None \<Rightarrow> try_rc6_masks decode rem is
        | Some (code, rep, g1, g2) \<Rightarrow> (set_gaps g1 g2 rem, Some (code, rep)))"

definition decode_press :: "decoding \<Rightarrow> ir_remote \<Rightarrow> ir_remote \<times> (ir_code \<times> bool) option" where
  "decode_press decode remote =
    (if is_rc6 remote \<and> r_rc6_mask remote = 0 then try_rc6_masks decode remote [0..<nat (r_bits remote)]
     else (case decode remote of
         None \<Rightarrow> (remote, None)
       | Some (code, rep, g1, g2) \<Rightarrow> (set_gaps g1 g2 remote, Some (code, rep))))"

record toggle_search =
  ts_remote :: ir_remote
  ts_retries :: nat
  ts_flag :: bool
  ts_first :: ir_code
  ts_last :: ir_code
  ts_seq :: int
  ts_repeats :: int
  ts_found :: bool

definition toggle_press :: "decoding \<Rightarrow> toggle_search \<Rightarrow> toggle_search" where
  "toggle_press decode t =
    (let (rem, res) = decode_press decode (ts_remote t); t = t\<lparr>ts_remote := rem\<rparr>
     in case res of
          None \<Rightarrow> t\<lparr>ts_retries := ts_retries t - 1\<rparr>
        | Some (code, rep) \<Rightarrow>
            (if \<not> ts_flag t then t\<lparr>ts_flag := True, ts_first := code\<rparr>
             else if \<not> rep \<or> code \<noteq> ts_last t then
               (let t = t\<lparr>ts_seq := ts_seq t + 1, ts_retries := ts_retries t - 1\<rparr>
                in if \<not> ts_found t \<and> ts_first t XOR code \<noteq> 0
                   then t\<lparr>ts_remote := set_toggle_bit_mask (ts_first t XOR code) (ts_remote t), ts_found := True\<rparr>
                   else t)
             else t\<lparr>ts_repeats := ts_repeats t + 1\<rparr>)\<lparr>ts_last := code\<rparr>)"

text \<open>The presses of the button that arrive before ten seconds without data.\<close>

fun toggle_loop :: "decoding list \<Rightarrow> toggle_search \<Rightarrow> toggle_search" where
  "toggle_loop [] t = t"
| "toggle_loop (p # ps) t = (if ts_retries t = 0 then t else toggle_loop ps (toggle_press p t))"

definition get_toggle_bit_mask :: "decoding list \<Rightarrow> ir_remote \<Rightarrow> bool \<times> ir_remote" where
  "get_toggle_bit_mask presses remote =
    (if list_ex (\<lambda>nc. n_next nc \<noteq> []) (case r_codes remote of None \<Rightarrow> [] | Some ncs \<Rightarrow> ncs) then (True, remote)
     else
       (let t = toggle_loop presses \<lparr>ts_remote = remote, ts_retries = 30, ts_flag = False, ts_first = 0, ts_last = 0,
              ts_seq = 0, ts_repeats = 0, ts_found = False\<rparr>;
            rem = ts_remote t
        in (ts_found t, if ts_seq t > 0 then rem\<lparr>r_min_repeat := quot (ts_repeats t) (ts_seq t)\<rparr> else rem)))"

subsection \<open>Bits that all buttons share\<close>

text \<open>
  The bits in which each code agrees with the one before it, and the last code. The further codes of the
  first button are not looked at.
\<close>

definition agree_step :: "ir_code \<Rightarrow> ir_code \<times> ir_code \<Rightarrow> ir_code \<times> ir_code" where
  "agree_step c = (\<lambda>(agree, last_code). (agree AND NOT (last_code XOR c), c))"

definition agreement :: "ir_ncode list \<Rightarrow> ir_code \<times> ir_code" where
  "agreement ncs = fold agree_step (concat (map (\<lambda>nc. n_code nc # n_next nc) (tl ncs))) (- 1, n_code (hd ncs))"

definition leading_ones :: "ir_code \<Rightarrow> int" where
  "leading_ones m = int (length (takeWhile (bit m) (rev [0..<64])))"

definition trailing_ones :: "ir_code \<Rightarrow> int" where
  "trailing_ones m = int (length (takeWhile (bit m) [0..<64]))"

text \<open>
  Only even numbers of bits go to the pre or post data, unless the rest is even. The mask of that many
  ones is built by the loop of \<^const>\<open>gen_mask\<close>.
\<close>

definition even_count :: "int \<Rightarrow> int \<Rightarrow> int" where
  "even_count bits count = (if rmd count 8 \<noteq> 0 \<and> rmd (bits - count) 8 \<noteq> 0 then count - rmd count 8 else count)"

definition map_codes :: "(ir_code \<Rightarrow> ir_code) \<Rightarrow> ir_ncode \<Rightarrow> ir_ncode" where
  "map_codes f nc = nc\<lparr>n_code := f (n_code nc), n_next := map f (n_next nc)\<rparr>"

definition get_pre_data :: "ir_remote \<Rightarrow> ir_remote option" where
  "get_pre_data remote =
    (if r_bits remote = 0 then Some remote
     else (case r_codes remote of
         None \<Rightarrow> None
       | Some ncs \<Rightarrow>
           if length ncs < 2 then Some remote
           else
             (let (agree, last_code) = agreement ncs;
                  count = even_count (r_bits remote) (leading_ones agree - (64 - r_bits remote))
              in if count > 0 then
                   (let bits = r_bits remote - count; field = shl64 (gen_mask count) bits
                    in Some (remote\<lparr>r_bits := bits, r_pre_data_bits := count,
                         r_pre_data := shr64 (last_code AND field) bits,
                         r_codes := Some (map (map_codes (\<lambda>c. c AND NOT field)) ncs)\<rparr>))
                 else Some remote)))"

definition get_post_data :: "ir_remote \<Rightarrow> ir_remote option" where
  "get_post_data remote =
    (if r_bits remote = 0 then Some remote
     else (case r_codes remote of
         None \<Rightarrow> None
       | Some ncs \<Rightarrow>
           if length ncs < 2 then Some remote
           else
             (let (agree, last_code) = agreement ncs;
                  count = even_count (r_bits remote) (trailing_ones agree)
              in if count > 0 then
                   Some (remote\<lparr>r_bits := r_bits remote - count, r_post_data_bits := count,
                     r_post_data := last_code AND gen_mask count,
                     r_codes := Some (map (map_codes (\<lambda>c. shr64 c count)) ncs)\<rparr>)
                 else Some remote)))"

subsection \<open>The final file\<close>

definition fprint_copyright :: string where
  "fprint_copyright = eol @ ''# Please make this file available to others'' @ eol @
     ''# by sending it to <winlirc.configs@gmail.com>'' @ eol"

text \<open>
  The end of \<open>main\<close>: the remotes that \<open>read_config\<close> found in the first file, the toggle bits of the first
  one looked for with the given presses (none with a template or the \<open>devinput\<close> hardware), its shared bits
  moved, and everything printed. Only the first remote of the file is worked on.
\<close>

definition find_toggle_bits :: "decoding list option \<Rightarrow> ir_remote \<Rightarrow> ir_remote" where
  "find_toggle_bits presses rem =
    (if has_toggle_bit_mask rem then set_toggle_bit_mask (r_toggle_bit_mask rem) rem
     else (case presses of None \<Rightarrow> rem | Some ps \<Rightarrow> snd (get_toggle_bit_mask ps rem)))"

definition final_config :: "string \<Rightarrow> string \<Rightarrow> decoding list option \<Rightarrow> ir_remote list \<Rightarrow> string option" where
  "final_config hw_name date presses remotes =
    (case remotes of
       [] \<Rightarrow> None
     | rem # rest \<Rightarrow>
         (case get_pre_data (find_toggle_bits presses rem) of
            None \<Rightarrow> None
          | Some rem1 \<Rightarrow>
              (case get_post_data rem1 of
                 None \<Rightarrow> None
               | Some rem2 \<Rightarrow> map_option (\<lambda>txt. fprint_copyright @ txt) (fprint_remotes hw_name date (rem2 # rest)))))"

end
