(* ===== verification/DumpRead.thy ===== *)
theory DumpRead
  imports Dump ConfigLaws
begin

text \<open>
  Reading what was printed, step by step: the words of a line, numbers, and the lines of a file, each as
  a text that takes the parser from one state to another whatever follows.
\<close>

subsection \<open>Words of a line\<close>

definition plain_char :: "char \<Rightarrow> bool" where
  "plain_char c \<longleftrightarrow> \<not> is_blank c \<and> c \<noteq> CHR 0x0A \<and> c \<noteq> CHR 0x0D"

definition plain_word :: "string \<Rightarrow> bool" where
  "plain_word w \<longleftrightarrow> w \<noteq> [] \<and> list_all plain_char w"

lemma words_plain [simp]:
  "plain_word w \<Longrightarrow> words is_blank w = [w]"
  "plain_word w \<Longrightarrow> is_blank b \<Longrightarrow> words is_blank (w @ b # rest) = w # words is_blank rest"
  using words_word [of w is_blank "[]"] words_word [of w is_blank "b # rest"]
  by (auto simp: plain_word_def plain_char_def list_all_iff)

lemma words_blanks [simp]: "words is_blank (replicate n (CHR '' '') @ s) = words is_blank s"
  by (induction n) (simp_all add: is_blank_def)

lemma words_pad_left [simp]: "words is_blank (pad_left w s @ r) = words is_blank (s @ r)"
  by (simp add: pad_left_def)

lemma words_pad_left_end [simp]: "words is_blank (pad_left w s) = words is_blank s"
  by (simp add: pad_left_def)

lemma words_pad_right [simp]:
  assumes "plain_word s" and "is_blank b"
  shows "words is_blank (pad_right w s @ b # r) = s # words is_blank r"
proof (cases "w - length s")
  case 0
  with assms show ?thesis by (simp add: pad_right_def)
next
  case (Suc n)
  have b: "is_blank (CHR '' '')" by (simp add: is_blank_def)
  have "pad_right w s @ b # r = s @ CHR '' '' # replicate n (CHR '' '') @ b # r"
    using Suc by (simp add: pad_right_def)
  with b assms show ?thesis by simp
qed

lemma plain_digit [simp]: "d < 10 \<Longrightarrow> plain_char (char_of (48 + d :: nat))"
  by (auto simp: plain_char_def is_blank_def dest: arg_cong [where f = "of_char :: char \<Rightarrow> nat"])

lemma plain_dec [simp]: "plain_word (dec_digits n)"
proof -
  have "plain_char c" if "c \<in> set (dec_digits n)" for c
    using dec_digits_are_digits [OF that] plain_digit by blast
  then show ?thesis by (simp add: plain_word_def list_all_iff)
qed

lemma plain_dec_int [simp]: "plain_word (dec_int n)"
  using plain_dec [of "nat (- n)"] plain_dec [of "nat n"]
  by (auto simp: dec_int_def plain_word_def plain_char_def is_blank_def)

lemma plain_ulong [simp]: "plain_word (ulong n)"
  by (simp add: ulong_def)

lemma hex_len_pos: "0 < hex_len n"
  by (subst hex_len.simps) simp

lemma hex_len_enough: "n < 16 ^ hex_len n"
proof (induction n rule: hex_len.induct)
  case (1 n)
  then show ?case
    by (subst hex_len.simps) auto
qed

lemma upper_hex_digit: "d < 16 \<Longrightarrow> plain_char (upper_hex (hex_digit d)) \<and> convert (upper_hex (hex_digit d)) = Some d"
  by (auto simp: upper_hex_def hex_digit_def plain_char_def is_blank_def convert_def
      dest: arg_cong [where f = "of_char :: char \<Rightarrow> nat"])

lemma plain_hex_number [simp]: "list_all plain_char (hex_number w v)" "hex_number w v \<noteq> []"
  using hex_digits_are_digits [of _ "max w (hex_len v)" v] upper_hex_digit hex_len_pos [of v]
  by (auto simp: hex_number_def list_all_iff simp flip: length_greater_0_conv)

lemma plain_code [simp]: "plain_word (''0x'' @ hex_number w v)" "plain_word (CHR ''0'' # CHR ''x'' # hex_number w v)"
  by (simp_all add: plain_word_def plain_char_def is_blank_def)

subsection \<open>Numbers\<close>

lemma strtouq_upper_digits:
  "strtouq_digits (map upper_hex (hex_digits n v)) 16 res = (res * 16 ^ n + of_nat (v mod 16 ^ n), [])"
proof -
  have "strtouq_digits (map upper_hex (hex_digits n v) @ cs) 16 res =
      strtouq_digits cs 16 (res * 16 ^ n + of_nat (v mod 16 ^ n))" for cs
  proof (induction n arbitrary: v cs)
    case 0
    show ?case by simp
  next
    case (Suc n)
    have "strtouq_digits (map upper_hex (hex_digits (Suc n) v) @ cs) 16 res =
        strtouq_digits cs 16 ((res * 16 ^ n + of_nat (v div 16 mod 16 ^ n)) * 16 + of_nat (v mod 16))"
      using upper_hex_digit [of "v mod 16"] by (simp add: Suc.IH)
    also have "(res * 16 ^ n + of_nat (v div 16 mod 16 ^ n)) * 16 + of_nat (v mod 16) =
        res * 16 ^ Suc n + (of_nat (v div 16 mod 16 ^ n * 16 + v mod 16) :: ir_code)"
      by (simp add: algebra_simps)
    also have "v div 16 mod 16 ^ n * 16 + v mod 16 = v mod 16 ^ Suc n"
      using mod_mult2_eq [of v 16 "16 ^ n"] by simp
    finally show ?case .
  qed
  from this [of "[]"] show ?thesis by simp
qed

lemma read_hex [simp]: "run_state (s_strtocode (CHR ''0'' # CHR ''x'' # hex_number w v)) s = (of_nat v, s)"
proof -
  let ?n = "max w (hex_len v)"
  have "v < 16 ^ ?n"
    using hex_len_enough [of v] by (rule less_le_trans) (simp add: power_increasing)
  then have "strtouq_digits (hex_number w v) 16 0 = (of_nat v, [])"
    using strtouq_upper_digits [of ?n v 0] by (simp add: hex_number_def)
  then show ?thesis
    by (simp add: s_strtocode_def strtouq_def is_blank_def)
qed

lemma strto_core_digits: "strto_core (dec_digits n) = ((False, int n), [])"
  using strto_core_dec [of "[]" n] by simp

lemma u32_bounds: "0 \<le> u32 t" "u32 t < 2 ^ 32"
  using take_bit_int_less_exp [of 32 t] by (simp_all add: u32_def)

lemma strtoul_ulong: "strtoul (ulong t) = (u32 t, [])"
  using u32_bounds [of t] by (simp add: strtoul_def ulong_def strto_core_digits)

lemma i32_u32: "in32 t \<Longrightarrow> i32 (u32 t) = t"
  by (simp add: i32_def u32_def in32_def signed_take_bit_take_bit signed_take_bit_int_eq_self)

lemma ulong_nonempty: "ulong t \<noteq> []"
  by (simp add: ulong_def)

lemma read_lirc_t [simp]: "in32 t \<Longrightarrow> run_state (s_strtolirc_t (ulong t)) s = (t, s)"
  by (simp add: s_strtolirc_t_def strtoul_ulong ulong_nonempty i32_u32)

lemma read_ulong [simp]:
  "run_state (s_strtoul (ulong t)) s = (u32 t, s)" "run_state (s_strtoui (ulong t)) s = (u32 t, s)"
  by (simp_all add: s_strtoul_def s_strtoui_def strtoul_ulong ulong_nonempty)

lemma read_int [simp]: "0 \<le> n \<Longrightarrow> n < 2 ^ 31 \<Longrightarrow> run_state (s_strtoi (dec_int n)) s = (n, s)"
  by (simp add: s_strtoi_def strtol_def dec_int_def strto_core_digits)

subsection \<open>Lines of a file\<close>

definition short_line :: "string \<Rightarrow> bool" where
  "short_line l \<longleftrightarrow> CHR 0x0A \<notin> set l \<and> length l \<le> 1022"

lemma fgets_line: "CHR 0x0A \<notin> set l \<Longrightarrow> length l < n \<Longrightarrow> fgets n (l @ CHR 0x0A # rest) = (l @ [CHR 0x0A], rest)"
proof (induction l arbitrary: n)
  case Nil
  then show ?case by (cases n) auto
next
  case (Cons c l)
  then show ?case by (cases n) auto
qed

lemma buffers_line: "short_line l \<Longrightarrow> buffers (l @ eol @ rest) = (l @ eol) # buffers rest"
  using fgets_line [of l 1023 rest] by (subst buffers.simps) (simp add: short_line_def eol_def del: buffers.simps)

lemma chomp_line: "l = [] \<or> last l \<noteq> CHR 0x0D \<Longrightarrow> chomp (l @ eol) = l"
  by (auto simp: chomp_def eol_def nth_append last_conv_nth)

abbreviation read_text :: "(string \<Rightarrow> (bool \<times> bool \<times> ir_remote list) option) \<Rightarrow> bool \<Rightarrow> string option \<Rightarrow> string \<Rightarrow> cfg \<Rightarrow> cfg" where
  "read_text inc deep name txt s \<equiv> exec (config_lines inc deep name (buffers txt)) s"

definition fine :: "cfg \<Rightarrow> bool" where
  "fine s \<longleftrightarrow> \<not> cf_error s \<and> \<not> cf_ub s"

text \<open>\<open>consumed txt s t\<close>: reading the text takes state \<open>s\<close> to state \<open>t\<close>, whatever follows.\<close>

definition consumed :: "string \<Rightarrow> cfg \<Rightarrow> cfg \<Rightarrow> bool" where
  "consumed txt s t \<longleftrightarrow> fine t \<and> (\<forall>inc deep name rest. read_text inc deep name (txt @ rest) s = read_text inc deep name rest t)"

lemma consumed_nothing: "fine s \<Longrightarrow> consumed [] s s"
  by (simp add: consumed_def)

lemma consumed_append: "consumed xs s t \<Longrightarrow> consumed ys t u \<Longrightarrow> consumed (xs @ ys) s u"
  by (simp add: consumed_def del: buffers.simps)

lemma consumed_line:
  assumes "short_line l" and "\<And>inc deep name. exec (config_line inc deep name (l @ eol)) s = t" and "fine t"
  shows "consumed (l @ eol) s t"
  using assms(2,3) buffers_line [OF assms(1)] config_lines_step
  by (simp add: consumed_def fine_def del: buffers.simps config_lines.simps)

lemma consumed_all:
  assumes "\<And>i. i < length ts \<Longrightarrow> consumed (ts ! i) (f i) (f (Suc i))" and "fine (f 0)"
  shows "consumed (concat ts) (f 0) (f (length ts))"
  using assms
proof (induction ts rule: rev_induct)
  case Nil
  then show ?case by (simp add: consumed_nothing)
next
  case (snoc t ts)
  have "consumed (concat ts) (f 0) (f (length ts))"
  proof (rule snoc.IH)
    fix i
    assume "i < length ts"
    then show "consumed (ts ! i) (f i) (f (Suc i))"
      using snoc.prems(1) [of i] by (simp add: nth_append)
  qed (rule snoc.prems(2))
  moreover have "consumed t (f (length ts)) (f (Suc (length ts)))"
    using snoc.prems(1) [of "length ts"] by simp
  ultimately show ?case by (simp add: consumed_append)
qed

text \<open>Lines without effect: comments and empty lines.\<close>

lemma consumed_comment:
  assumes "short_line l" and "take 1 l = ''#''" and "last l \<noteq> CHR 0x0D" and "fine s"
  shows "consumed (l @ eol) s s"
proof (rule consumed_line [OF assms(1) _ assms(4)])
  fix inc deep name
  have "l \<noteq> []" using assms(2) by auto
  then show "exec (config_line inc deep name (l @ eol)) s = s"
    using chomp_line [of l] assms(2,3) by (simp add: config_line_def)
qed

lemma consumed_empty: "fine s \<Longrightarrow> consumed eol s s"
  using consumed_line [of "[]" s s] chomp_line [of "[]"]
  by (simp add: short_line_def config_line_def tokens_def)

lemma consumed_words:
  assumes "short_line l" and "take 1 l \<noteq> ''#''" and "last l \<noteq> CHR 0x0D" and "tokens l = key # v # vs"
    and "\<not> strcasecmp ''include'' key"
    and "(if strcasecmp ''begin'' key then exec (begin_line key v vs) s
      else if strcasecmp ''end'' key then exec (end_line key v vs) s
      else case cf_mode s of
          ID_none \<Rightarrow> s
        | ID_remote \<Rightarrow> exec (defineRemote key v (case vs of [] \<Rightarrow> None | v # _ \<Rightarrow> Some v)) s
        | ID_codes \<Rightarrow> exec (add_button key v vs) s
        | _ \<Rightarrow> exec (raw_line key v vs) s) = t" and "fine t"
  shows "consumed (l @ eol) s t"
proof (rule consumed_line [OF assms(1) _ assms(7)])
  fix inc deep name
  show "exec (config_line inc deep name (l @ eol)) s = t"
    using chomp_line [of l] assms(2-6)
    by (cases "strcasecmp ''begin'' key"; cases "strcasecmp ''end'' key"; cases "cf_mode s")
      (simp_all add: config_line_def run_bind del: run_state_bind)
qed

end
