(* ===== verification/DumpLines.thy ===== *)
theory DumpLines
  imports DumpRead
begin

text \<open>
  The lines of a remote: every format of the printer, read by \<open>defineRemote\<close>, writes the field it was
  printed from.
\<close>

subsection \<open>The lines of a remote\<close>

definition with_rem :: "ir_remote \<Rightarrow> cfg \<Rightarrow> cfg" where
  "with_rem r s = s\<lparr>cf_remotes := (cf_remotes s)[cf_rem s := r]\<rparr>"

definition in_remote :: "cfg \<Rightarrow> ir_remote \<Rightarrow> bool" where
  "in_remote s r \<longleftrightarrow> fine s \<and> cf_mode s = ID_remote \<and> cf_rem s < length (cf_remotes s) \<and> cf_remotes s ! cf_rem s = r"

text \<open>\<open>reads txt r r'\<close>: inside a remote that is \<open>r\<close> so far, the text makes it \<open>r'\<close>.\<close>

definition reads :: "string \<Rightarrow> ir_remote \<Rightarrow> ir_remote \<Rightarrow> bool" where
  "reads txt r r' \<longleftrightarrow> (\<forall>s. in_remote s r \<longrightarrow> consumed txt s (with_rem r' s))"

lemma in_remote_with [simp]: "in_remote s r \<Longrightarrow> in_remote (with_rem r' s) r'"
  by (simp add: in_remote_def with_rem_def fine_def)

lemma with_rem_same: "in_remote s r \<Longrightarrow> with_rem r s = s"
  by (auto simp: in_remote_def with_rem_def)

lemma with_rem_twice [simp]: "with_rem r (with_rem r' s) = with_rem r s"
  by (simp add: with_rem_def)

lemma reads_append: "reads xs r r' \<Longrightarrow> reads ys r' r'' \<Longrightarrow> reads (xs @ ys) r r''"
  unfolding reads_def using consumed_append in_remote_with with_rem_twice by metis

lemma reads_nothing: "reads [] r r"
  using with_rem_same by (auto simp: reads_def in_remote_def intro!: consumed_nothing)

lemma reads_cond: "(c \<Longrightarrow> reads xs r r') \<Longrightarrow> (\<not> c \<Longrightarrow> r' = r) \<Longrightarrow> reads (if c then xs else []) r r'"
  using reads_nothing by auto

lemma reads_empty: "reads eol r r"
  using with_rem_same consumed_empty by (auto simp: reads_def in_remote_def)

text \<open>How a line begins: its key, with blanks around it.\<close>

definition opens :: "string \<Rightarrow> string \<Rightarrow> bool" where
  "opens p key \<longleftrightarrow> (\<forall>rest. words is_blank (p @ rest) = key # words is_blank rest) \<and> CHR 0x0A \<notin> set p \<and>
     length p \<le> 50 \<and> take 1 p = '' '' \<and> \<not> strcasecmp ''include'' key \<and> \<not> strcasecmp ''begin'' key \<and> \<not> strcasecmp ''end'' key"

definition brief :: "nat \<Rightarrow> string \<Rightarrow> bool" where
  "brief n w \<longleftrightarrow> plain_word w \<and> length w \<le> n"

lemma plain_last: "plain_word w \<Longrightarrow> last w \<noteq> CHR 0x0D"
  by (metis last_in_set list_all_iff plain_char_def plain_word_def)

lemma plain_no_eol: "plain_word w \<Longrightarrow> CHR 0x0A \<notin> set w"
  by (auto simp: plain_word_def plain_char_def list_all_iff)

lemma pad_left_zero [simp]: "pad_left 0 w = w"
  by (simp add: pad_left_def)

lemma padded_plain:
  "plain_word w \<Longrightarrow> CHR 0x0A \<notin> set (pad_left n w) \<and> pad_left n w \<noteq> [] \<and> last (pad_left n w) \<noteq> CHR 0x0D \<and>
   length (pad_left n w) \<le> n + length w"
  using plain_last [of w] plain_no_eol [of w] by (auto simp: pad_left_def plain_word_def)

lemma reads_line:
  assumes "opens p key" and "CHR 0x0A \<notin> set l" and "length l \<le> 970" and "l \<noteq> []" and "last l \<noteq> CHR 0x0D"
    and "words is_blank l = v # vs"
    and "\<And>s. in_remote s r \<Longrightarrow> exec (defineRemote key v (case vs of [] \<Rightarrow> None | w # _ \<Rightarrow> Some w)) s = with_rem r' s"
  shows "reads (p @ l @ eol) r r'"
  unfolding reads_def
proof (intro allI impI)
  fix s
  assume s: "in_remote s r"
  have p: "words is_blank (p @ l) = key # words is_blank l" "CHR 0x0A \<notin> set p" "length p \<le> 50" "take 1 p = '' ''"
    "\<not> strcasecmp ''include'' key" "\<not> strcasecmp ''begin'' key" "\<not> strcasecmp ''end'' key"
    using assms(1) by (simp_all add: opens_def)
  have "consumed ((p @ l) @ eol) s (with_rem r' s)"
  proof (rule consumed_words)
    show "short_line (p @ l)" "last (p @ l) \<noteq> CHR 0x0D"
      using p assms(2-5) by (simp_all add: short_line_def)
    show "take 1 (p @ l) \<noteq> ''#''"
      using p(4) by (cases p) auto
    show "tokens (p @ l) = key # v # vs"
      using p(1) assms(6) by (simp add: tokens_def)
    show "fine (with_rem r' s)"
      using in_remote_with [OF s] by (simp add: in_remote_def)
  qed (use p assms(7) [OF s] s in \<open>simp_all add: in_remote_def\<close>)
  then show "consumed (p @ l @ eol) s (with_rem r' s)" by simp
qed

lemma reads_word:
  assumes "opens p key" and "brief 900 w" and "\<And>s. in_remote s r \<Longrightarrow> exec (defineRemote key w None) s = with_rem r' s" and "n \<le> 50"
  shows "reads (p @ pad_left n w @ eol) r r'"
  using assms padded_plain [of w n]
  by (intro reads_line [where v = w and vs = "[]"]) (auto simp: brief_def)

lemma reads_pair:
  assumes "opens p key" and "brief 400 w" and "brief 400 v" and "n \<le> 50"
    and "\<And>s. in_remote s r \<Longrightarrow> exec (defineRemote key w (Some v)) s = with_rem r' s"
  shows "reads (p @ pad_left n w @ '' '' @ pad_left n v @ eol) r r'"
proof -
  have "is_blank (CHR '' '')" by (simp add: is_blank_def)
  with assms padded_plain [of w n] padded_plain [of v n] show ?thesis
    using reads_line [where l = "pad_left n w @ '' '' @ pad_left n v" and v = w and vs = "[v]" and p = p]
    by (auto simp: brief_def)
qed

text \<open>The keys the printer uses.\<close>

lemma opens_keys:
  "opens ''  name  '' ''name''"
  "opens ''  bits        '' ''bits''"
  "opens ''  flags '' ''flags''"
  "opens ''  eps         '' ''eps''"
  "opens ''  aeps        '' ''aeps''"
  "opens ''  header      '' ''header''"
  "opens ''  three       '' ''three''"
  "opens ''  two         '' ''two''"
  "opens ''  one         '' ''one''"
  "opens ''  zero        '' ''zero''"
  "opens ''  ptrail      '' ''ptrail''"
  "opens ''  plead       '' ''plead''"
  "opens ''  foot        '' ''foot''"
  "opens ''  repeat      '' ''repeat''"
  "opens ''  pre_data_bits   '' ''pre_data_bits''"
  "opens ''  pre_data       '' ''pre_data''"
  "opens ''  post_data_bits  '' ''post_data_bits''"
  "opens ''  post_data      '' ''post_data''"
  "opens ''  pre         '' ''pre''"
  "opens ''  post        '' ''post''"
  "opens ''  gap          '' ''gap''"
  "opens ''  repeat_gap   '' ''repeat_gap''"
  "opens ''  min_repeat      '' ''min_repeat''"
  "opens ''  min_code_repeat '' ''min_code_repeat''"
  "opens ''  toggle_bit_mask '' ''toggle_bit_mask''"
  "opens ''  toggle_mask    '' ''toggle_mask''"
  "opens ''  rc6_mask    '' ''rc6_mask''"
  "opens ''  ignore_mask '' ''ignore_mask''"
  "opens ''  frequency    '' ''frequency''"
  "opens ''  duty_cycle   '' ''duty_cycle''"
  by (simp_all add: opens_def is_blank_def strcasecmp_def tolower_def)

lemma key_fields:
  "defineRemote ''bits'' v v2 = set_int (\<lambda>n rem. rem\<lparr>r_bits := n\<rparr>) (s_strtoi v)"
  "defineRemote ''eps'' v v2 = set_int (\<lambda>n rem. rem\<lparr>r_eps := n\<rparr>) (s_strtoi v)"
  "defineRemote ''aeps'' v v2 = set_int (\<lambda>n rem. rem\<lparr>r_aeps := n\<rparr>) (s_strtoi v)"
  "defineRemote ''plead'' v v2 = set_int (\<lambda>n rem. rem\<lparr>r_plead := n\<rparr>) (s_strtolirc_t v)"
  "defineRemote ''ptrail'' v v2 = set_int (\<lambda>n rem. rem\<lparr>r_ptrail := n\<rparr>) (s_strtolirc_t v)"
  "defineRemote ''pre_data_bits'' v v2 = set_int (\<lambda>n rem. rem\<lparr>r_pre_data_bits := n\<rparr>) (s_strtoi v)"
  "defineRemote ''post_data_bits'' v v2 = set_int (\<lambda>n rem. rem\<lparr>r_post_data_bits := n\<rparr>) (s_strtoi v)"
  "defineRemote ''min_repeat'' v v2 = set_int (\<lambda>n rem. rem\<lparr>r_min_repeat := n\<rparr>) (s_strtoi v)"
  "defineRemote ''min_code_repeat'' v v2 = set_int (\<lambda>n rem. rem\<lparr>r_min_code_repeat := n\<rparr>) (s_strtoi v)"
  "defineRemote ''frequency'' v v2 = set_int (\<lambda>n rem. rem\<lparr>r_freq := n\<rparr>) (s_strtoui v)"
  "defineRemote ''duty_cycle'' v v2 = set_int (\<lambda>n rem. rem\<lparr>r_duty_cycle := n\<rparr>) (s_strtoui v)"
  "defineRemote ''name'' v v2 = do { set_rem (\<lambda>rem. rem\<lparr>r_name := Some v\<rparr>); ret 1 }"
  "defineRemote ''flags'' v v2 = set_int (\<lambda>n rem. rem\<lparr>r_flags := r_flags rem OR n\<rparr>) (parseFlags v)"
  "defineRemote ''gap'' v v2 = define_gap v v2"
  "defineRemote ''repeat_gap'' v v2 = set_int (\<lambda>n rem. rem\<lparr>r_repeat_gap := i32 n\<rparr>) (s_strtoul v)"
  "defineRemote ''pre_data'' v v2 = set_code_field (\<lambda>c rem. rem\<lparr>r_pre_data := c\<rparr>) v"
  "defineRemote ''post_data'' v v2 = set_code_field (\<lambda>c rem. rem\<lparr>r_post_data := c\<rparr>) v"
  "defineRemote ''toggle_bit_mask'' v v2 = set_code_field (\<lambda>c rem. rem\<lparr>r_toggle_bit_mask := c\<rparr>) v"
  "defineRemote ''toggle_mask'' v v2 = set_code_field (\<lambda>c rem. rem\<lparr>r_toggle_mask := c\<rparr>) v"
  "defineRemote ''rc6_mask'' v v2 = set_code_field (\<lambda>c rem. rem\<lparr>r_rc6_mask := c\<rparr>) v"
  "defineRemote ''ignore_mask'' v v2 = set_code_field (\<lambda>c rem. rem\<lparr>r_ignore_mask := c\<rparr>) v"
  by (simp_all add: defineRemote_def strcasecmp_def tolower_def)

lemma key_pairs:
  "defineRemote ''header'' v (Some v2) = set_pair (\<lambda>p rem. rem\<lparr>r_phead := p\<rparr>) (\<lambda>s rem. rem\<lparr>r_shead := s\<rparr>) v v2"
  "defineRemote ''three'' v (Some v2) = set_pair (\<lambda>p rem. rem\<lparr>r_pthree := p\<rparr>) (\<lambda>s rem. rem\<lparr>r_sthree := s\<rparr>) v v2"
  "defineRemote ''two'' v (Some v2) = set_pair (\<lambda>p rem. rem\<lparr>r_ptwo := p\<rparr>) (\<lambda>s rem. rem\<lparr>r_stwo := s\<rparr>) v v2"
  "defineRemote ''one'' v (Some v2) = set_pair (\<lambda>p rem. rem\<lparr>r_pone := p\<rparr>) (\<lambda>s rem. rem\<lparr>r_sone := s\<rparr>) v v2"
  "defineRemote ''zero'' v (Some v2) = set_pair (\<lambda>p rem. rem\<lparr>r_pzero := p\<rparr>) (\<lambda>s rem. rem\<lparr>r_szero := s\<rparr>) v v2"
  "defineRemote ''foot'' v (Some v2) = set_pair (\<lambda>p rem. rem\<lparr>r_pfoot := p\<rparr>) (\<lambda>s rem. rem\<lparr>r_sfoot := s\<rparr>) v v2"
  "defineRemote ''repeat'' v (Some v2) = set_pair (\<lambda>p rem. rem\<lparr>r_prepeat := p\<rparr>) (\<lambda>s rem. rem\<lparr>r_srepeat := s\<rparr>) v v2"
  "defineRemote ''pre'' v (Some v2) = set_pair (\<lambda>p rem. rem\<lparr>r_pre_p := p\<rparr>) (\<lambda>s rem. rem\<lparr>r_pre_s := s\<rparr>) v v2"
  "defineRemote ''post'' v (Some v2) = set_pair (\<lambda>p rem. rem\<lparr>r_post_p := p\<rparr>) (\<lambda>s rem. rem\<lparr>r_post_s := s\<rparr>) v v2"
  by (simp_all add: defineRemote_def define_pair_def strcasecmp_def tolower_def)

lemma set_rem_here [simp]: "in_remote s r \<Longrightarrow> exec (set_rem f) s = with_rem (f r) s"
  by (simp add: set_rem_def with_rem_def in_remote_def)

lemma set_rem_again [simp]: "in_remote s r \<Longrightarrow> exec (set_rem f) (with_rem r' s) = with_rem (f r') s"
  by (metis in_remote_with set_rem_here with_rem_twice)

lemma length_dec: "n < 10 ^ Suc k \<Longrightarrow> length (dec_digits n) \<le> Suc k"
proof (induction k arbitrary: n)
  case 0
  then show ?case by (subst dec_digits.simps) simp
next
  case (Suc k)
  then have "n div 10 < 10 ^ Suc k" by (simp add: less_mult_imp_div_less)
  from Suc.IH [OF this] show ?case
    by (subst dec_digits.simps) auto
qed

lemma length_hex: "n < 16 ^ Suc k \<Longrightarrow> hex_len n \<le> Suc k"
proof (induction k arbitrary: n)
  case 0
  then show ?case by (subst hex_len.simps) simp
next
  case (Suc k)
  then have "n div 16 < 16 ^ Suc k" by (simp add: less_mult_imp_div_less)
  from Suc.IH [OF this] show ?case
    by (subst hex_len.simps) auto
qed

lemma brief_more: "brief n w \<Longrightarrow> n \<le> m \<Longrightarrow> brief m w"
  by (simp add: brief_def)

lemma brief_ulong: "brief 10 (ulong t)"
proof -
  have "nat (u32 t) < 10 ^ Suc 9"
    using u32_bounds [of t] by simp
  from length_dec [OF this] show ?thesis by (simp add: brief_def ulong_def)
qed

lemma brief_int: "0 \<le> n \<Longrightarrow> n < 2 ^ 31 \<Longrightarrow> brief 10 (dec_int n)"
  using length_dec [of "nat n" 9] plain_dec_int [of n] by (simp add: brief_def dec_int_def)

lemma length_hex_number: "v < 16 ^ Suc k \<Longrightarrow> length (hex_number w v) \<le> max w (Suc k)"
  using length_hex [of v k] by (simp add: hex_number_def)

lemma brief_code: "brief 18 (CHR ''0'' # CHR ''x'' # hex_number 1 (unat (c :: ir_code)))"
  using length_hex_number [of "unat c" 15 1] unsigned_less [of c] by (simp add: brief_def)

lemma exec_set_int: "exec (set_int f m) s = exec (set_rem (f (result m s))) (exec m s)"
  by (simp add: set_int_def run_bind del: run_state_bind)

lemma exec_set_code: "exec (set_code_field f v) s = exec (set_rem (f (result (s_strtocode v) s))) (exec (s_strtocode v) s)"
  by (simp add: set_code_field_def run_bind del: run_state_bind)

lemma exec_set_pair:
  "run_state (s_strtolirc_t v) s = (t, s) \<Longrightarrow> (\<And>s. run_state (s_strtolirc_t v2) s = (u, s)) \<Longrightarrow>
   exec (set_pair f g v v2) s = exec (set_rem (g u)) (exec (set_rem (f t)) s)"
  by (simp add: set_pair_def run_bind del: run_state_bind)

lemma reads_int:
  assumes "opens p key" and "\<And>v v2. defineRemote key v v2 = set_int f (s_strtoi v)" and "0 \<le> n" and "n < 2 ^ 31" and "w \<le> 50"
  shows "reads (int_line p w n) r (f n r)"
proof -
  have "exec (defineRemote key (dec_int n) None) s = with_rem (f n r) s" if "in_remote s r" for s
    using that assms(3-) by (simp add: assms(2) exec_set_int)
  then show ?thesis
    unfolding int_line_def using assms brief_more [OF brief_int [OF assms(3,4)], of 900]
    by (intro reads_word [OF assms(1)]) simp_all
qed

lemma reads_time:
  assumes "opens p key" and "\<And>v v2. defineRemote key v v2 = set_int f (s_strtolirc_t v)" and "in32 t" and "w \<le> 50"
  shows "reads (time_line p w t) r (f t r)"
proof -
  have "exec (defineRemote key (ulong t) None) s = with_rem (f t r) s" if "in_remote s r" for s
    using that assms(3-) by (simp add: assms(2) exec_set_int)
  then show ?thesis
    unfolding time_line_def using assms brief_more [OF brief_ulong [of t], of 900]
    by (intro reads_word [OF assms(1)]) simp_all
qed

lemma reads_unsigned:
  assumes "opens p key" and "\<And>v v2. defineRemote key v v2 = set_int f (s_strtoui v)" and "u32 t = t" and "w \<le> 50"
  shows "reads (time_line p w t) r (f t r)"
proof -
  have "exec (defineRemote key (ulong t) None) s = with_rem (f t r) s" if "in_remote s r" for s
    using that assms(3-) by (simp add: assms(2) exec_set_int)
  then show ?thesis
    unfolding time_line_def using assms brief_more [OF brief_ulong [of t], of 900]
    by (intro reads_word [OF assms(1)]) simp_all
qed

lemma reads_code:
  assumes "opens p key" and "\<And>v v2. defineRemote key v v2 = set_code_field f v"
  shows "reads (code_line p c) r (f c r)"
proof -
  have "exec (defineRemote key (''0x'' @ hex_number 1 (unat c)) None) s = with_rem (f c r) s" if "in_remote s r" for s
    using that by (simp add: assms(2) exec_set_code)
  moreover have "brief 900 (''0x'' @ hex_number 1 (unat c))"
    using brief_more [OF brief_code [of c], of 900] by simp
  ultimately show ?thesis
    using reads_word [OF assms(1), of "''0x'' @ hex_number 1 (unat c)" r "f c r" 0]
    by (simp add: code_line_def)
qed

lemma reads_times:
  assumes "opens p key" and "\<And>v v2. defineRemote key v (Some v2) = set_pair f g v v2" and "in32 t" and "in32 u" and "w \<le> 50"
  shows "reads (pair_line p w t u) r (g u (f t r))"
proof -
  have "exec (defineRemote key (ulong t) (Some (ulong u))) s = with_rem (g u (f t r)) s" if "in_remote s r" for s
    using that assms(3,4) by (simp add: assms(2) exec_set_pair)
  then show ?thesis
    unfolding pair_line_def
    using assms brief_more [OF brief_ulong [of t], of 400] brief_more [OF brief_ulong [of u], of 400]
    by (intro reads_pair [OF assms(1)]) simp_all
qed

lemma exec_gap:
  assumes "in_remote s r"
  shows "exec (define_gap (ulong t) None) s = with_rem (r\<lparr>r_gap := i32 (u32 t)\<rparr>) s"
    and "exec (define_gap (ulong t) (Some (ulong u))) s = with_rem (r\<lparr>r_gap2 := i32 (u32 u), r_gap := i32 (u32 t)\<rparr>) s"
  using assms by (simp_all add: define_gap_def run_bind del: run_state_bind)

lemma reads_gap:
  assumes "in32 (r_gap rem)" and "in32 (r_gap2 rem)" and "r_gap2 r = 0"
  shows "reads (fprint_remote_gap rem) r (r\<lparr>r_gap2 := r_gap2 rem, r_gap := r_gap rem\<rparr>)"
proof (cases "r_gap2 rem = 0")
  case True
  with assms(3) have e: "r\<lparr>r_gap2 := r_gap2 rem, r_gap := r_gap rem\<rparr> = r\<lparr>r_gap := r_gap rem\<rparr>"
    by (cases r) simp
  have "reads (time_line ''  gap          '' 0 (r_gap rem)) r (r\<lparr>r_gap := r_gap rem\<rparr>)"
    unfolding time_line_def
    by (rule reads_word, rule opens_keys, rule brief_more [OF brief_ulong])
      (use assms(1) in \<open>simp_all add: key_fields exec_gap i32_u32\<close>)
  with True e show ?thesis by (simp add: fprint_remote_gap_def)
next
  case False
  have "reads (pair_line ''  gap          '' 0 (r_gap rem) (r_gap2 rem)) r (r\<lparr>r_gap2 := r_gap2 rem, r_gap := r_gap rem\<rparr>)"
    unfolding pair_line_def
    by (rule reads_pair, rule opens_keys, rule brief_more [OF brief_ulong], simp, rule brief_more [OF brief_ulong])
      (use assms(1,2) in \<open>simp_all add: key_fields exec_gap i32_u32\<close>)
  with False show ?thesis by (simp add: fprint_remote_gap_def)
qed

lemma reads_repeat_gap:
  assumes "in32 t"
  shows "reads (time_line ''  repeat_gap   '' 0 t) r (r\<lparr>r_repeat_gap := t\<rparr>)"
  unfolding time_line_def
  by (rule reads_word, rule opens_keys, rule brief_more [OF brief_ulong])
    (use assms in \<open>simp_all add: key_fields exec_set_int i32_u32\<close>)

lemma reads_name:
  assumes "brief 900 n"
  shows "reads (str_line ''  name  '' n) r (r\<lparr>r_name := Some n\<rparr>)"
proof -
  have "exec (defineRemote ''name'' n None) s = with_rem (r\<lparr>r_name := Some n\<rparr>) s" if "in_remote s r" for s
    using that by (simp add: key_fields run_bind del: run_state_bind)
  from reads_word [OF opens_keys(1) assms this, where n = 0] show ?thesis
    unfolding str_line_def pad_left_zero by simp
qed

subsection \<open>Flags\<close>

text \<open>All the bits the parser has names for.\<close>

definition known_flags_mask :: int where
  "known_flags_mask = 0xFFFF"

lemma flags_named: "(nm, f) \<in> set all_flags \<Longrightarrow> flag_of nm = Some f"
proof -
  have "list_all (\<lambda>(nm, f). flag_of nm = Some f) all_flags"
    by (simp add: all_flags_def flag_of_def strcasecmp_def tolower_def)
  then show "(nm, f) \<in> set all_flags \<Longrightarrow> flag_of nm = Some f"
    by (auto simp: list_all_iff)
qed

lemma split_bar: "CHR ''|'' \<notin> set w \<Longrightarrow> split_at (CHR ''|'') (w @ CHR ''|'' # cs) = w # split_at (CHR ''|'') cs"
  by (induction w) auto

lemma split_word: "CHR ''|'' \<notin> set w \<Longrightarrow> split_at (CHR ''|'') w = [w]"
  by (induction w) auto

lemma split_bar_list: "names \<noteq> [] \<Longrightarrow> \<forall>w\<in>set names. CHR ''|'' \<notin> set w \<Longrightarrow> split_at (CHR ''|'') (bar_list names) = names"
  by (induction names) (auto simp: split_bar split_word)

lemma flag_names_known: "set (flag_names fs flags) \<subseteq> fst ` set fs"
  by (induction fs flags rule: flag_names.induct) auto

text \<open>Adding the names up gives the flags back: \<open>acc\<close> are those already printed, \<open>left\<close> the rest.\<close>

lemma flag_bit: "(nm, f) \<in> set all_flags \<or> f \<in> protocols \<Longrightarrow> \<exists>k. f = 2 ^ k"
proof -
  have "list_all (\<lambda>p. snd p \<in> set (map (\<lambda>k. 2 ^ k) [0..<16])) all_flags"
    by code_simp
  moreover have "protocols \<subseteq> set (map (\<lambda>k. 2 ^ k) [0..<16])"
    unfolding protocols_def by code_simp
  ultimately show "(nm, f) \<in> set all_flags \<or> f \<in> protocols \<Longrightarrow> \<exists>k. f = 2 ^ k"
    by (fastforce simp: list_all_iff simp del: upt_Suc)
qed

abbreviation all_of :: "(string \<times> int) list \<Rightarrow> int" where
  "all_of fs \<equiv> foldr (\<lambda>p m. snd p OR m) fs 0"

text \<open>Of two protocols at most one is printed.\<close>

lemma one_protocol:
  assumes "(nm, 2 ^ k) \<in> set all_flags" and "bit left k" and "acc AND left = 0"
    and "(acc OR left) AND IR_PROTOCOL_MASK = 0 \<or> (acc OR left) AND IR_PROTOCOL_MASK \<in> protocols"
  shows "\<not> (2 ^ k AND IR_PROTOCOL_MASK \<noteq> 0 \<and> acc AND IR_PROTOCOL_MASK \<noteq> 0)"
proof
  assume a: "2 ^ k AND IR_PROTOCOL_MASK \<noteq> 0 \<and> acc AND IR_PROTOCOL_MASK \<noteq> 0"
  then have k: "bit IR_PROTOCOL_MASK k"
    by (metis and.commute and_exp_eq_0_iff_not_bit)
  then have "bit ((acc OR left) AND IR_PROTOCOL_MASK) k"
    using assms(2) by (simp add: bit_and_iff bit_or_iff)
  moreover from this obtain j where j: "(acc OR left) AND IR_PROTOCOL_MASK = 2 ^ j"
    using assms(4) flag_bit by fastforce
  ultimately have "j = k" by (simp add: bit_exp_iff)
  from a obtain i where i: "bit (acc AND IR_PROTOCOL_MASK) i"
    by (metis bit_0_eq bit_eqI bot_apply bot_bool_def)
  then have "bit ((acc OR left) AND IR_PROTOCOL_MASK) i"
    by (simp add: bit_and_iff bit_or_iff)
  then have "i = k"
    using j \<open>j = k\<close> by (simp add: bit_exp_iff)
  with i assms(2) have "bit (acc AND left) k" by (simp add: bit_and_iff)
  with assms(3) show False by simp
qed

lemma parse_printed:
  "set fs \<subseteq> set all_flags \<Longrightarrow> acc AND left = 0 \<Longrightarrow>
   (acc OR left) AND IR_PROTOCOL_MASK = 0 \<or> (acc OR left) AND IR_PROTOCOL_MASK \<in> protocols \<Longrightarrow>
   parse_flag_list (flag_names fs left) acc = Some (acc OR (left AND all_of fs))"
proof (induction fs left arbitrary: acc rule: flag_names.induct)
  case (1 left)
  then show ?case by simp
next
  case (2 nm f rest left)
  obtain k where f: "f = 2 ^ k"
    using 2(3) flag_bit [of nm f] by auto
  show ?case
  proof (cases "left AND f = 0")
    case True
    have "left AND (f OR all_of rest) = left AND all_of rest"
      using True by (simp add: bit.conj_disj_distrib)
    with True 2 show ?thesis by simp
  next
    case False
    then have k: "bit left k" by (simp add: f and_exp_eq_0_iff_not_bit)
    let ?acc = "acc OR f" and ?left = "left AND NOT f"
    have "\<not> (bit acc n \<and> bit left n)" for n
      using arg_cong [OF 2(4), of "\<lambda>x. bit x n"] by (simp add: bit_and_iff)
    with k have same: "?acc OR ?left = acc OR left" "?acc AND ?left = 0"
      by (intro bit_eqI; auto simp: f bit_simps)+
    have "parse_flag_list (flag_names rest ?left) ?acc = Some (?acc OR (?left AND all_of rest))"
      using 2(1) [OF False, of ?acc] 2(3,5) same by simp
    moreover have "?acc OR (?left AND all_of rest) = acc OR (left AND all_of ((nm, f) # rest))"
      using k by (intro bit_eqI) (auto simp: f bit_simps)
    moreover have "flag_of nm = Some f" "(nm, 2 ^ k) \<in> set all_flags"
      using flags_named [of nm f] 2(3) f by simp_all
    ultimately show ?thesis
      using one_protocol [OF _ k 2(4,5)] False f by simp
  qed
qed

definition printable_flags :: "int \<Rightarrow> bool" where
  "printable_flags flags \<longleftrightarrow> flags AND 0xFFFF = flags \<and>
     (flags AND IR_PROTOCOL_MASK = 0 \<or> flags AND IR_PROTOCOL_MASK \<in> protocols)"

lemma flag_words: "w \<in> fst ` set all_flags \<Longrightarrow> plain_word w \<and> CHR ''|'' \<notin> set w \<and> length w \<le> 20"
proof -
  have "list_all (\<lambda>p. plain_word (fst p) \<and> CHR ''|'' \<notin> set (fst p) \<and> length (fst p) \<le> 20) all_flags"
    by (simp add: all_flags_def plain_word_def plain_char_def is_blank_def)
  then show "w \<in> fst ` set all_flags \<Longrightarrow> plain_word w \<and> CHR ''|'' \<notin> set w \<and> length w \<le> 20"
    by (auto simp: list_all_iff)
qed

lemma bar_list_plain:
  "names \<noteq> [] \<Longrightarrow> \<forall>w\<in>set names. plain_word w \<and> length w \<le> 20 \<Longrightarrow> brief (21 * length names) (bar_list names)"
  by (induction names) (auto simp: brief_def plain_word_def plain_char_def is_blank_def)

lemma length_flag_names: "length (flag_names fs flags) \<le> length fs"
  by (induction fs flags rule: flag_names.induct) auto

lemma reads_flags:
  assumes "printable_flags flags" and "r_flags r = 0"
  shows "reads (fprint_flags flags) r (r\<lparr>r_flags := flags\<rparr>)"
proof -
  let ?names = "flag_names all_flags flags"
  have "all_of all_flags = 0xFFFF" by code_simp
  with assms(1) have p: "parse_flag_list ?names 0 = Some flags"
    using parse_printed [of all_flags 0 flags] by (simp add: printable_flags_def)
  show ?thesis
  proof (cases "?names = []")
    case True
    with p assms(2) have "r\<lparr>r_flags := flags\<rparr> = r" by (cases r) simp
    with True show ?thesis by (simp add: fprint_flags_def reads_nothing)
  next
    case False
    have known: "\<forall>w\<in>set ?names. plain_word w \<and> CHR ''|'' \<notin> set w \<and> length w \<le> 20"
      using flag_names_known [of all_flags flags] flag_words by blast
    then have "brief (21 * length ?names) (bar_list ?names)"
      using bar_list_plain [OF False] by blast
    moreover have "length ?names \<le> 17"
      using length_flag_names [of all_flags flags] by (simp add: all_flags_def)
    ultimately have b: "brief 900 (bar_list ?names)"
      by (auto elim: brief_more)
    have "run_state (parseFlags (bar_list ?names)) s = (flags, s)" for s
      using p split_bar_list [OF False] known by (simp add: parseFlags_def)
    then have "exec (defineRemote ''flags'' (bar_list ?names) None) s = with_rem (r\<lparr>r_flags := flags\<rparr>) s" if "in_remote s r" for s
      using that assms(2) by (simp add: key_fields exec_set_int)
    from reads_word [OF opens_keys(3) b this, where n = 0] show ?thesis
      using False unfolding fprint_flags_def Let_def str_line_def pad_left_zero by simp
  qed
qed

lemmas field_lines = reads_name reads_flags reads_gap reads_repeat_gap reads_empty
  reads_int [OF opens_keys(2) key_fields(1)]
  reads_int [OF opens_keys(4) key_fields(2)]
  reads_int [OF opens_keys(5) key_fields(3)]
  reads_int [OF opens_keys(15) key_fields(6)]
  reads_int [OF opens_keys(17) key_fields(7)]
  reads_int [OF opens_keys(23) key_fields(8)]
  reads_int [OF opens_keys(24) key_fields(9)]
  reads_time [OF opens_keys(12) key_fields(4)]
  reads_time [OF opens_keys(11) key_fields(5)]
  reads_unsigned [OF opens_keys(29) key_fields(10)]
  reads_unsigned [OF opens_keys(30) key_fields(11)]
  reads_code [OF opens_keys(16) key_fields(16)]
  reads_code [OF opens_keys(18) key_fields(17)]
  reads_code [OF opens_keys(25) key_fields(18)]
  reads_code [OF opens_keys(26) key_fields(19)]
  reads_code [OF opens_keys(27) key_fields(20)]
  reads_code [OF opens_keys(28) key_fields(21)]
  reads_times [OF opens_keys(6) key_pairs(1)]
  reads_times [OF opens_keys(7) key_pairs(2)]
  reads_times [OF opens_keys(8) key_pairs(3)]
  reads_times [OF opens_keys(9) key_pairs(4)]
  reads_times [OF opens_keys(10) key_pairs(5)]
  reads_times [OF opens_keys(13) key_pairs(6)]
  reads_times [OF opens_keys(14) key_pairs(7)]
  reads_times [OF opens_keys(19) key_pairs(8)]
  reads_times [OF opens_keys(20) key_pairs(9)]

end
