(* ===== verification/DumpLaws.thy ===== *)
theory DumpLaws
  imports DumpLines
begin

text \<open>
  What \<open>dump_config.cpp\<close> prints, \<open>config.cpp\<close> reads back: the head of a remote, its buttons, and whole
  files.
\<close>

subsection \<open>The head of a remote\<close>

definition counted :: "int \<Rightarrow> bool" where
  "counted n \<longleftrightarrow> 0 \<le> n \<and> n < 2 ^ 31"

text \<open>Both of a pair of durations are given, or none.\<close>

definition paired :: "lirc_t \<Rightarrow> lirc_t \<Rightarrow> bool" where
  "paired p s \<longleftrightarrow> 0 < p \<and> 0 < s \<or> p = 0 \<and> s = 0"

text \<open>The settings of a remote that the printer writes and the parser can hold.\<close>

definition head_ok :: "ir_remote \<Rightarrow> bool" where
  "head_ok rem \<longleftrightarrow> \<not> is_raw rem \<and> \<not> is_serial rem \<and> (\<exists>n. r_name rem = Some n \<and> brief 900 n) \<and> printable_flags (r_flags rem) \<and>
     list_all counted [r_bits rem, r_eps rem, r_aeps rem, r_pre_data_bits rem, r_post_data_bits rem, r_min_repeat rem, r_min_code_repeat rem] \<and>
     list_all in32 [r_phead rem, r_shead rem, r_pthree rem, r_sthree rem, r_ptwo rem, r_stwo rem, r_pone rem, r_sone rem,
       r_pzero rem, r_szero rem, r_plead rem, r_ptrail rem, r_pfoot rem, r_sfoot rem, r_prepeat rem, r_srepeat rem,
       r_pre_p rem, r_pre_s rem, r_post_p rem, r_post_s rem, r_gap rem, r_gap2 rem, r_repeat_gap rem] \<and>
     paired (r_phead rem) (r_shead rem) \<and> paired (r_pfoot rem) (r_sfoot rem) \<and> paired (r_prepeat rem) (r_srepeat rem) \<and>
     paired (r_pre_p rem) (r_pre_s rem) \<and> paired (r_post_p rem) (r_post_s rem) \<and> 0 \<le> r_repeat_gap rem \<and>
     (r_pre_data_bits rem = 0 \<longrightarrow> r_pre_data rem = 0) \<and> (r_post_data_bits rem = 0 \<longrightarrow> r_post_data rem = 0) \<and>
     u32 (r_freq rem) = r_freq rem \<and> u32 (r_duty_cycle rem) = r_duty_cycle rem"

text \<open>What the printer does not write is as \<open>s_malloc\<close> leaves it.\<close>

definition fresh :: "ir_remote \<Rightarrow> bool" where
  "fresh rem \<longleftrightarrow> r_toggle_bit rem = 0 \<and> r_baud rem = 0 \<and> r_bits_in_byte rem = 0 \<and> r_parity rem = 0 \<and> r_stop_bits rem = 0 \<and>
     r_toggle_mask_state rem = 0 \<and> r_repeat_countdown rem = 0 \<and> r_last_code rem = None \<and> r_toggle_code rem = None \<and>
     r_reps rem = 0 \<and> r_last_send rem = zero_time \<and> r_min_remaining_gap rem = 0 \<and> r_max_remaining_gap rem = 0"

lemma unchanged:
  "p = r_phead r \<Longrightarrow> q = r_shead r \<Longrightarrow> r\<lparr>r_phead := p, r_shead := q\<rparr> = r"
  "p = r_pthree r \<Longrightarrow> q = r_sthree r \<Longrightarrow> r\<lparr>r_pthree := p, r_sthree := q\<rparr> = r"
  "p = r_ptwo r \<Longrightarrow> q = r_stwo r \<Longrightarrow> r\<lparr>r_ptwo := p, r_stwo := q\<rparr> = r"
  "p = r_pfoot r \<Longrightarrow> q = r_sfoot r \<Longrightarrow> r\<lparr>r_pfoot := p, r_sfoot := q\<rparr> = r"
  "p = r_prepeat r \<Longrightarrow> q = r_srepeat r \<Longrightarrow> r\<lparr>r_prepeat := p, r_srepeat := q\<rparr> = r"
  "p = r_pre_p r \<Longrightarrow> q = r_pre_s r \<Longrightarrow> r\<lparr>r_pre_p := p, r_pre_s := q\<rparr> = r"
  "p = r_post_p r \<Longrightarrow> q = r_post_s r \<Longrightarrow> r\<lparr>r_post_p := p, r_post_s := q\<rparr> = r"
  "p = r_ptrail r \<Longrightarrow> r\<lparr>r_ptrail := p\<rparr> = r"
  "p = r_plead r \<Longrightarrow> r\<lparr>r_plead := p\<rparr> = r"
  "p = r_repeat_gap r \<Longrightarrow> r\<lparr>r_repeat_gap := p\<rparr> = r"
  "p = r_min_repeat r \<Longrightarrow> r\<lparr>r_min_repeat := p\<rparr> = r"
  "p = r_min_code_repeat r \<Longrightarrow> r\<lparr>r_min_code_repeat := p\<rparr> = r"
  "p = r_freq r \<Longrightarrow> r\<lparr>r_freq := p\<rparr> = r"
  "p = r_duty_cycle r \<Longrightarrow> r\<lparr>r_duty_cycle := p\<rparr> = r"
  by (cases r, simp)+

lemma unchanged_codes:
  "p = r_toggle_mask r \<Longrightarrow> r\<lparr>r_toggle_mask := p\<rparr> = r"
  "p = r_rc6_mask r \<Longrightarrow> r\<lparr>r_rc6_mask := p\<rparr> = r"
  "p = r_ignore_mask r \<Longrightarrow> r\<lparr>r_ignore_mask := p\<rparr> = r"
  by (cases r, simp)+

lemma unchanged_data:
  "p = r_pre_data_bits r \<Longrightarrow> q = r_pre_data r \<Longrightarrow> r\<lparr>r_pre_data_bits := p, r_pre_data := q\<rparr> = r"
  "p = r_post_data_bits r \<Longrightarrow> q = r_post_data r \<Longrightarrow> r\<lparr>r_post_data_bits := p, r_post_data := q\<rparr> = r"
  by (cases r, simp)+

lemma zero_fields: "r_phead zero_remote = 0" "r_shead zero_remote = 0" "r_pthree zero_remote = 0" "r_sthree zero_remote = 0" "r_ptwo zero_remote = 0" "r_stwo zero_remote = 0" "r_pfoot zero_remote = 0" "r_sfoot zero_remote = 0" "r_prepeat zero_remote = 0" "r_srepeat zero_remote = 0" "r_pre_data_bits zero_remote = 0" "r_pre_data zero_remote = 0" "r_post_data_bits zero_remote = 0" "r_post_data zero_remote = 0" "r_pre_p zero_remote = 0" "r_pre_s zero_remote = 0" "r_post_p zero_remote = 0" "r_post_s zero_remote = 0" "r_ptrail zero_remote = 0" "r_plead zero_remote = 0" "r_repeat_gap zero_remote = 0" "r_min_repeat zero_remote = 0" "r_min_code_repeat zero_remote = 0" "r_toggle_mask zero_remote = 0" "r_rc6_mask zero_remote = 0" "r_ignore_mask zero_remote = 0" "r_freq zero_remote = 0" "r_duty_cycle zero_remote = 0" "r_flags zero_remote = 0" "r_gap2 zero_remote = 0"
  by (simp_all add: zero_remote_def)

lemma paired_zero: "paired p s \<Longrightarrow> \<not> (0 < p \<and> 0 < s) \<Longrightarrow> p = 0 \<and> s = 0"
  "paired p s \<Longrightarrow> \<not> (p \<noteq> 0 \<and> s \<noteq> 0) \<Longrightarrow> p = 0 \<and> s = 0"
  by (auto simp: paired_def)

lemma reads_fields:
  assumes "head_ok rem" and "r_name rem = Some n"
  shows "\<exists>body. fprint_remote_head rem = ''begin remote'' @ eol @ eol @ body \<and>
    reads body zero_remote (zero_remote\<lparr>r_name := Some n, r_bits := r_bits rem, r_flags := r_flags rem, r_eps := r_eps rem,
      r_aeps := r_aeps rem, r_phead := r_phead rem, r_shead := r_shead rem, r_pthree := r_pthree rem, r_sthree := r_sthree rem,
      r_ptwo := r_ptwo rem, r_stwo := r_stwo rem, r_pone := r_pone rem, r_sone := r_sone rem, r_pzero := r_pzero rem,
      r_szero := r_szero rem, r_ptrail := r_ptrail rem, r_plead := r_plead rem, r_pfoot := r_pfoot rem, r_sfoot := r_sfoot rem,
      r_prepeat := r_prepeat rem, r_srepeat := r_srepeat rem, r_pre_data_bits := r_pre_data_bits rem, r_pre_data := r_pre_data rem,
      r_post_data_bits := r_post_data_bits rem, r_post_data := r_post_data rem, r_pre_p := r_pre_p rem, r_pre_s := r_pre_s rem,
      r_post_p := r_post_p rem, r_post_s := r_post_s rem, r_gap2 := r_gap2 rem, r_gap := r_gap rem,
      r_repeat_gap := r_repeat_gap rem, r_min_repeat := r_min_repeat rem, r_min_code_repeat := r_min_code_repeat rem,
      r_toggle_bit_mask := r_toggle_bit_mask rem, r_toggle_mask := r_toggle_mask rem, r_rc6_mask := r_rc6_mask rem,
      r_ignore_mask := r_ignore_mask rem, r_freq := r_freq rem, r_duty_cycle := r_duty_cycle rem\<rparr>)"
proof -
  note parts = assms(1) [unfolded head_ok_def list.pred_inject counted_def]
  have raw: "\<not> is_raw rem" "\<not> is_serial rem" and pf: "printable_flags (r_flags rem)"
    and p: "paired (r_phead rem) (r_shead rem)" "paired (r_pfoot rem) (r_sfoot rem)" "paired (r_prepeat rem) (r_srepeat rem)"
      "paired (r_pre_p rem) (r_pre_s rem)" "paired (r_post_p rem) (r_post_s rem)"
    and d: "r_pre_data_bits rem = 0 \<longrightarrow> r_pre_data rem = 0" "r_post_data_bits rem = 0 \<longrightarrow> r_post_data rem = 0" "0 \<le> r_repeat_gap rem"
    and facts: "in32 (r_phead rem)" "in32 (r_shead rem)" "in32 (r_pthree rem)" "in32 (r_sthree rem)" "in32 (r_ptwo rem)" "in32 (r_stwo rem)" "in32 (r_pone rem)" "in32 (r_sone rem)" "in32 (r_pzero rem)" "in32 (r_szero rem)" "in32 (r_plead rem)" "in32 (r_ptrail rem)" "in32 (r_pfoot rem)" "in32 (r_sfoot rem)" "in32 (r_prepeat rem)" "in32 (r_srepeat rem)" "in32 (r_pre_p rem)" "in32 (r_pre_s rem)" "in32 (r_post_p rem)" "in32 (r_post_s rem)" "in32 (r_gap rem)" "in32 (r_gap2 rem)" "in32 (r_repeat_gap rem)"
      "0 \<le> r_bits rem" "r_bits rem < 2 ^ 31" "0 \<le> r_eps rem" "r_eps rem < 2 ^ 31" "0 \<le> r_aeps rem" "r_aeps rem < 2 ^ 31" "0 \<le> r_pre_data_bits rem" "r_pre_data_bits rem < 2 ^ 31" "0 \<le> r_post_data_bits rem" "r_post_data_bits rem < 2 ^ 31" "0 \<le> r_min_repeat rem" "r_min_repeat rem < 2 ^ 31" "0 \<le> r_min_code_repeat rem" "r_min_code_repeat rem < 2 ^ 31"
      "u32 (r_freq rem) = r_freq rem" "u32 (r_duty_cycle rem) = r_duty_cycle rem"
    using parts by - (elim conjE, assumption)+
  have name: "name_text rem = n" "brief 900 n"
    using parts assms(2) by (auto simp: name_text_def)
  have mcr: "u32 (r_min_code_repeat rem) = r_min_code_repeat rem" "i32 (r_min_code_repeat rem) = r_min_code_repeat rem"
    using facts(36,37) by (simp_all add: small in32_def)
  have zero: "\<not> has_header rem \<Longrightarrow> r_phead rem = 0 \<and> r_shead rem = 0" "\<not> has_foot rem \<Longrightarrow> r_pfoot rem = 0 \<and> r_sfoot rem = 0"
    "\<not> has_repeat rem \<Longrightarrow> r_prepeat rem = 0 \<and> r_srepeat rem = 0"
    "\<not> (r_pre_p rem \<noteq> 0 \<and> r_pre_s rem \<noteq> 0) \<Longrightarrow> r_pre_p rem = 0 \<and> r_pre_s rem = 0"
    "\<not> (r_post_p rem \<noteq> 0 \<and> r_post_s rem \<noteq> 0) \<Longrightarrow> r_post_p rem = 0 \<and> r_post_s rem = 0"
    unfolding has_header_def has_foot_def has_repeat_def by (rule paired_zero, rule p, assumption)+
  have more_zero: "\<not> 0 < r_pre_data_bits rem \<Longrightarrow> r_pre_data_bits rem = 0 \<and> r_pre_data rem = 0"
    "\<not> 0 < r_post_data_bits rem \<Longrightarrow> r_post_data_bits rem = 0 \<and> r_post_data rem = 0"
    "\<not> 0 < r_min_repeat rem \<Longrightarrow> r_min_repeat rem = 0" "\<not> 0 < r_min_code_repeat rem \<Longrightarrow> r_min_code_repeat rem = 0"
    "\<not> has_repeat_gap rem \<Longrightarrow> r_repeat_gap rem = 0"
    using facts d by (simp_all add: has_repeat_gap_def)
  have masks: "\<not> has_toggle_mask rem \<Longrightarrow> r_toggle_mask rem = 0" "\<not> has_ignore_mask rem \<Longrightarrow> r_ignore_mask rem = 0"
    by (simp_all add: has_toggle_mask_def has_ignore_mask_def word_gt_0)
  show ?thesis
    unfolding fprint_remote_head_def name mcr
    apply (simp only: raw if_True if_False append_assoc not_False_eq_True append_Nil)
    apply (intro exI conjI)
     apply (rule refl)
    apply ((rule reads_append reads_cond field_lines facts pf name |
      (rule unchanged unchanged_codes unchanged_data; (drule zero more_zero masks)?; simp add: zero_fields; fail) | (simp add: zero_fields; fail))+)
    done
qed

subsection \<open>Buttons\<close>

definition button_ok :: "int \<Rightarrow> ir_ncode \<Rightarrow> bool" where
  "button_ok bits nc \<longleftrightarrow> brief 200 (n_name nc) \<and> \<not> strcasecmp ''include'' (n_name nc) \<and> masked bits (n_code nc) \<and>
     list_all (\<lambda>c. masked bits c \<and> unat c < 2 ^ 32) (n_next nc) \<and> length (n_next nc) \<le> 30 \<and>
     n_length nc = 0 \<and> n_signals nc = None \<and> n_current nc = None \<and> n_transmit_state nc = None"

lemma words_codes:
  "words is_blank (concat (map (\<lambda>c. '' 0x'' @ hex_number w (f c)) cs)) = map (\<lambda>c. ''0x'' @ hex_number w (f c)) cs"
proof (induction cs)
  case Nil
  then show ?case by simp
next
  case (Cons c cs)
  have b: "is_blank (CHR '' '')" by (simp add: is_blank_def)
  show ?case
  proof (cases cs)
    case Nil
    with b show ?thesis by (simp del: words.simps(2) add: words_sep)
  next
    case (Cons d ds)
    have "words is_blank ((CHR ''0'' # CHR ''x'' # hex_number w (f c)) @ CHR '' '' # r) =
        (CHR ''0'' # CHR ''x'' # hex_number w (f c)) # words is_blank r" for r
      using b by (intro words_plain) simp_all
    with b Cons Cons.IH show ?thesis by (simp del: words.simps(2) add: words_sep)
  qed
qed

lemma add_nodes_run:
  "fine s \<Longrightarrow> list_all (\<lambda>c. unat c < 2 ^ 32) cs \<Longrightarrow>
   run_state (add_nodes code (map (\<lambda>c. ''0x'' @ hex_number w (unat c mod 2 ^ 32)) cs)) s = (code\<lparr>n_next := n_next code @ cs\<rparr>, s)"
proof (induction cs arbitrary: code)
  case Nil
  then show ?case by simp
next
  case (Cons c cs)
  then show ?case
    by (simp add: defineNode_def fine_def)
qed

lemma add_button_run:
  assumes "fine s" and "button_ok bits nc"
  shows "exec (add_button (n_name nc) (''0x'' @ hex_number w (unat (n_code nc)))
      (map (\<lambda>c. ''0x'' @ hex_number w (unat c mod 2 ^ 32)) (n_next nc))) s =
    s\<lparr>cf_codes_list := cf_codes_list s @ [nc]\<rparr>"
proof -
  have "list_all (\<lambda>c. unat c < 2 ^ 32) (n_next nc)"
    using assms(2) by (simp add: button_ok_def list_all_iff)
  note nodes = add_nodes_run [OF assms(1) this, of "no_code_entry\<lparr>n_name := n_name nc, n_code := n_code nc\<rparr>" w]
  have "no_code_entry\<lparr>n_name := n_name nc, n_code := n_code nc, n_next := n_next nc\<rparr> = nc"
    using assms(2) by (cases nc) (simp add: button_ok_def no_code_entry_def)
  with nodes show ?thesis
    by (simp add: add_button_def defineCode_def no_code_entry_def)
qed

lemma button_line_words:
  assumes "plain_word nm"
  shows "tokens (''          '' @ pad_right 24 nm @ '' 0x'' @ hex_number w (unat c) @
      concat (map (\<lambda>c. '' 0x'' @ hex_number w (unat c mod 2 ^ 32)) cs)) =
    nm # (''0x'' @ hex_number w (unat c)) # map (\<lambda>c. ''0x'' @ hex_number w (unat c mod 2 ^ 32)) cs"
proof -
  have b: "is_blank (CHR '' '')" by (simp add: is_blank_def)
  have one: "'' 0x'' @ hex_number w (unat c) @ concat (map (\<lambda>c. '' 0x'' @ hex_number w (unat c mod 2 ^ 32)) cs) =
      CHR '' '' # (''0x'' @ hex_number w (unat c)) @ concat (map (\<lambda>c. '' 0x'' @ hex_number w (unat c mod 2 ^ 32)) cs)"
    by simp
  have "words is_blank ((''0x'' @ hex_number w (unat c)) @ concat (map (\<lambda>c. '' 0x'' @ hex_number w (unat c mod 2 ^ 32)) cs)) =
      (''0x'' @ hex_number w (unat c)) # words is_blank (concat (map (\<lambda>c. '' 0x'' @ hex_number w (unat c mod 2 ^ 32)) cs))"
  proof (cases cs)
    case Nil
    then show ?thesis by (simp del: words.simps(2))
  next
    case (Cons d ds)
    then have "concat (map (\<lambda>c. '' 0x'' @ hex_number w (unat c mod 2 ^ 32)) cs) =
        CHR '' '' # ''0x'' @ hex_number w (unat d mod 2 ^ 32) @ concat (map (\<lambda>c. '' 0x'' @ hex_number w (unat c mod 2 ^ 32)) ds)"
      by simp
    then show ?thesis
      using words_plain(2) [OF plain_code(1) b] words_sep [of is_blank "CHR '' ''", OF b] by (simp only:)
  qed
  note rest = this [unfolded words_codes]
  have "words is_blank (''          '' @ x) = words is_blank x" for x
    using b by simp
  then show ?thesis
    unfolding tokens_def one using words_pad_right [OF assms b] rest by (simp only:)
qed

definition in_codes :: "cfg \<Rightarrow> bool" where
  "in_codes s \<longleftrightarrow> fine s \<and> cf_mode s = ID_codes"

text \<open>A button may be called \<open>begin\<close> or \<open>end\<close>: its code is neither \<open>codes\<close> nor \<open>remote\<close>.\<close>

lemma button_named_begin:
  assumes "in_codes s" and "v = ''0x'' @ h"
  shows "exec (begin_line key v vs) s = exec (add_button key v vs) s"
    and "exec (end_line key v vs) s = exec (add_button key v vs) s"
  using assms by (simp_all add: begin_line_def end_line_def in_codes_def strcasecmp_def tolower_def run_bind del: run_state_bind)

lemma length_codes: "length (concat (map (\<lambda>c. '' 0x'' @ hex_number w (unat (c :: ir_code) mod 2 ^ 32)) cs)) \<le> length cs * (3 + max w 8)"
proof (induction cs)
  case Nil
  then show ?case by simp
next
  case (Cons c cs)
  have "length (hex_number w (unat c mod 2 ^ 32)) \<le> max w 8"
    using length_hex_number [of "unat c mod 2 ^ 32" 7 w] by simp
  with Cons show ?case by simp
qed

lemma button_line_short:
  assumes "brief 200 nm" and "length cs \<le> 30" and "w \<le> 16"
  shows "short_line (''          '' @ pad_right 24 nm @ '' 0x'' @ hex_number w (unat (c :: ir_code)) @
      concat (map (\<lambda>c. '' 0x'' @ hex_number w (unat (c :: ir_code) mod 2 ^ 32)) cs))"
    (is "short_line ?l")
proof -
  have hex: "CHR 0x0A \<notin> set (hex_number w v)" for v
    using plain_hex_number(1) [of w v] by (auto simp: list_all_iff plain_char_def)
  have "CHR 0x0A \<notin> set ?l"
    using plain_no_eol [of nm] assms(1) hex by (auto simp: brief_def pad_right_def)
  moreover have "length (hex_number w (unat c)) \<le> 16"
    using length_hex_number [of "unat c" 15 w] unsigned_less [of c] assms(3) by simp
  moreover have "length cs * (3 + max w 8) \<le> 30 * 19"
    using assms(2,3) by (intro mult_le_mono) auto
  then have "length (concat (map (\<lambda>c. '' 0x'' @ hex_number w (unat (c :: ir_code) mod 2 ^ 32)) cs)) \<le> 570"
    using length_codes [of w cs] by linarith
  ultimately show ?thesis
    using assms(1) by (simp add: short_line_def brief_def pad_right_def) linarith
qed

lemma last_hex: "last (x @ hex_number w (unat c) @ concat (map (\<lambda>c. '' 0x'' @ hex_number w (f c)) cs)) \<noteq> CHR 0x0D"
proof (cases cs rule: rev_cases)
  case Nil
  have "plain_char (last (hex_number w (unat c)))"
    using plain_hex_number [of w "unat c"] by (simp add: list_all_iff)
  with Nil show ?thesis by (auto simp: plain_char_def)
next
  case (snoc ds d)
  have "plain_char (last (hex_number w (f d)))"
    using plain_hex_number [of w "f d"] by (simp add: list_all_iff)
  with snoc show ?thesis by (auto simp: plain_char_def)
qed

lemma consumed_button:
  assumes "in_codes s" and "button_ok (r_bits rem) nc" and "\<not> is_raw rem" and "0 \<le> r_bits rem" and "r_bits rem \<le> 64"
  shows "\<exists>txt. fprint_remote_signal rem nc = Some txt \<and> consumed txt s (s\<lparr>cf_codes_list := cf_codes_list s @ [nc]\<rparr>)"
proof -
  let ?w = "nat (quot (r_bits rem + 3) 4)"
  let ?v = "''0x'' @ hex_number ?w (unat (n_code nc))"
  let ?vs = "map (\<lambda>c. ''0x'' @ hex_number ?w (unat c mod 2 ^ 32)) (n_next nc)"
  let ?l = "''          '' @ pad_right 24 (n_name nc) @ '' 0x'' @ hex_number ?w (unat (n_code nc)) @
      concat (map (\<lambda>c. '' 0x'' @ hex_number ?w (unat c mod 2 ^ 32)) (n_next nc))"
  have w: "?w \<le> 16"
    using assms(4,5) by (simp add: quot_nonneg)
  have nc: "brief 200 (n_name nc)" "plain_word (n_name nc)" "\<not> strcasecmp ''include'' (n_name nc)" "length (n_next nc) \<le> 30"
    using assms(2) by (simp_all add: button_ok_def brief_def)
  have add: "exec (add_button (n_name nc) ?v ?vs) s = s\<lparr>cf_codes_list := cf_codes_list s @ [nc]\<rparr>"
    using assms(1,2) by (intro add_button_run) (simp_all add: in_codes_def)
  have "consumed (?l @ eol) s (s\<lparr>cf_codes_list := cf_codes_list s @ [nc]\<rparr>)"
  proof (rule consumed_words)
    show "short_line ?l"
      by (rule button_line_short [OF nc(1,4) w])
    show "tokens ?l = n_name nc # ?v # ?vs"
      by (rule button_line_words [OF nc(2)])
    show "last ?l \<noteq> CHR 0x0D"
      using last_hex [of "''          '' @ pad_right 24 (n_name nc) @ '' 0x''" ?w "n_code nc"] by simp
    show "fine (s\<lparr>cf_codes_list := cf_codes_list s @ [nc]\<rparr>)"
      using assms(1) by (simp add: in_codes_def fine_def)
    show "(if strcasecmp ''begin'' (n_name nc) then exec (begin_line (n_name nc) ?v ?vs) s
      else if strcasecmp ''end'' (n_name nc) then exec (end_line (n_name nc) ?v ?vs) s
      else case cf_mode s of ID_none \<Rightarrow> s
        | ID_remote \<Rightarrow> exec (defineRemote (n_name nc) ?v (case ?vs of [] \<Rightarrow> None | v # _ \<Rightarrow> Some v)) s
        | ID_codes \<Rightarrow> exec (add_button (n_name nc) ?v ?vs) s
        | _ \<Rightarrow> exec (raw_line (n_name nc) ?v ?vs) s) = s\<lparr>cf_codes_list := cf_codes_list s @ [nc]\<rparr>"
      using button_named_begin [OF assms(1) refl] add assms(1) by (simp only: in_codes_def directive.case) simp
  qed (use nc in simp_all)
  then show ?thesis
    using assms(3) by (simp add: fprint_remote_signal_def Let_def)
qed

lemma consumed_buttons:
  assumes "list_all (button_ok (r_bits rem)) ncs" and "\<not> is_raw rem" and "0 \<le> r_bits rem" and "r_bits rem \<le> 64" and "in_codes s"
  shows "\<exists>txts. map (fprint_remote_signal rem) ncs = map Some txts \<and>
    consumed (concat txts) s (s\<lparr>cf_codes_list := cf_codes_list s @ ncs\<rparr>)"
  using assms(1,5)
proof (induction ncs arbitrary: s)
  case Nil
  then show ?case by (intro exI [of _ "[]"]) (simp add: consumed_nothing in_codes_def)
next
  case (Cons nc ncs)
  let ?s = "s\<lparr>cf_codes_list := cf_codes_list s @ [nc]\<rparr>"
  from Cons.prems consumed_button [OF Cons.prems(2) _ assms(2-4)] obtain l where
    t: "fprint_remote_signal rem nc = Some l" "consumed l s ?s"
    by auto
  have "in_codes ?s" using Cons.prems(2) by (simp add: in_codes_def fine_def)
  moreover have "list_all (button_ok (r_bits rem)) ncs" using Cons.prems(1) by simp
  ultimately obtain txts where m: "map (fprint_remote_signal rem) ncs = map Some txts"
    and c: "consumed (concat txts) ?s (?s\<lparr>cf_codes_list := cf_codes_list ?s @ ncs\<rparr>)"
    using Cons.IH by blast
  have "consumed (l @ concat txts) s (?s\<lparr>cf_codes_list := cf_codes_list ?s @ ncs\<rparr>)"
    by (rule consumed_append [OF t(2) c])
  with t(1) m show ?case
    by (intro exI [of _ "l # txts"]) simp
qed

subsection \<open>A remote and a file\<close>

text \<open>
  A remote as the parser leaves it, that the printer can print in full: no raw codes, no serial frame,
  no setting the file has no line for, codes within their bits.
\<close>

definition recordable :: "ir_remote \<Rightarrow> bool" where
  "recordable rem \<longleftrightarrow> head_ok rem \<and> fresh rem \<and> \<not> has_flag rem REVERSE \<and> fix_toggle rem = rem \<and> fix_repeat rem = rem \<and>
     (\<not> has_toggle_bit_mask rem \<longrightarrow> r_toggle_bit_mask_state rem = 0) \<and> r_bits rem \<le> 64 \<and>
     masked (r_pre_data_bits rem) (r_pre_data rem) \<and> masked (r_post_data_bits rem) (r_post_data rem) \<and>
     (\<exists>ncs. r_codes rem = Some ncs \<and> list_all (button_ok (r_bits rem)) ncs)"

text \<open>What the lines of the head make of a fresh remote.\<close>

lemma reads_head:
  assumes "recordable rem"
  shows "\<exists>body. fprint_remote_head rem = ''begin remote'' @ eol @ eol @ body \<and>
    reads body zero_remote (rem\<lparr>r_codes := None, r_toggle_bit_mask_state := 0\<rparr>)"
proof -
  from assms have h: "head_ok rem" and f: "fresh rem" by (simp_all add: recordable_def)
  from h obtain n where n: "r_name rem = Some n" by (auto simp: head_ok_def)
  show ?thesis
    using reads_fields [OF h n] n f by (cases rem) (simp add: zero_remote_def fresh_def)
qed

definition idle :: "cfg \<Rightarrow> ir_remote list \<Rightarrow> bool" where
  "idle s rems \<longleftrightarrow> fine s \<and> cf_mode s = ID_none \<and> cf_remotes s = rems \<and> (rems = [] \<or> Suc (cf_rem s) = length rems)"

lemma consumed_key_line:
  assumes "CHR 0x0A \<notin> set l" and "length l \<le> 50" and "l \<noteq> []" and "hd l \<noteq> CHR ''#''" and "last l \<noteq> CHR 0x0D"
    and "tokens l = [key, v]" and "\<not> strcasecmp ''include'' key" and "fine t"
    and "strcasecmp ''begin'' key \<Longrightarrow> exec (begin_line key v []) s = t"
    and "\<not> strcasecmp ''begin'' key \<Longrightarrow> strcasecmp ''end'' key \<and> exec (end_line key v []) s = t"
  shows "consumed (l @ eol) s t"
proof (rule consumed_words [OF _ _ assms(5,6,7) _ assms(8)])
  show "short_line l" using assms(1,2) by (simp add: short_line_def)
  show "take 1 l \<noteq> ''#''" using assms(3,4) by (cases l) auto
qed (use assms(9,10) in auto)

lemma consumed_begin_remote:
  assumes "idle s rems"
  shows "\<exists>t. consumed (''begin remote'' @ eol) s t \<and> in_remote t zero_remote \<and>
    cf_remotes t = rems @ [zero_remote] \<and> cf_rem t = length rems"
proof -
  let ?t = "s\<lparr>cf_mode := ID_remote, cf_remotes := rems @ [zero_remote], cf_rem := length rems\<rparr>"
  have "exec (begin_line ''begin'' ''remote'' []) s = ?t"
    using assms by (auto simp: idle_def begin_line_def strcasecmp_def tolower_def checkMode_run link_remotes_def)
  moreover have "tokens ''begin remote'' = [''begin'', ''remote'']"
    by (simp add: tokens_def is_blank_def)
  ultimately have "consumed (''begin remote'' @ eol) s ?t"
    using assms by (intro consumed_key_line [where key = "''begin''" and v = "''remote''"]) (simp_all add: idle_def fine_def strcasecmp_def tolower_def)
  then show ?thesis
    using assms by (intro exI [of _ ?t]) (simp add: idle_def in_remote_def fine_def)
qed

lemma consumed_begin_codes:
  assumes "in_remote s rem" and "r_codes rem = None"
  shows "consumed (''      begin codes'' @ eol) s (s\<lparr>cf_codes_list := [], cf_mode := ID_codes\<rparr>)"
proof (rule consumed_key_line)
  show "tokens ''      begin codes'' = [''begin'', ''codes'']"
    by (simp add: tokens_def is_blank_def)
  show "exec (begin_line ''begin'' ''codes'' []) s = s\<lparr>cf_codes_list := [], cf_mode := ID_codes\<rparr>"
    using assms by (simp add: in_remote_def begin_line_def strcasecmp_def tolower_def checkMode_run has_codes_def)
qed (use assms in \<open>simp_all add: in_remote_def fine_def strcasecmp_def tolower_def\<close>)

lemma consumed_end_codes:
  assumes "in_codes s"
  shows "consumed (''      end codes'' @ eol) s
    (s\<lparr>cf_remotes := (cf_remotes s)[cf_rem s := (cf_remotes s ! cf_rem s)\<lparr>r_codes := Some (cf_codes_list s)\<rparr>], cf_mode := ID_remote\<rparr>)"
    (is "consumed _ s ?t")
proof (rule consumed_key_line)
  show "tokens ''      end codes'' = [''end'', ''codes'']"
    by (simp add: tokens_def is_blank_def)
  show "strcasecmp ''end'' ''end'' \<and> exec (end_line ''end'' ''codes'' []) s = ?t"
    using assms by (simp add: in_codes_def end_line_def strcasecmp_def tolower_def checkMode_run set_rem_def)
qed (use assms in \<open>simp_all add: in_codes_def fine_def strcasecmp_def tolower_def\<close>)

lemma mask_button: "button_ok bits nc \<Longrightarrow> mask_code bits nc = nc"
proof -
  assume b: "button_ok bits nc"
  then have "map (\<lambda>c. c AND gen_mask bits) (n_next nc) = n_next nc"
    by (intro map_idI) (auto simp: button_ok_def masked_def list_all_iff)
  with b show ?thesis
    by (cases nc) (simp add: mask_code_def button_ok_def masked_def)
qed

lemma consumed_end_remote:
  assumes "in_remote s r" and "cf_remotes s = rems @ [r]" and "cf_rem s = length rems" and "r_name r \<noteq> None"
    and "masked (r_pre_data_bits r) (r_pre_data r)" and "masked (r_post_data_bits r) (r_post_data r)"
    and "r_codes r = Some ncs" and "list_all (button_ok (r_bits r)) ncs" and "r_last_code r = None"
  shows "\<exists>t. consumed (''end remote'' @ eol) s t \<and> idle t (rems @ [r])"
proof -
  let ?t = "s\<lparr>cf_mode := ID_none\<rparr>"
  have "map (mask_code (r_bits r)) ncs = ncs"
    using assms(8) by (intro map_idI) (auto simp: list_all_iff mask_button)
  then have "sanityChecks r = Some (True, r)"
    using assms(4-7) by (cases r) (auto simp: sanityChecks_def masked_def)
  moreover have "r\<lparr>r_last_code := None\<rparr> = r"
    using assms(9) by (cases r) simp
  ultimately have "exec end_remote s = ?t"
    using assms(1-3) by (simp add: end_remote_def set_rem_def in_remote_def)
  then have "exec (end_line ''end'' ''remote'' []) s = ?t"
    using assms(1) by (simp add: end_line_def strcasecmp_def tolower_def checkMode_run in_remote_def run_bind del: run_state_bind)
  moreover have "tokens ''end remote'' = [''end'', ''remote'']"
    by (simp add: tokens_def is_blank_def)
  ultimately have "consumed (''end remote'' @ eol) s ?t"
    using assms(1) by (intro consumed_key_line [where key = "''end''" and v = "''remote''"]) (simp_all add: in_remote_def fine_def strcasecmp_def tolower_def)
  then show ?thesis
    using assms(1-3) by (intro exI [of _ ?t]) (simp add: idle_def in_remote_def fine_def)
qed

lemma stored_is:
  assumes "recordable rem"
  shows "finish_remote (rem\<lparr>r_toggle_bit_mask_state := 0\<rparr>) = Some rem"
proof -
  let ?r = "rem\<lparr>r_toggle_bit_mask_state := 0\<rparr>"
  have raw: "\<not> is_raw rem" "\<not> is_serial rem" "\<not> has_flag rem REVERSE" "r_toggle_bit rem = 0" "fix_toggle rem = rem" "fix_repeat rem = rem"
    using assms by (simp_all add: recordable_def head_ok_def fresh_def)
  obtain ncs where ncs: "r_codes rem = Some ncs" using assms by (auto simp: recordable_def)
  have "fix_toggle ?r = rem"
  proof (cases "has_toggle_bit_mask rem")
    case True
    with raw(1,4) ncs have "fix_toggle ?r = fix_toggle rem"
      by (simp add: fix_toggle_def has_toggle_bit_mask_def is_raw_def protocol_def has_flag_def Let_def)
    with raw(5) show ?thesis by simp
  next
    case False
    with assms have "?r = rem" by (cases rem) (simp add: recordable_def)
    with raw(5) show ?thesis by simp
  qed
  moreover have "kick_reverse ?r = Some ?r"
    using raw(3) by (simp add: kick_reverse_def has_flag_def is_raw_def protocol_def)
  moreover have "fix_serial rem = rem"
    using raw(2) by (simp add: fix_serial_def)
  ultimately show ?thesis
    using raw(6) by (simp add: finish_remote_def)
qed

text \<open>The comment in front of a remote.\<close>

definition comment_ok :: "string \<Rightarrow> string \<Rightarrow> bool" where
  "comment_ok hw_name d \<longleftrightarrow> CHR 0x0A \<notin> set hw_name \<and> length hw_name \<le> 400 \<and>
     CHR 0x0A \<notin> set d \<and> length d \<le> 400 \<and> d \<noteq> [] \<and> last d \<noteq> CHR 0x0D"

lemma consumed_text:
  assumes "fine s" and "list_all (\<lambda>l. l = [] \<or> short_line l \<and> take 1 l = ''#'' \<and> last l \<noteq> CHR 0x0D) ls"
  shows "consumed (concat (map (\<lambda>l. l @ eol) ls)) s s"
  using assms(2)
proof (induction ls)
  case Nil
  with assms(1) show ?case by (simp add: consumed_nothing)
next
  case (Cons l ls)
  then have "consumed (l @ eol) s s"
    using consumed_comment [of l s] consumed_empty [of s] assms(1) by auto
  with Cons show ?case using consumed_append [of "l @ eol" s s "concat (map (\<lambda>l. l @ eol) ls)" s] by simp
qed

lemma consumed_comments:
  assumes "fine s" and "comment_ok hw_name d" and "r_name rem = Some n" and "brief 900 n"
  shows "consumed (fprint_comment hw_name (d @ eol) rem) s s"
proof -
  let ?ls = "[''#'', ''# this config file was automatically generated'', ''# using lirc-0.9.0('' @ hw_name @ '') on '' @ d,
    ''#'', ''# contributed by '', ''#'', ''# brand:                       '' @ n, ''# model no. of remote control: '',
    ''# devices being controlled by this remote:'', ''#'', []]"
  have n: "CHR 0x0A \<notin> set n" "last n \<noteq> CHR 0x0D" "n \<noteq> []" "length n \<le> 900"
    using assms(4) plain_no_eol [of n] plain_last [of n] by (auto simp: brief_def plain_word_def)
  have "list_all (\<lambda>l. l = [] \<or> short_line l \<and> take 1 l = ''#'' \<and> last l \<noteq> CHR 0x0D) ?ls"
    using assms(2) n by (simp add: short_line_def comment_ok_def)
  then have "consumed (concat (map (\<lambda>l. l @ eol) ?ls)) s s"
    by (rule consumed_text [OF assms(1)])
  moreover have "fprint_comment hw_name (d @ eol) rem = concat (map (\<lambda>l. l @ eol) ?ls)"
    using assms(3) by (simp add: fprint_comment_def name_text_def)
  ultimately show ?thesis by simp
qed

lemma print_all_some [simp]: "print_all (map Some xs) = Some (concat xs)"
  by (induction xs) auto

lemma print_all_cons [simp]: "print_all (Some x # ts) = map_option (\<lambda>xs. x @ xs) (print_all ts)"
  by (simp split: option.split)

lemma print_all_append: "print_all (xs @ ys) =
    (case (print_all xs, print_all ys) of (Some a, Some b) \<Rightarrow> Some (a @ b) | _ \<Rightarrow> None)"
  by (induction xs) (auto split: option.splits)

lemma idle_eol: "idle s rems \<Longrightarrow> consumed eol s s"
  by (simp add: idle_def consumed_empty)

text \<open>The codes of a remote, between their begin and their end.\<close>

lemma consumed_signals:
  assumes "in_remote s r" and "r_codes r = None" and "r_codes rem = Some ncs" and "list_all (button_ok (r_bits rem)) ncs"
    and "\<not> is_raw rem" and "0 \<le> r_bits rem" and "r_bits rem \<le> 64"
  shows "\<exists>body t. fprint_remote_signals rem = Some body \<and> consumed body s t \<and> in_remote t (r\<lparr>r_codes := Some ncs\<rparr>) \<and>
    cf_remotes t = (cf_remotes s)[cf_rem s := r\<lparr>r_codes := Some ncs\<rparr>] \<and> cf_rem t = cf_rem s"
proof -
  let ?s1 = "s\<lparr>cf_codes_list := [], cf_mode := ID_codes\<rparr>"
  have c1: "consumed (fprint_remote_signal_head rem) s ?s1"
    using consumed_begin_codes [OF assms(1,2)] assms(5) unfolding fprint_remote_signal_head_def by (simp only: if_True simp_thms)
  have s1: "in_codes ?s1" using assms(1) by (simp add: in_codes_def in_remote_def fine_def)
  let ?s2 = "?s1\<lparr>cf_codes_list := ncs\<rparr>"
  obtain txts where m: "map (fprint_remote_signal rem) ncs = map Some txts" and c2: "consumed (concat txts) ?s1 ?s2"
    using consumed_buttons [OF assms(4-7) s1] by auto
  have s2: "in_codes ?s2" using s1 by (simp add: in_codes_def fine_def)
  let ?s3 = "?s2\<lparr>cf_remotes := (cf_remotes s)[cf_rem s := r\<lparr>r_codes := Some ncs\<rparr>], cf_mode := ID_remote\<rparr>"
  have "consumed (''      end codes'' @ eol) ?s2 ?s3"
    using consumed_end_codes [OF s2] assms(1) by (simp add: in_remote_def del: append_Cons)
  moreover have s3: "in_remote ?s3 (r\<lparr>r_codes := Some ncs\<rparr>)"
    using assms(1) by (simp add: in_remote_def fine_def)
  then have "consumed eol ?s3 ?s3" by (simp add: in_remote_def consumed_empty)
  ultimately have c3: "consumed (fprint_remote_signal_foot rem) ?s2 ?s3"
    unfolding fprint_remote_signal_foot_def using assms(5) consumed_append by (simp only: if_True simp_thms) fastforce
  have "consumed (fprint_remote_signal_head rem @ concat txts @ fprint_remote_signal_foot rem) s ?s3"
    using c1 c2 c3 by (blast intro: consumed_append)
  moreover have "fprint_remote_signals rem = Some (fprint_remote_signal_head rem @ concat txts @ fprint_remote_signal_foot rem)"
    using assms(3) m by (simp add: fprint_remote_signals_def print_all_append)
  ultimately show ?thesis
    using s3 by (intro exI [of _ "fprint_remote_signal_head rem @ concat txts @ fprint_remote_signal_foot rem"] exI [of _ ?s3]) simp
qed

lemma consumed_remote:
  assumes "idle s rems" and "recordable rem" and "comment_ok hw_name d"
  shows "\<exists>body t. fprint_remote hw_name (d @ eol) rem = Some body \<and> consumed (body @ eol @ eol) s t \<and>
    idle t (rems @ [rem\<lparr>r_toggle_bit_mask_state := 0\<rparr>])"
proof -
  let ?h = "rem\<lparr>r_codes := None, r_toggle_bit_mask_state := 0\<rparr>" and ?r = "rem\<lparr>r_toggle_bit_mask_state := 0\<rparr>"
  obtain n ncs where n: "r_name rem = Some n" "brief 900 n" and ncs: "r_codes rem = Some ncs" "list_all (button_ok (r_bits rem)) ncs"
    and bits: "\<not> is_raw rem" "0 \<le> r_bits rem" "r_bits rem \<le> 64"
    and masks: "masked (r_pre_data_bits rem) (r_pre_data rem)" "masked (r_post_data_bits rem) (r_post_data rem)" "r_last_code rem = None"
    using assms(2) by (auto simp: recordable_def head_ok_def fresh_def counted_def)
  have c0: "consumed (fprint_comment hw_name (d @ eol) rem) s s"
    using assms(1) by (intro consumed_comments [OF _ assms(3) n]) (simp add: idle_def)
  obtain t where c1: "consumed (''begin remote'' @ eol) s t" and t: "in_remote t zero_remote"
    "cf_remotes t = rems @ [zero_remote]" "cf_rem t = length rems"
    using consumed_begin_remote [OF assms(1)] by blast
  have c2: "consumed eol t t" using t(1) by (simp add: in_remote_def consumed_empty)
  obtain fields where f: "fprint_remote_head rem = ''begin remote'' @ eol @ eol @ fields" "reads fields zero_remote ?h"
    using reads_head [OF assms(2)] by blast
  let ?t = "with_rem ?h t"
  have c3: "consumed fields t ?t" using f(2) t(1) by (simp add: reads_def)
  have t': "in_remote ?t ?h" "cf_remotes ?t = rems @ [?h]" "cf_rem ?t = length rems"
    using t by (simp_all add: with_rem_def in_remote_def fine_def)
  obtain sigs u where g: "fprint_remote_signals rem = Some sigs" "consumed sigs ?t u" "in_remote u (?h\<lparr>r_codes := Some ncs\<rparr>)"
    "cf_remotes u = (cf_remotes ?t)[cf_rem ?t := ?h\<lparr>r_codes := Some ncs\<rparr>]" "cf_rem u = cf_rem ?t"
    using consumed_signals [OF t'(1) _ ncs bits] by auto
  have "?h\<lparr>r_codes := Some ncs\<rparr> = ?r" using ncs(1) by (cases rem) simp
  with g(3-5) t'(2,3) have u: "in_remote u ?r" "cf_remotes u = rems @ [?r]" "cf_rem u = length rems"
    by simp_all
  obtain v where c5: "consumed (''end remote'' @ eol) u v" and v: "idle v (rems @ [?r])"
    using consumed_end_remote [OF u, of ncs] n(1) masks ncs by auto
  have "consumed ((fprint_comment hw_name (d @ eol) rem @ (''begin remote'' @ eol) @ eol @ fields @ sigs @ (''end remote'' @ eol)) @ eol @ eol) s v"
    using c0 c1 c2 c3 g(2) c5 idle_eol [OF v] by (blast intro: consumed_append)
  moreover have "fprint_remote hw_name (d @ eol) rem =
      Some (fprint_comment hw_name (d @ eol) rem @ (''begin remote'' @ eol) @ eol @ fields @ sigs @ (''end remote'' @ eol))"
    using g(1) f(1) by (simp add: fprint_remote_def fprint_remote_foot_def)
  ultimately show ?thesis using v by blast
qed

lemma consumed_remotes:
  assumes "list_all recordable rems" and "comment_ok hw_name d" and "idle s done"
  shows "\<exists>body t. fprint_remotes hw_name (d @ eol) rems = Some body \<and> consumed body s t \<and>
    idle t (done @ map (\<lambda>rem. rem\<lparr>r_toggle_bit_mask_state := 0\<rparr>) rems)"
  using assms(1,3)
proof (induction rems arbitrary: s "done")
  case Nil
  then show ?case by (intro exI [of _ "[]"] exI [of _ s]) (simp add: fprint_remotes_def idle_def consumed_nothing)
next
  case (Cons rem rems)
  obtain b t where b: "fprint_remote hw_name (d @ eol) rem = Some b" "consumed (b @ eol @ eol) s t"
    "idle t (done @ [rem\<lparr>r_toggle_bit_mask_state := 0\<rparr>])"
    using consumed_remote [OF Cons.prems(2) _ assms(2), of rem] Cons.prems(1) by auto
  obtain bs u where bs: "fprint_remotes hw_name (d @ eol) rems = Some bs" "consumed bs t u"
    "idle u ((done @ [rem\<lparr>r_toggle_bit_mask_state := 0\<rparr>]) @ map (\<lambda>rem. rem\<lparr>r_toggle_bit_mask_state := 0\<rparr>) rems)"
    using Cons.IH [OF _ b(3)] Cons.prems(1) by auto
  have "fprint_remotes hw_name (d @ eol) (rem # rems) = Some ((b @ eol @ eol) @ bs)"
    using b(1) bs(1) by (simp add: fprint_remotes_def)
  moreover have "consumed ((b @ eol @ eol) @ bs) s u"
    by (rule consumed_append [OF b(2) bs(2)])
  ultimately show ?case using bs(3) by (intro exI [of _ "(b @ eol @ eol) @ bs"] exI [of _ u]) simp
qed

lemma read_consumed:
  assumes "consumed body cfg_init t" and "idle t (map (\<lambda>rem. rem\<lparr>r_toggle_bit_mask_state := 0\<rparr>) rems)"
    and "list_all recordable rems"
  shows "read_config files name body = (False, False, sort_by_bit_count rems)"
proof -
  have "read_text inc deep nm (body @ []) cfg_init = t" for inc deep nm
    using assms(1) unfolding consumed_def by (simp only: buffers.simps [of "[]"]) simp
  moreover have m: "map (finish_remote \<circ> (\<lambda>rem. rem\<lparr>r_toggle_bit_mask_state := 0\<rparr>)) rems = map Some rems"
    using assms(3) stored_is by (simp add: list_all_iff)
  from arg_cong [OF this, of "map the"] have "finish_config t = (False, False, sort_by_bit_count rems)"
    using assms(2) by (simp add: finish_config_def idle_def fine_def Let_def comp_def image_iff)
      (metis (no_types) assms(3) list_all_iff option.distinct(1) stored_is)
  ultimately show ?thesis
    by (simp add: read_config_def eval_nat_numeral del: buffers.simps)
qed

lemma idle_init: "idle cfg_init []"
  by (simp add: idle_def cfg_init_def fine_def)

text \<open>
  C9: a recorded configuration survives the round trip through its file. For any remotes without raw
  codes and serial frames, whose settings the file format can hold, the text \<open>fprint_remotes\<close> prints is
  read by \<open>read_config\<close> without error and gives the same remotes, in the order of their bits.
\<close>

theorem dump_read_roundtrip:
  assumes "list_all recordable rems" and "comment_ok hw_name d"
  shows "\<exists>body. fprint_remotes hw_name (d @ eol) rems = Some body \<and>
    read_config files name body = (False, False, sort_by_bit_count rems)"
  using consumed_remotes [OF assms idle_init] read_consumed [OF _ _ assms(1)] by auto

lemma nec_recordable: "recordable nec_remote"
proof -
  have "r_name nec_remote = Some ''nec''" "r_codes nec_remote = Some nec_codes"
    by (simp_all add: nec_remote_def)
  moreover have "brief 900 ''nec''" "list_all (button_ok (r_bits nec_remote)) nec_codes" "printable_flags (r_flags nec_remote)"
    by code_simp+
  moreover have "\<not> is_raw nec_remote" "\<not> is_serial nec_remote" "fresh nec_remote" "\<not> has_flag nec_remote REVERSE"
    "fix_toggle nec_remote = nec_remote" "fix_repeat nec_remote = nec_remote" "r_toggle_bit_mask_state nec_remote = 0"
    by code_simp+
  moreover have "masked (r_pre_data_bits nec_remote) (r_pre_data nec_remote)"
    "masked (r_post_data_bits nec_remote) (r_post_data nec_remote)" "r_bits nec_remote \<le> 64"
    by code_simp+
  ultimately show ?thesis
    by (simp add: recordable_def head_ok_def) (simp add: nec_remote_def zero_remote_def counted_def in32_def paired_def u32_def)
qed

theorem dump_read_roundtrip_witness:
  "\<exists>body. fprint_remotes ''Irdroid'' (''Wed Jan 02 02:03:55 1980'' @ eol) [nec_remote] = Some body \<and>
    read_config (\<lambda>_. None) None body = (False, False, [nec_remote])"
proof -
  have "comment_ok ''Irdroid'' ''Wed Jan 02 02:03:55 1980''" by code_simp
  from dump_read_roundtrip [OF _ this, of "[nec_remote]" "\<lambda>_. None" None] nec_recordable show ?thesis
    by (simp add: sort_by_bit_count_def)
qed

end
