(* ===== verification/IRRecordLaws.thy ===== *)
theory IRRecordLaws
  imports IRRecord DumpLaws
begin

text \<open>
  Moving the shared bits into the pre and post data changes no signal: the bits a code stands for are
  the same before and after.
\<close>

definition button_codes :: "ir_remote \<Rightarrow> ir_code list" where
  "button_codes remote =
     (case r_codes remote of None \<Rightarrow> [] | Some ncs \<Rightarrow> concat (map (\<lambda>nc. n_code nc # n_next nc) ncs))"

subsection \<open>The bits the codes agree in\<close>

lemma agreement_fold:
  assumes "fold agree_step cs (m, c0) = (m', l)"
  shows "l = List.last (c0 # cs)" and "bit m' i \<Longrightarrow> bit m i \<and> (\<forall>c \<in> set (c0 # cs). bit c i = bit l i)"
proof -
  have "l = List.last (c0 # cs) \<and> (bit m' i \<longrightarrow> bit m i \<and> (\<forall>c \<in> set (c0 # cs). bit c i = bit l i))"
    using assms
  proof (induction cs arbitrary: m c0)
    case Nil
    then show ?case by simp
  next
    case (Cons c cs)
    from Cons.IH [of "m AND NOT (c0 XOR c)" c] Cons.prems
    have IH: "l = List.last (c # cs)"
      "bit m' i \<longrightarrow> bit (m AND NOT (c0 XOR c)) i \<and> (\<forall>c \<in> set (c # cs). bit c i = bit l i)"
      by (simp_all add: agree_step_def)
    show ?case
    proof (intro conjI impI)
      show "l = List.last (c0 # c # cs)" using IH(1) by simp
      assume "bit m' i"
      with IH(2) have step: "bit (m AND NOT (c0 XOR c)) i" "\<forall>c \<in> set (c # cs). bit c i = bit l i"
        by blast+
      then show "bit m i" by (simp add: bit_and_iff)
      from step(1) have "bit c0 i = bit c i"
        using bit_imp_le_length [OF step(1)] by (simp add: bit_simps)
      with step(2) show "\<forall>c \<in> set (c0 # c # cs). bit c i = bit l i" by simp
    qed
  qed
  then show "l = List.last (c0 # cs)" and "bit m' i \<Longrightarrow> bit m i \<and> (\<forall>c \<in> set (c0 # cs). bit c i = bit l i)"
    by blast+
qed

lemma agreement_codes:
  assumes "agreement ncs = (agree, l)" and "ncs \<noteq> []" and "n_next (hd ncs) = []" and "bit agree i"
    and "c \<in> set (concat (map (\<lambda>nc. n_code nc # n_next nc) ncs))"
  shows "bit c i = bit l i"
proof -
  have "concat (map (\<lambda>nc. n_code nc # n_next nc) ncs) =
      n_code (hd ncs) # concat (map (\<lambda>nc. n_code nc # n_next nc) (tl ncs))"
    using assms(2,3) by (cases ncs) simp_all
  with agreement_fold(2) [OF assms(1) [unfolded agreement_def] assms(4)] assms(5) show ?thesis
    by (auto simp del: set_concat)
qed

lemma takeWhile_nth: "i < length (takeWhile P xs) \<Longrightarrow> P (xs ! i)"
  by (metis nth_mem set_takeWhileD takeWhile_nth)

lemma leading_ones_bits: "0 \<le> leading_ones m" "leading_ones m \<le> 64"
  "64 - leading_ones m \<le> int i \<Longrightarrow> i < 64 \<Longrightarrow> bit m i"
proof -
  have len: "length (takeWhile (bit m) (rev [0..<64])) \<le> 64"
    using length_takeWhile_le [of "bit m" "rev [0..<64]"] by simp
  then show "0 \<le> leading_ones m" "leading_ones m \<le> 64"
    by (simp_all add: leading_ones_def)
  assume i: "64 - leading_ones m \<le> int i" "i < 64"
  then have "63 - i < length (takeWhile (bit m) (rev [0..<64]))"
    using len by (simp add: leading_ones_def)
  from takeWhile_nth [OF this] i(2) show "bit m i" by (simp add: rev_nth)
qed

lemma trailing_ones_bits: "0 \<le> trailing_ones m" "trailing_ones m \<le> 64" "int i < trailing_ones m \<Longrightarrow> bit m i"
proof -
  have len: "length (takeWhile (bit m) [0..<64]) \<le> 64"
    using length_takeWhile_le [of "bit m" "[0..<64]"] by simp
  then show "0 \<le> trailing_ones m" "trailing_ones m \<le> 64"
    by (simp_all add: trailing_ones_def)
  assume i: "int i < trailing_ones m"
  then have "i < length (takeWhile (bit m) [0..<64])" by (simp add: trailing_ones_def)
  from takeWhile_nth [OF this] len this show "bit m i" by simp
qed

lemma even_count_le: "0 < even_count bits n \<Longrightarrow> even_count bits n \<le> n"
proof -
  assume pos: "0 < even_count bits n"
  have "0 \<le> n"
  proof (rule ccontr)
    assume neg: "\<not> 0 \<le> n"
    then have "quot n 8 \<le> 0" by (simp add: quot_def sgn_if)
    with pos neg show False by (simp add: even_count_def rmd_def split: if_splits)
  qed
  then show ?thesis by (simp add: even_count_def rmd_nonneg)
qed

subsection \<open>A field that is cut in two\<close>

lemma field_bits_nth: "i < nat bits \<Longrightarrow> field_bits data bits ! i = bit data (nat bits - Suc i)"
  by (simp add: field_bits_def rev_nth)

lemma field_bits_0 [simp]: "field_bits data 0 = []"
  by (simp add: field_bits_def)

lemma field_bits_cut:
  assumes "0 \<le> high" and "0 \<le> low"
    and "\<And>i. i < nat high \<Longrightarrow> bit a i = bit c (nat low + i)"
    and "\<And>i. i < nat low \<Longrightarrow> bit b i = bit c i"
  shows "field_bits a high @ field_bits b low = field_bits c (high + low)"
proof (rule nth_equalityI)
  show "length (field_bits a high @ field_bits b low) = length (field_bits c (high + low))"
    using assms(1,2) by (simp add: nat_add_distrib)
  fix i assume "i < length (field_bits a high @ field_bits b low)"
  then have i: "i < nat high + nat low" by simp
  show "(field_bits a high @ field_bits b low) ! i = field_bits c (high + low) ! i"
  proof (cases "i < nat high")
    case True
    then have "nat low + (nat high - Suc i) = nat (high + low) - Suc i"
      using assms(1,2) by (simp add: nat_add_distrib)
    with True assms show ?thesis
      by (simp add: nth_append field_bits_nth nat_add_distrib)
  next
    case False
    then have "nat low - Suc (i - nat high) = nat high + nat low - Suc i" and "i - nat high < nat low"
      using i by simp_all
    moreover have "bit b (nat low - Suc (i - nat high)) = bit c (nat low - Suc (i - nat high))"
      using False i by (intro assms(4)) simp
    moreover have "i < nat (high + low)" using i assms(1,2) by (simp add: nat_add_distrib)
    ultimately show ?thesis
      using False assms(1,2) by (simp add: nth_append field_bits_nth nat_add_distrib)
  qed
qed

subsection \<open>The pre and post data\<close>

definition single_first :: "ir_remote \<Rightarrow> bool" where
  "single_first remote \<longleftrightarrow> (case r_codes remote of Some (nc # _) \<Rightarrow> n_next nc = [] | _ \<Rightarrow> True)"

lemma shared_bit:
  assumes "agreement ncs = (agree, l)" and "r_codes rem = Some ncs" and "2 \<le> length ncs" and "single_first rem"
    and "c \<in> set (button_codes rem)" and "bit agree i"
  shows "bit c i = bit l i"
proof -
  have ne: "ncs \<noteq> []" using assms(3) by auto
  have "n_next (hd ncs) = []" using assms(2,4) ne by (cases ncs) (simp_all add: single_first_def)
  with agreement_codes [OF assms(1) ne _ assms(6)] assms(2,5) show ?thesis
    by (simp add: button_codes_def del: set_concat)
qed

lemma button_codes_map:
  "r_codes rem = Some ncs \<Longrightarrow> r_codes rem' = Some (map (map_codes f) ncs) \<Longrightarrow>
    button_codes rem' = map f (button_codes rem)"
  by (simp add: button_codes_def map_concat comp_def map_codes_def)

lemma get_pre_data_moves:
  assumes "get_pre_data rem = Some rem'" and "r_bits rem \<le> 64" and "rem' \<noteq> rem"
  obtains ncs agree l n low where "r_codes rem = Some ncs" and "2 \<le> length ncs" and "agreement ncs = (agree, l)"
    and "0 < n" and "0 \<le> low" and "low + n = r_bits rem" and "n \<le> leading_ones agree - (64 - r_bits rem)"
    and "rem' = rem\<lparr>r_bits := low, r_pre_data_bits := n, r_pre_data := shr64 (l AND shl64 (gen_mask n) low) low,
         r_codes := Some (map (map_codes (\<lambda>c. c AND NOT (shl64 (gen_mask n) low))) ncs)\<rparr>"
proof -
  obtain ncs where ncs: "r_codes rem = Some ncs"
    using assms(1,3) by (auto simp: get_pre_data_def split: if_splits option.splits)
  obtain agree l where agree: "agreement ncs = (agree, l)" by fastforce
  define n where "n = even_count (r_bits rem) (leading_ones agree - (64 - r_bits rem))"
  have pos: "0 < n" "2 \<le> length ncs"
    and rem': "rem' = rem\<lparr>r_bits := r_bits rem - n, r_pre_data_bits := n,
         r_pre_data := shr64 (l AND shl64 (gen_mask n) (r_bits rem - n)) (r_bits rem - n),
         r_codes := Some (map (map_codes (\<lambda>c. c AND NOT (shl64 (gen_mask n) (r_bits rem - n)))) ncs)\<rparr>"
    using assms(1,3) by (auto simp: get_pre_data_def ncs agree n_def Let_def split: if_splits)
  have le: "n \<le> leading_ones agree - (64 - r_bits rem)"
    using pos(1) even_count_le unfolding n_def by blast
  show ?thesis
    using le leading_ones_bits(2) [of agree] by (intro that [OF ncs pos(2) agree pos(1) _ _ le rem']) simp_all
qed

lemma get_pre_data_bits:
  assumes "get_pre_data rem = Some rem'" and "r_bits rem \<le> 64" and "r_pre_data_bits rem = 0" and "single_first rem"
  shows "map (all_bits rem') (button_codes rem') = map (all_bits rem) (button_codes rem)"
proof (cases "rem' = rem")
  case False
  obtain ncs agree l n low where ncs: "r_codes rem = Some ncs" "2 \<le> length ncs" and agree: "agreement ncs = (agree, l)"
    and low: "0 < n" "0 \<le> low" "low + n = r_bits rem" and le: "n \<le> leading_ones agree - (64 - r_bits rem)"
    and rem': "rem' = rem\<lparr>r_bits := low, r_pre_data_bits := n, r_pre_data := shr64 (l AND shl64 (gen_mask n) low) low,
         r_codes := Some (map (map_codes (\<lambda>c. c AND NOT (shl64 (gen_mask n) low))) ncs)\<rparr>"
    by (rule get_pre_data_moves [OF assms(1,2) False])
  let ?field = "shl64 (gen_mask n) low"
  have same: "all_bits rem' (c AND NOT (?field)) = all_bits rem c" if c: "c \<in> set (button_codes rem)" for c
  proof -
    have high: "bit c (nat low + i) = bit l (nat low + i)" if "i < nat n" for i
      using le low that assms(2)
      by (intro shared_bit [OF agree ncs assms(4) c] leading_ones_bits(3)) simp_all
    have "field_bits (shr64 (l AND ?field) low) n @ field_bits (c AND NOT (?field)) low = field_bits c (n + low)"
    proof (rule field_bits_cut)
      show "0 \<le> n" "0 \<le> low" using low by simp_all
      fix i
      show "bit (shr64 (l AND ?field) low) i = bit c (nat low + i)" if "i < nat n"
        using that high [OF that] low assms(2) bit_imp_le_length [of l "nat low + i"]
        by (auto simp: bit_shr64 bit_and_iff bit_shl64 bit_gen_mask)
      show "bit (c AND NOT (?field)) i = bit c i" if "i < nat low"
        using that bit_imp_le_length [of c i]
        by (auto simp: bit_simps bit_shl64)
    qed
    then show ?thesis using low(3) by (simp add: all_bits_def rem' assms(3) add.commute)
  qed
  have "button_codes rem' = map (\<lambda>c. c AND NOT (?field)) (button_codes rem)"
    by (rule button_codes_map [OF ncs(1)]) (simp add: rem')
  with same show ?thesis by simp
qed simp

text \<open>Some bit within the remote's codes tells two buttons apart.\<close>

definition told_apart :: "ir_remote \<Rightarrow> bool" where
  "told_apart remote \<longleftrightarrow> length (case r_codes remote of None \<Rightarrow> [] | Some ncs \<Rightarrow> ncs) < 2 \<or>
     (\<exists>c \<in> set (button_codes remote). \<exists>d \<in> set (button_codes remote). \<exists>i < nat (r_bits remote). bit c i \<noteq> bit d i)"

lemma agreement_below:
  assumes "agreement ncs = (agree, l)" and "r_codes rem = Some ncs" and "2 \<le> length ncs" and "single_first rem"
    and "told_apart rem"
  shows "trailing_ones agree < r_bits rem"
proof -
  obtain c d i where i: "c \<in> set (button_codes rem)" "d \<in> set (button_codes rem)" "i < nat (r_bits rem)"
      "bit c i \<noteq> bit d i"
    using assms(2,3,5) by (auto simp: told_apart_def)
  then have "\<not> bit agree i"
    using shared_bit [OF assms(1-4)] by metis
  then have "trailing_ones agree \<le> int i" using trailing_ones_bits(3) [of i agree] by force
  then show ?thesis using i(3) by linarith
qed

lemma get_post_data_moves:
  assumes "get_post_data rem = Some rem'" and "rem' \<noteq> rem" and "single_first rem" and "told_apart rem"
  obtains ncs agree l n where "r_codes rem = Some ncs" and "2 \<le> length ncs" and "agreement ncs = (agree, l)"
    and "0 < n" and "n < r_bits rem" and "n \<le> trailing_ones agree"
    and "rem' = rem\<lparr>r_bits := r_bits rem - n, r_post_data_bits := n, r_post_data := l AND gen_mask n,
         r_codes := Some (map (map_codes (\<lambda>c. shr64 c n)) ncs)\<rparr>"
proof -
  obtain ncs where ncs: "r_codes rem = Some ncs"
    using assms(1,2) by (auto simp: get_post_data_def split: if_splits option.splits)
  obtain agree l where agree: "agreement ncs = (agree, l)" by fastforce
  define n where "n = even_count (r_bits rem) (trailing_ones agree)"
  have pos: "0 < n" "2 \<le> length ncs"
    and rem': "rem' = rem\<lparr>r_bits := r_bits rem - n, r_post_data_bits := n, r_post_data := l AND gen_mask n,
         r_codes := Some (map (map_codes (\<lambda>c. shr64 c n)) ncs)\<rparr>"
    using assms(1,2) by (auto simp: get_post_data_def ncs agree n_def Let_def split: if_splits)
  have le: "n \<le> trailing_ones agree"
    using pos(1) even_count_le unfolding n_def by blast
  with agreement_below [OF agree ncs pos(2) assms(3,4)] show ?thesis
    by (intro that [OF ncs pos(2) agree pos(1) _ le rem']) simp
qed

lemma get_post_data_bits:
  assumes "get_post_data rem = Some rem'" and "r_bits rem \<le> 64" and "r_post_data_bits rem = 0"
    and "single_first rem" and "told_apart rem"
  shows "map (all_bits rem') (button_codes rem') = map (all_bits rem) (button_codes rem)"
proof (cases "rem' = rem")
  case False
  obtain ncs agree l n where ncs: "r_codes rem = Some ncs" "2 \<le> length ncs" and agree: "agreement ncs = (agree, l)"
    and n: "0 < n" "n < r_bits rem" "n \<le> trailing_ones agree"
    and rem': "rem' = rem\<lparr>r_bits := r_bits rem - n, r_post_data_bits := n, r_post_data := l AND gen_mask n,
         r_codes := Some (map (map_codes (\<lambda>c. shr64 c n)) ncs)\<rparr>"
    by (rule get_post_data_moves [OF assms(1) False assms(4,5)])
  have same: "all_bits rem' (shr64 c n) = all_bits rem c" if c: "c \<in> set (button_codes rem)" for c
  proof -
    have same: "bit c i = bit l i" if "i < nat n" for i
      using n that by (intro shared_bit [OF agree ncs assms(4) c] trailing_ones_bits(3)) simp
    have "field_bits (shr64 c n) (r_bits rem - n) @ field_bits (l AND gen_mask n) n = field_bits c (r_bits rem - n + n)"
    proof (rule field_bits_cut)
      show "0 \<le> r_bits rem - n" "0 \<le> n" using n by simp_all
      fix i
      show "bit (shr64 c n) i = bit c (nat n + i)"
        using n by (simp add: bit_shr64)
      show "bit (l AND gen_mask n) i = bit c i" if "i < nat n"
        using that same [OF that] n assms(2) by (auto simp: bit_and_iff bit_gen_mask)
    qed
    then show ?thesis by (simp add: all_bits_def rem' assms(3))
  qed
  have "button_codes rem' = map (\<lambda>c. shr64 c n) (button_codes rem)"
    by (rule button_codes_map [OF ncs(1)]) (simp add: rem')
  with same show ?thesis by simp
qed simp

subsection \<open>The final file\<close>

text \<open>The remotes of which the shared bits may still be moved.\<close>

definition movable :: "ir_remote \<Rightarrow> bool" where
  "movable rem \<longleftrightarrow> recordable rem \<and> \<not> has_toggle_bit_mask rem \<and> single_first rem \<and> told_apart rem"

lemma fix_repeat_fixed:
  assumes "fix_repeat rem = rem"
  shows "\<not> (r_min_code_repeat rem > 0 \<and> (\<not> has_repeat rem \<or> r_min_code_repeat rem > r_min_repeat rem))"
proof
  assume *: "r_min_code_repeat rem > 0 \<and> (\<not> has_repeat rem \<or> r_min_code_repeat rem > r_min_repeat rem)"
  then have "r_min_code_repeat (fix_repeat rem) = 0" by (simp add: fix_repeat_def)
  with assms * show False by simp
qed

lemma movable_all:
  assumes "movable rem" and "r_codes rem = Some ncs" and "0 \<le> bits" and "bits \<le> 64" and "masked pb pre" and "masked qb post"
    and "counted pb" and "counted qb" and "pb = 0 \<longrightarrow> pre = 0" and "qb = 0 \<longrightarrow> post = 0"
    and "\<And>c. masked (r_bits rem) c \<Longrightarrow> masked bits (f c) \<and> unat (f c) \<le> unat c"
    and "rem' = rem\<lparr>r_bits := bits, r_pre_data_bits := pb, r_pre_data := pre, r_post_data_bits := qb, r_post_data := post,
      r_codes := Some (map (map_codes f) ncs)\<rparr>"
  shows "recordable rem' \<and> \<not> has_toggle_bit_mask rem' \<and> single_first rem'"
proof -
  from assms(1) have r: "recordable rem" "\<not> has_toggle_bit_mask rem" "single_first rem" by (simp_all add: movable_def)
  have b: "list_all (button_ok bits) (map (map_codes f) ncs)"
    using r(1) assms(2,11) by (force simp: recordable_def list_all_iff button_ok_def map_codes_def)
  have "head_ok rem'" using r(1) assms(3,4,7-10)
    by (simp add: recordable_def head_ok_def assms(12) is_raw_def is_serial_def protocol_def counted_def)
  moreover have "fresh rem'" using r(1) by (simp add: recordable_def fresh_def assms(12))
  moreover have "\<not> has_flag rem' REVERSE" "r_toggle_bit_mask_state rem' = 0" "r_toggle_bit rem' = 0" "\<not> has_toggle_bit_mask rem'"
    using r(1,2) by (simp_all add: recordable_def fresh_def has_flag_def has_toggle_bit_mask_def assms(12))
  moreover from this have "fix_toggle rem' = rem'" by (simp add: fix_toggle_def)
  moreover have "fix_repeat rem' = rem'"
    using fix_repeat_fixed [of rem] r(1) by (simp add: recordable_def fix_repeat_def assms(12) has_repeat_def)
  moreover have "single_first rem'" using r(3) assms(2)
    by (cases ncs) (simp_all add: single_first_def assms(12) map_codes_def)
  ultimately show ?thesis
    using b assms(3-6) by (simp add: recordable_def) (simp add: assms(12))
qed

lemma masked_bits: "masked b c \<longleftrightarrow> (\<forall>i. bit c i \<longrightarrow> int i < b)"
  using bit_imp_le_length [of c] by (auto simp: masked_def bit_eq_iff bit_and_iff bit_gen_mask)

lemma unat_and_le: "unat (c AND d :: ir_code) \<le> unat c"
  by (simp add: word_and_le2 flip: word_le_nat_alt)

lemma unat_shr_le: "unat (shr64 c n) \<le> unat c"
proof -
  have "unat (drop_bit k c) \<le> unat c" for k
    by (simp add: unat_drop_bit_eq) (simp add: drop_bit_eq_div)
  then show ?thesis by (simp add: shr64_def)
qed

lemma get_pre_data_movable:
  assumes "get_pre_data rem = Some rem'" and "movable rem" and "r_pre_data_bits rem = 0"
  shows "movable rem'" and "r_post_data_bits rem' = r_post_data_bits rem"
proof -
  have both: "movable rem' \<and> r_post_data_bits rem' = r_post_data_bits rem"
  proof (cases "rem' = rem")
    case False
    have b: "r_bits rem \<le> 64" "single_first rem" "recordable rem"
      using assms(2) by (simp_all add: movable_def recordable_def)
    obtain ncs agree l n low where ncs: "r_codes rem = Some ncs" "2 \<le> length ncs" and agree: "agreement ncs = (agree, l)"
      and low: "0 < n" "0 \<le> low" "low + n = r_bits rem" and le: "n \<le> leading_ones agree - (64 - r_bits rem)"
      and rem': "rem' = rem\<lparr>r_bits := low, r_pre_data_bits := n, r_pre_data := shr64 (l AND shl64 (gen_mask n) low) low,
           r_codes := Some (map (map_codes (\<lambda>c. c AND NOT (shl64 (gen_mask n) low))) ncs)\<rparr>"
      by (rule get_pre_data_moves [OF assms(1) b(1) False])
    let ?f = "\<lambda>c. c AND NOT (shl64 (gen_mask n) low)"
    have f: "masked low (?f c) \<and> unat (?f c) \<le> unat c" if "masked (r_bits rem) c" for c
      using that low b(1) unat_and_le
      by (force simp: masked_bits bit_simps bit_shl64 bit_gen_mask)
    have m: "masked n (shr64 (l AND shl64 (gen_mask n) low) low)"
      by (auto simp: masked_bits bit_shr64 bit_shl64 bit_and_iff bit_gen_mask)
    have "recordable rem' \<and> \<not> has_toggle_bit_mask rem' \<and> single_first rem'"
      by (rule movable_all [OF assms(2) ncs(1) low(2) _ m _ _ _ _ _ f, where qb = "r_post_data_bits rem"])
        (use low b in \<open>auto simp: rem' recordable_def head_ok_def counted_def\<close>)
    moreover have "told_apart rem'"
    proof -
      obtain c d i where i: "c \<in> set (button_codes rem)" "d \<in> set (button_codes rem)" "i < nat (r_bits rem)"
          "bit c i \<noteq> bit d i"
        using assms(2) ncs by (auto simp: movable_def told_apart_def)
      then have "\<not> bit agree i" using shared_bit [OF agree ncs b(2)] by metis
      then have "i < nat low" using leading_ones_bits(3) [of agree i] le low b(1) i(3) by force
      moreover have "button_codes rem' = map ?f (button_codes rem)"
        by (rule button_codes_map [OF ncs(1)]) (simp add: rem')
      then have "?f c \<in> set (button_codes rem')" "?f d \<in> set (button_codes rem')"
        using i by simp_all
      moreover have "bit (?f c) i \<noteq> bit (?f d) i"
        using i(4) \<open>i < nat low\<close> bit_imp_le_length [of c i] bit_imp_le_length [of d i]
        by (auto simp: bit_simps bit_shl64)
      moreover have "r_bits rem' = low" by (simp add: rem')
      ultimately show ?thesis
        unfolding told_apart_def by blast
    qed
    ultimately show ?thesis by (simp add: movable_def) (simp add: rem')
  qed (use assms in simp)
  then show "movable rem'" and "r_post_data_bits rem' = r_post_data_bits rem" by simp_all
qed

lemma get_post_data_movable:
  assumes "get_post_data rem = Some rem'" and "movable rem" and "r_post_data_bits rem = 0"
  shows "recordable rem'"
proof (cases "rem' = rem")
  case False
  have b: "single_first rem" "told_apart rem" "r_bits rem \<le> 64" "recordable rem"
    using assms(2) by (simp_all add: movable_def recordable_def)
  obtain ncs agree l n where ncs: "r_codes rem = Some ncs" and n: "0 < n" "n < r_bits rem"
    and rem': "rem' = rem\<lparr>r_bits := r_bits rem - n, r_post_data_bits := n, r_post_data := l AND gen_mask n,
         r_codes := Some (map (map_codes (\<lambda>c. shr64 c n)) ncs)\<rparr>"
    by (rule get_post_data_moves [OF assms(1) False b(1,2)])
  have f: "masked (r_bits rem - n) (shr64 c n) \<and> unat (shr64 c n) \<le> unat c" if "masked (r_bits rem) c" for c
    using that n unat_shr_le by (force simp: masked_bits bit_shr64)
  have m: "masked n (l AND gen_mask n)"
    by (auto simp: masked_bits bit_and_iff bit_gen_mask)
  have "recordable rem' \<and> \<not> has_toggle_bit_mask rem' \<and> single_first rem'"
    by (rule movable_all [OF assms(2) ncs _ _ _ m _ _ _ _ f, where pb = "r_pre_data_bits rem"])
      (use n b in \<open>auto simp: rem' recordable_def head_ok_def counted_def\<close>)
  then show ?thesis by simp
qed (use assms in \<open>simp add: movable_def\<close>)

definition button_names :: "ir_remote \<Rightarrow> string list" where
  "button_names remote = (case r_codes remote of None \<Rightarrow> [] | Some ncs \<Rightarrow> map n_name ncs)"

definition cell_times :: "ir_remote \<Rightarrow> lirc_t list" where
  "cell_times r = [r_phead r, r_shead r, r_pone r, r_sone r, r_pzero r, r_szero r, r_ptrail r]"

lemma keeps_rest:
  assumes "get_pre_data rem = Some rem' \<or> get_post_data rem = Some rem'"
  shows "button_names rem' = button_names rem" and "cell_times rem' = cell_times rem"
  using assms
  by (auto simp: get_pre_data_def get_post_data_def button_names_def map_codes_def comp_def Let_def cell_times_def
      split: if_splits option.splits prod.splits)

lemma plain_signal_same:
  assumes "cell_times rem' = cell_times rem" and "all_bits rem' c' = all_bits rem c"
  shows "plain_signal rem' c' = plain_signal rem c"
proof -
  have "cell rem' = cell rem"
    using assms(1) by (intro ext) (simp add: cell_times_def cell_def)
  then show ?thesis
    using assms by (simp add: cell_times_def plain_signal_def has_header_def cells_def)
qed

lemma map_same_iff: "map f xs = map g ys \<longleftrightarrow> length xs = length ys \<and> (\<forall>i < length xs. f (xs ! i) = g (ys ! i))"
  by (auto simp: list_eq_iff_nth_eq)

lemma moved_signals:
  assumes "get_pre_data rem = Some rem1" and "get_post_data rem1 = Some rem2"
    and "movable rem" and "r_pre_data_bits rem = 0" and "r_post_data_bits rem = 0"
  shows "recordable rem2" and "button_names rem2 = button_names rem"
    and "map (all_bits rem2) (button_codes rem2) = map (all_bits rem) (button_codes rem)"
    and "map (plain_signal rem2) (button_codes rem2) = map (plain_signal rem) (button_codes rem)"
proof -
  note m = get_pre_data_movable [OF assms(1,3,4)]
  then have post: "r_post_data_bits rem1 = 0" using assms(5) by simp
  show "recordable rem2" by (rule get_post_data_movable [OF assms(2) m(1) post])
  show "button_names rem2 = button_names rem"
    using keeps_rest(1) [of rem rem1] keeps_rest(1) [of rem1 rem2] assms(1,2) by simp
  have "map (all_bits rem1) (button_codes rem1) = map (all_bits rem) (button_codes rem)"
    using assms(3) by (intro get_pre_data_bits [OF assms(1) _ assms(4)]) (simp_all add: movable_def recordable_def)
  moreover have "map (all_bits rem2) (button_codes rem2) = map (all_bits rem1) (button_codes rem1)"
    using m(1) by (intro get_post_data_bits [OF assms(2) _ post]) (simp_all add: movable_def recordable_def)
  ultimately show bits: "map (all_bits rem2) (button_codes rem2) = map (all_bits rem) (button_codes rem)" by simp
  have "cell_times rem2 = cell_times rem"
    using keeps_rest(2) [of rem rem1] keeps_rest(2) [of rem1 rem2] assms(1,2) by simp
  with bits show "map (plain_signal rem2) (button_codes rem2) = map (plain_signal rem) (button_codes rem)"
    by (auto simp: map_same_iff intro: plain_signal_same)
qed

lemma moves_succeed:
  assumes "r_codes rem \<noteq> None"
  obtains rem1 rem2 where "get_pre_data rem = Some rem1" and "get_post_data rem1 = Some rem2"
proof -
  obtain rem1 where 1: "get_pre_data rem = Some rem1" "r_codes rem1 \<noteq> None"
    using assms by (cases "get_pre_data rem") (auto simp: get_pre_data_def Let_def split: if_splits option.splits prod.splits)
  then obtain rem2 where "get_post_data rem1 = Some rem2"
    by (cases "get_post_data rem1") (auto simp: get_post_data_def Let_def split: if_splits option.splits prod.splits)
  with 1 that show ?thesis by blast
qed

lemma consumed_copyright: "consumed fprint_copyright cfg_init cfg_init"
proof -
  have "fine cfg_init" by (simp add: cfg_init_def fine_def)
  from consumed_text [OF this, of "[[], ''# Please make this file available to others'',
      ''# by sending it to <winlirc.configs@gmail.com>'']"]
  show ?thesis by (simp add: fprint_copyright_def short_line_def)
qed


text \<open>A remote of 12 bits without pre data, as it is recorded first; its final form is \<^const>\<open>nec_remote\<close>.\<close>

definition recorded_remote :: ir_remote where
  "recorded_remote = nec_remote\<lparr>r_bits := 12, r_pre_data_bits := 0, r_pre_data := 0,
     r_codes := Some (map (\<lambda>nc. nc\<lparr>n_code := 0xC00 OR n_code nc\<rparr>) nec_codes)\<rparr>"

lemma recorded_movable: "movable recorded_remote"
proof -
  have "r_codes recorded_remote = Some (map (\<lambda>nc. nc\<lparr>n_code := 0xC00 OR n_code nc\<rparr>) nec_codes)"
    by (simp add: recorded_remote_def)
  moreover have "list_all (button_ok (r_bits recorded_remote)) (map (\<lambda>nc. nc\<lparr>n_code := 0xC00 OR n_code nc\<rparr>) nec_codes)"
    by code_simp
  moreover have "head_ok recorded_remote"
    using nec_recordable
    by (simp add: recordable_def head_ok_def recorded_remote_def is_raw_def is_serial_def protocol_def counted_def)
  moreover have "fresh recorded_remote" "\<not> has_flag recorded_remote REVERSE" "fix_toggle recorded_remote = recorded_remote"
    "fix_repeat recorded_remote = recorded_remote" "r_toggle_bit_mask_state recorded_remote = 0" "r_bits recorded_remote \<le> 64"
    "masked (r_pre_data_bits recorded_remote) (r_pre_data recorded_remote)"
    "masked (r_post_data_bits recorded_remote) (r_post_data recorded_remote)"
    "\<not> has_toggle_bit_mask recorded_remote" "single_first recorded_remote"
    by code_simp+
  moreover have "told_apart recorded_remote"
  proof -
    have "0xC59 \<in> set (button_codes recorded_remote)" "0xCA6 \<in> set (button_codes recorded_remote)"
      "bit (0xC59 :: ir_code) 0 \<noteq> bit (0xCA6 :: ir_code) 0" "0 < nat (r_bits recorded_remote)"
      by code_simp+
    then show ?thesis unfolding told_apart_def by blast
  qed
  ultimately show ?thesis by (simp add: movable_def recordable_def)
qed


lemma recorded_final: "get_pre_data recorded_remote = Some nec_remote \<and> get_post_data nec_remote = Some nec_remote"
  by code_simp

end
