(* ===== verification/Lengths.thy ===== *)
theory Lengths
  imports LircDefs
begin

text \<open>
  How \<open>irrecord\<close> learns the format of a remote, \<open>get_lengths\<close> and below in \<open>IRRecord/irrecord.cpp\<close>: the
  durations the receiver reports are counted in lists of buckets, buckets that lie close are merged, and the
  fullest ones give the gap, the header, the trail, the repeat code and the cells. What \<open>hw.readdata\<close> returns
  is the input. A linked list is a list and a pointer into it an index; \<^const>\<open>None\<close> is a null pointer that
  is followed, an array index out of range or a division by zero. \<open>malloc\<close> does not fail.
\<close>

abbreviation (input) MAX_SIGNALS :: nat where "MAX_SIGNALS \<equiv> 512"
abbreviation (input) SAMPLES :: int where "SAMPLES \<equiv> 80"
abbreviation (input) MIN_GAP :: int where "MIN_GAP \<equiv> 20000"
abbreviation (input) TH_SPACE_ENC :: int where "TH_SPACE_ENC \<equiv> 80"
abbreviation (input) TH_HEADER :: int where "TH_HEADER \<equiv> 90"
abbreviation (input) TH_REPEAT :: int where "TH_REPEAT \<equiv> 90"
abbreviation (input) TH_TRAIL :: int where "TH_TRAIL \<equiv> 90"
abbreviation (input) TH_LEAD :: int where "TH_LEAD \<equiv> 90"
abbreviation (input) TH_IS_BIT :: int where "TH_IS_BIT \<equiv> 10"
abbreviation (input) TH_RC6_SIGNAL :: int where "TH_RC6_SIGNAL \<equiv> 550"

text \<open>The global tolerances, \<open>unsigned int eps\<close> and \<open>lirc_t aeps\<close>.\<close>

record tolerances =
  tl_eps :: int
  tl_aeps :: lirc_t

definition default_tolerances :: tolerances where
  "default_tolerances = \<lparr>tl_eps = 30, tl_aeps = 100\<rparr>"

subsection \<open>Buckets\<close>

record lengths =
  le_count :: int
  le_sum :: lirc_t
  le_upper :: lirc_t
  le_lower :: lirc_t
  le_min :: lirc_t
  le_max :: lirc_t

definition calc_signal :: "lengths \<Rightarrow> lirc_t" where
  "calc_signal l = i32 (u32 (le_sum l) div le_count l)"

definition new_length :: "lirc_t \<Rightarrow> lengths" where
  "new_length x = \<lparr>le_count = 1, le_sum = x, le_upper = add32 (mul32 (quot x 100) 100) 99,
     le_lower = mul32 (quot x 100) 100, le_min = x, le_max = x\<rparr>"

definition count_in :: "lengths \<Rightarrow> lirc_t \<Rightarrow> lengths" where
  "count_in l x = l\<lparr>le_count := u32 (le_count l + 1), le_sum := add32 (le_sum l) x,
     le_min := min (le_min l) x, le_max := max (le_max l) x\<rparr>"

fun add_length :: "lengths list \<Rightarrow> lirc_t \<Rightarrow> lengths list" where
  "add_length [] x = [new_length x]"
| "add_length (l # ls) x =
    (if le_lower l \<le> x \<and> x \<le> le_upper l then count_in l x # ls else l # add_length ls x)"

text \<open>The mean of two buckets, an \<open>unsigned long\<close> divided by an \<open>int\<close>.\<close>

definition joint_mean :: "lengths \<Rightarrow> lengths \<Rightarrow> int" where
  "joint_mean l inner = u32 (le_sum l + le_sum inner) div u32 (i32 (le_count l + le_count inner))"

definition mergeable :: "tolerances \<Rightarrow> lengths \<Rightarrow> lengths \<Rightarrow> bool" where
  "mergeable tol l inner \<longleftrightarrow>
    (let q = joint_mean l inner; eps = tl_eps tol; aeps = tl_aeps tol
     in u32 (le_max l) \<le> u32 (q + aeps) \<and> u32 (le_min l + aeps) \<ge> q \<and>
        u32 (le_max inner) \<le> u32 (q + aeps) \<and> u32 (le_min inner + aeps) \<ge> q \<or>
        u32 (le_max l) \<le> u32 (q * u32 (100 + eps)) \<and> u32 (le_min l) \<ge> u32 (q * u32 (100 - eps)) \<and>
        u32 (le_max inner) \<le> u32 (q * u32 (100 + eps)) \<and> u32 (le_min inner) \<ge> u32 (q * u32 (100 - eps)))"

definition merge_two :: "lengths \<Rightarrow> lengths \<Rightarrow> lengths" where
  "merge_two l inner = \<lparr>le_count = u32 (le_count l + le_count inner), le_sum = add32 (le_sum l) (le_sum inner),
     le_upper = max (le_upper l) (le_upper inner), le_lower = min (le_lower l) (le_lower inner),
     le_min = min (le_min l) (le_min inner), le_max = max (le_max l) (le_max inner)\<rparr>"

text \<open>The inner loop: every later bucket that is near enough is taken in and freed.\<close>

fun absorb :: "tolerances \<Rightarrow> lengths \<Rightarrow> lengths list \<Rightarrow> lengths \<times> lengths list" where
  "absorb tol l [] = (l, [])"
| "absorb tol l (inner # ls) =
    (if mergeable tol l inner then absorb tol (merge_two l inner) ls
     else (let (l', ls') = absorb tol l ls in (l', inner # ls')))"

lemma length_absorb: "length (snd (absorb tol l ls)) \<le> length ls"
  by (induction tol l ls rule: absorb.induct) (auto simp: case_prod_unfold Let_def)

function merge_lengths :: "tolerances \<Rightarrow> lengths list \<Rightarrow> lengths list" where
  "merge_lengths tol [] = []"
| "merge_lengths tol (l # ls) = fst (absorb tol l ls) # merge_lengths tol (snd (absorb tol l ls))"
  by pat_completeness auto
termination
  by (relation "measure (\<lambda>(_, ls). length ls)") (simp_all add: length_absorb less_Suc_eq_le)

definition add_merge :: "tolerances \<Rightarrow> lirc_t \<Rightarrow> lengths list \<Rightarrow> lengths list" where
  "add_merge tol x ls = merge_lengths tol (add_length ls x)"

text \<open>The fullest bucket, the first one of several, with its place and the number of all samples.\<close>

fun max_scan :: "lengths list \<Rightarrow> nat \<Rightarrow> nat \<times> lengths \<times> int \<Rightarrow> nat \<times> lengths \<times> int" where
  "max_scan [] k (i, max_length, n) = (i, max_length, n)"
| "max_scan (scan # ls) k (i, max_length, n) =
    max_scan ls (Suc k)
      (if le_count scan > le_count max_length then (k, scan, u32 (n + le_count scan))
       else (i, max_length, u32 (n + le_count scan)))"

definition get_max_length :: "lengths list \<Rightarrow> (nat \<times> lengths \<times> int) option" where
  "get_max_length ls = (case ls of [] \<Rightarrow> None | l # rest \<Rightarrow> Some (max_scan rest 1 (0, l, le_count l)))"

definition unlink_length :: "lengths list \<Rightarrow> nat \<Rightarrow> lengths list" where
  "unlink_length ls i = take i ls @ drop (Suc i) ls"

subsection \<open>The state of the analysis\<close>

record measures =
  ms_remote :: ir_remote
  ms_space :: "lengths list"
  ms_pulse :: "lengths list"
  ms_sum :: "lengths list"
  ms_gap :: "lengths list"
  ms_repeat_gap :: "lengths list"
  ms_signal_length :: "lengths list"
  ms_headerp :: "lengths list"
  ms_headers :: "lengths list"
  ms_1lead :: "lengths list"
  ms_3lead :: "lengths list"
  ms_trail :: "lengths list"
  ms_repeatp :: "lengths list"
  ms_repeats :: "lengths list"
  ms_lengths :: "int list"
  ms_signals :: "lirc_t list"
  ms_first_length :: int
  ms_first_lengths :: int
  ms_second_lengths :: int
  ms_count :: int
  ms_count_spaces :: int
  ms_count_3repeats :: int
  ms_count_5repeats :: int
  ms_count_signals :: int
  ms_average :: lirc_t
  ms_maxspace :: lirc_t
  ms_elapsed :: lirc_t
  ms_header :: lirc_t
  ms_first_signal :: int
  ms_have_gap :: bool

definition measures_init :: "ir_remote \<Rightarrow> lirc_t list \<Rightarrow> measures" where
  "measures_init remote signals = \<lparr>ms_remote = remote, ms_space = [], ms_pulse = [], ms_sum = [], ms_gap = [],
     ms_repeat_gap = [], ms_signal_length = [], ms_headerp = [], ms_headers = [], ms_1lead = [], ms_3lead = [],
     ms_trail = [], ms_repeatp = [], ms_repeats = [], ms_lengths = replicate MAX_SIGNALS 0, ms_signals = signals,
     ms_first_length = 0, ms_first_lengths = 0, ms_second_lengths = 0, ms_count = 0, ms_count_spaces = 0,
     ms_count_3repeats = 0, ms_count_5repeats = 0, ms_count_signals = 0, ms_average = 0, ms_maxspace = 0,
     ms_elapsed = 0, ms_header = 0, ms_first_signal = - 1, ms_have_gap = False\<rparr>"

subsection \<open>The scheme\<close>

text \<open>The most frequent signal length, the first one of several, and the number of signals.\<close>

definition most_frequent :: "int list \<Rightarrow> nat \<times> int" where
  "most_frequent xs =
    fold (\<lambda>i (len, sum). (if xs ! i > xs ! len then i else len, u32 (sum + xs ! i))) [1..<MAX_SIGNALS] (0, 0)"

definition space_encoded :: "nat \<Rightarrow> ir_remote \<Rightarrow> ir_remote" where
  "space_encoded len remote = set_protocol (remote\<lparr>r_bits := int len + 1\<rparr>) SPACE_ENC"

definition get_scheme :: "measures \<Rightarrow> measures option" where
  "get_scheme m =
    (let (len, sum) = most_frequent (ms_lengths m); remote = ms_remote m
     in if ms_lengths m ! len \<ge> u32 (TH_SPACE_ENC * sum) div 100 then Some (m\<lparr>ms_remote := space_encoded len remote\<rparr>)
        else do {
          (i, maxp, _) \<leftarrow> get_max_length (ms_pulse m);
          let pulses = unlink_length (ms_pulse m) i;
          (case get_max_length pulses of
             None \<Rightarrow> Some (m\<lparr>ms_pulse := [maxp], ms_remote := space_encoded len remote\<rparr>)
           | Some (_, max2p, _) \<Rightarrow> do {
               let m = m\<lparr>ms_pulse := maxp # pulses\<rparr>;
               (j, maxs, _) \<leftarrow> get_max_length (ms_space m);
               let spaces = unlink_length (ms_space m) j;
               (case get_max_length spaces of
                  None \<Rightarrow> Some (m\<lparr>ms_space := [maxs], ms_remote := space_encoded len remote\<rparr>)
                | Some (_, max2s, _) \<Rightarrow> do {
                    (_, max_s, _) \<leftarrow> get_max_length (maxs # spaces);
                    Some (m\<lparr>ms_space := maxs # spaces,
                      ms_remote := set_protocol remote
                        (if 20 < len \<and> (calc_signal maxp < TH_RC6_SIGNAL \<or> calc_signal max2p < TH_RC6_SIGNAL) \<and>
                            (calc_signal max_s < TH_RC6_SIGNAL \<or> calc_signal max2s < TH_RC6_SIGNAL)
                         then RC6 else RC5)\<rparr>)
                  })
             })
        })"

subsection \<open>Header, trail, lead and repeat code\<close>

text \<open>Each returns whether it succeeded, and the remote.\<close>

definition get_header_length :: "measures \<Rightarrow> (bool \<times> ir_remote) option" where
  "get_header_length m =
    (case get_max_length (ms_headerp m) of
       None \<Rightarrow> Some (True, ms_remote m)
     | Some (_, max_plength, n) \<Rightarrow>
         if le_count max_plength \<ge> u32 (n * TH_HEADER) div 100 then do {
           (_, max_slength, n) \<leftarrow> get_max_length (ms_headers m);
           Some (True,
             if le_count max_slength \<ge> u32 (n * TH_HEADER) div 100 then
               (let remote = (ms_remote m)\<lparr>r_phead := calc_signal max_plength, r_shead := calc_signal max_slength\<rparr>
                in if ms_first_lengths m < ms_second_lengths m then remote\<lparr>r_flags := r_flags remote OR NO_HEAD_REP\<rparr>
                   else remote)
             else ms_remote m)
         }
         else Some (True, ms_remote m))"

definition get_trail_length :: "measures \<Rightarrow> (bool \<times> ir_remote) option" where
  "get_trail_length m =
    (if is_biphase (ms_remote m) then Some (True, ms_remote m)
     else do {
       (_, max_length, n) \<leftarrow> get_max_length (ms_trail m);
       Some (True,
         if le_count max_length \<ge> u32 (n * TH_TRAIL) div 100 then (ms_remote m)\<lparr>r_ptrail := calc_signal max_length\<rparr>
         else ms_remote m)
     })"

text \<open>Only a biphase remote without a header gets here, so the lead is looked for in \<open>first_1lead\<close>.\<close>

definition get_lead_length :: "tolerances \<Rightarrow> measures \<Rightarrow> (bool \<times> ir_remote) option" where
  "get_lead_length tol m =
    (let remote = ms_remote m
     in if \<not> is_biphase remote \<or> has_header remote \<or> is_rc6 remote then Some (True, remote)
        else do {
          (i, max_length, n) \<leftarrow> get_max_length (ms_1lead m);
          if le_count max_length \<ge> u32 (n * TH_LEAD) div 100 then Some (True, remote\<lparr>r_plead := calc_signal max_length\<rparr>)
          else do {
            (_, max2_length, _) \<leftarrow> get_max_length (unlink_length (ms_1lead m) i);
            let a = min (calc_signal max_length) (calc_signal max2_length);
            let b = max (calc_signal max_length) (calc_signal max2_length);
            let d = abs32 (sub32 (mul32 2 a) b);
            Some (True, if u32 d < u32 (b * tl_eps tol) div 100 \<or> d < tl_aeps tol then remote\<lparr>r_plead := a\<rparr> else remote)
          }
        })"

definition get_repeat_length :: "measures \<Rightarrow> (bool \<times> ir_remote) option" where
  "get_repeat_length m =
    (let three = ms_count_3repeats m; five = ms_count_5repeats m; remote = ms_remote m
     in if (three > SAMPLES div 2) = (five > SAMPLES div 2) then
          Some (\<not> (three > SAMPLES div 2 \<or> five > SAMPLES div 2), remote)
        else do {
          (_, max_plength, n) \<leftarrow> get_max_length (ms_repeatp m);
          if le_count max_plength \<ge> u32 (n * TH_REPEAT) div 100 then do {
            (_, max_slength, n) \<leftarrow> get_max_length (ms_repeats m);
            if le_count max_slength \<ge> u32 (n * TH_REPEAT) div 100 then
              (if five > three \<and> \<not> has_header remote then Some (False, remote)
               else do {
                 let remote = (if five > three then remote\<lparr>r_flags := r_flags remote OR REPEAT_HEADER\<rparr> else remote);
                 let remote = remote\<lparr>r_prepeat := calc_signal max_plength, r_srepeat := calc_signal max_slength\<rparr>;
                 (if is_const remote then Some (True, remote)
                  else do {
                    (_, max_gap, _) \<leftarrow> get_max_length (ms_repeat_gap m);
                    Some (True, remote\<lparr>r_repeat_gap := calc_signal max_gap\<rparr>)
                  })
               })
            else Some (True, remote)
          }
          else Some (True, remote)
        })"

subsection \<open>The cells\<close>

text \<open>The second candidate has to be a tenth as frequent as the first one.\<close>

definition second_max :: "lengths list \<Rightarrow> int \<Rightarrow> lengths option" where
  "second_max ls max_count =
    (case get_max_length ls of
       None \<Rightarrow> None
     | Some (_, l, _) \<Rightarrow> if le_count l < u32 (max_count * TH_IS_BIT) div 100 then None else Some l)"

definition biphase_half :: "lirc_t \<Rightarrow> lirc_t \<Rightarrow> lirc_t" where
  "biphase_half a b = quot (add32 (min a b) (quot (max a b) 2)) 2"

text \<open>The durations of the two cells; \<^const>\<open>None\<close> when the encoding is not known.\<close>

definition set_cells :: "lengths \<Rightarrow> lengths option \<Rightarrow> lengths \<Rightarrow> lengths option \<Rightarrow> ir_remote \<Rightarrow> ir_remote option" where
  "set_cells max_p max2_p max_s max2_s remote =
    (let p1 = calc_signal max_p; s1 = calc_signal max_s
     in if is_biphase remote then
          (case (max2_p, max2_s) of
             (Some l, Some l') \<Rightarrow>
               let p = biphase_half p1 (calc_signal l); sp = biphase_half s1 (calc_signal l')
               in Some (remote\<lparr>r_pone := p, r_sone := sp, r_pzero := p, r_szero := sp\<rparr>)
           | _ \<Rightarrow> None)
        else
          (case (max2_p, max2_s) of
             (Some l, None) \<Rightarrow>
               let p2 = calc_signal l;
                   remote = remote\<lparr>r_pone := max p1 p2, r_sone := s1, r_pzero := min p1 p2, r_szero := s1\<rparr>
               in Some (if expect remote (r_ptrail remote) p1 \<or> expect remote (r_ptrail remote) p2
                        then remote\<lparr>r_ptrail := 0\<rparr> else remote)
           | (None, Some l') \<Rightarrow>
               let s2 = calc_signal l'
               in Some (remote\<lparr>r_pone := p1, r_sone := max s1 s2, r_pzero := p1, r_szero := min s1 s2\<rparr>)
           | _ \<Rightarrow> None))"

text \<open>A header that looks like a cell, or like the lead of a biphase signal, is none.\<close>

definition drop_header :: "ir_remote \<Rightarrow> ir_remote" where
  "drop_header remote =
    (if has_header remote \<and> (\<not> has_repeat remote \<or> has_flag remote NO_HEAD_REP) then
       (let off = (\<lambda>r. r\<lparr>r_phead := 0, r_shead := 0, r_flags := r_flags r AND NOT NO_HEAD_REP\<rparr>)
        in if \<not> is_biphase remote \<and>
              (expect remote (r_phead remote) (r_pone remote) \<and> expect remote (r_shead remote) (r_sone remote) \<or>
               expect remote (r_phead remote) (r_pzero remote) \<and> expect remote (r_shead remote) (r_szero remote))
           then off remote
           else if is_biphase remote \<and> expect remote (r_shead remote) (r_sone remote)
           then off (remote\<lparr>r_plead := r_phead remote\<rparr>)
           else remote)
     else remote)"

definition set_bits :: "lengths list \<Rightarrow> ir_remote \<Rightarrow> ir_remote option" where
  "set_bits signal_length remote =
    (if is_biphase remote then do {
       (_, l, _) \<leftarrow> get_max_length signal_length;
       let cell = add32 (r_pone remote) (r_sone remote);
       let data_length = add32 (sub32 (sub32 (sub32 (calc_signal l) (r_plead remote)) (r_phead remote)) (r_shead remote)) (quot cell 2);
       (if cell = 0 then None
        else Some (remote\<lparr>r_bits := (if is_rc6 remote then sub32 (quot data_length cell) 1 else quot data_length cell)\<rparr>))
     }
     else Some (remote\<lparr>r_bits := quot (sub32 (add32 (sub32 (r_bits remote) (if has_header remote then 2 else 0)) 1)
       (if r_ptrail remote > 0 then 2 else 0)) 2\<rparr>))"

definition get_data_length :: "tolerances \<Rightarrow> measures \<Rightarrow> (bool \<times> ir_remote) option" where
  "get_data_length tol m = do {
     (i, max_p, n) \<leftarrow> get_max_length (ms_pulse m);
     if le_count max_p < u32 (n * TH_IS_BIT) div 100 then Some (False, ms_remote m)
     else do {
       let max2_p = second_max (unlink_length (ms_pulse m) i) (le_count max_p);
       (j, max_s, n) \<leftarrow> get_max_length (ms_space m);
       if le_count max_s < u32 (n * TH_IS_BIT) div 100 then Some (False, ms_remote m)
       else do {
         let max2_s = second_max (unlink_length (ms_space m) j) (le_count max_s);
         let remote = (ms_remote m)\<lparr>r_eps := tl_eps tol, r_aeps := tl_aeps tol\<rparr>;
         (case set_cells max_p max2_p max_s max2_s remote of
            None \<Rightarrow> Some (False, remote)
          | Some remote \<Rightarrow> do {
              remote \<leftarrow> set_bits (ms_signal_length m) (drop_header remote);
              Some (True, remote)
            })
       }
     }
   }"

subsection \<open>The gap\<close>

definition find_gap :: "measures \<Rightarrow> ir_remote option" where
  "find_gap m =
    (case find (\<lambda>l. le_count l > SAMPLES) (ms_sum m) of
       Some l \<Rightarrow> Some ((ms_remote m)\<lparr>r_gap := calc_signal l, r_flags := r_flags (ms_remote m) OR CONST_LENGTH\<rparr>)
     | None \<Rightarrow>
         (case find (\<lambda>l. le_count l > SAMPLES) (ms_gap m) of
            Some l \<Rightarrow> Some ((ms_remote m)\<lparr>r_gap := calc_signal l\<rparr>)
          | None \<Rightarrow> None))"

text \<open>
  A step goes on or leaves the loop with the result of \<open>get_lengths\<close>. While the gap is unknown, a space
  that is much longer than the others ends a signal.
\<close>

definition check_count :: "measures \<Rightarrow> measures \<times> bool option" where
  "check_count m = (m, if ms_count m > SAMPLES * int MAX_SIGNALS * 2 then Some False else None)"

definition is_gap :: "measures \<Rightarrow> lirc_t \<Rightarrow> bool" where
  "is_gap m data \<longleftrightarrow> data > MIN_GAP \<or> data > mul32 100 (ms_average m) \<or>
     ms_count_spaces m > 10 \<and> data > quot (mul32 5 (ms_maxspace m)) 2"

definition gap_step :: "tolerances \<Rightarrow> bool \<Rightarrow> lirc_t \<Rightarrow> measures \<Rightarrow> measures \<times> bool option" where
  "gap_step tol force data m =
    (let m = m\<lparr>ms_elapsed := add32 (ms_elapsed m) (data AND PULSE_MASK)\<rparr>
     in if \<not> is_space data then check_count m
        else if ms_average m = 0 then
          (if data > 100000 then (m\<lparr>ms_elapsed := 0\<rparr>, None)
           else check_count (m\<lparr>ms_average := data, ms_maxspace := data\<rparr>))
        else if is_gap m data then
          (let m = m\<lparr>ms_sum := add_merge tol (ms_elapsed m) (ms_sum m), ms_gap := add_merge tol data (ms_gap m),
                 ms_elapsed := 0, ms_count_spaces := 0, ms_average := 0, ms_maxspace := 0\<rparr>
           in case find_gap m of
                None \<Rightarrow> (m, None)
              | Some remote \<Rightarrow> (m\<lparr>ms_remote := remote, ms_have_gap := True, ms_count := 0\<rparr>, if force then Some False else None))
        else check_count (m\<lparr>
          ms_average := i32 (u32 (ms_average m * ms_count_spaces m + data) div u32 (ms_count_spaces m + 1)),
          ms_count_spaces := u32 (ms_count_spaces m + 1), ms_maxspace := max (ms_maxspace m) data\<rparr>))"

subsection \<open>The signals\<close>

definition bump :: "int list \<Rightarrow> int \<Rightarrow> int \<Rightarrow> int list option" where
  "bump xs i d = (if 0 \<le> i \<and> i < int (length xs) then Some (xs[nat i := u32 (xs ! nat i + d)]) else None)"

text \<open>Signals of three and five durations are repeat codes.\<close>

definition count_repeat :: "tolerances \<Rightarrow> nat \<Rightarrow> measures \<Rightarrow> measures" where
  "count_repeat tol k m =
    (let x = (!) (ms_signals m)
     in m\<lparr>ms_repeatp := add_merge tol (x k) (ms_repeatp m), ms_repeats := add_merge tol (x (k + 1)) (ms_repeats m),
          ms_trail := add_merge tol (x (k + 2)) (ms_trail m), ms_repeat_gap := add_merge tol (x (k + 3)) (ms_repeat_gap m)\<rparr>)"

definition count_header :: "tolerances \<Rightarrow> measures \<Rightarrow> measures" where
  "count_header tol m = m\<lparr>ms_headerp := add_merge tol (ms_signals m ! 0) (ms_headerp m),
     ms_headers := add_merge tol (ms_signals m ! 1) (ms_headers m)\<rparr>"

definition count_cell :: "tolerances \<Rightarrow> nat \<Rightarrow> measures \<Rightarrow> measures" where
  "count_cell tol i m =
    (if odd i then m\<lparr>ms_space := add_merge tol (ms_signals m ! i) (ms_space m)\<rparr>
     else m\<lparr>ms_pulse := add_merge tol (ms_signals m ! i) (ms_pulse m)\<rparr>)"

text \<open>The durations of any other signal, then its start, then its length.\<close>

definition count_durations :: "tolerances \<Rightarrow> lirc_t \<Rightarrow> measures \<Rightarrow> measures option" where
  "count_durations tol data m = do {
     let cnt = nat (ms_count m);
     let m = fold (count_cell tol) [2..<cnt - 2] (m\<lparr>ms_count_signals := u32 (ms_count_signals m + 1),
       ms_1lead := add_merge tol (ms_signals m ! 0) (ms_1lead m)\<rparr>);
     xs \<leftarrow> bump (ms_lengths m) (ms_count m - 2) 1;
     Some (m\<lparr>ms_trail := add_merge tol (ms_signals m ! (cnt - 2)) (ms_trail m), ms_lengths := xs,
       ms_signal_length := add_merge tol (sub32 (ms_elapsed m) data) (ms_signal_length m)\<rparr>)
   }"

definition count_start :: "tolerances \<Rightarrow> measures \<Rightarrow> measures" where
  "count_start tol m =
    (if ms_first_signal m = 1 \<or> ms_first_length m > 2 \<and> ms_first_length m \<noteq> ms_count m
     then count_header tol (m\<lparr>ms_3lead := add_merge tol (ms_signals m ! 2) (ms_3lead m)\<rparr>) else m)"

definition place_signal :: "measures \<Rightarrow> measures option" where
  "place_signal m =
    (let cnt = ms_count m
     in if ms_first_signal m = 1 then
          Some (m\<lparr>ms_first_lengths := u32 (ms_first_lengths m + 1), ms_first_length := cnt - 2,
            ms_header := add32 (ms_signals m ! 0) (ms_signals m ! 1)\<rparr>)
        else if ms_first_signal m = 0 \<and> u32 (ms_first_length m - 2) = u32 (cnt - 2) then do {
          xs \<leftarrow> bump (ms_lengths m) (cnt - 2) (- 1);
          xs \<leftarrow> bump xs cnt 1;
          Some (m\<lparr>ms_lengths := xs, ms_second_lengths := u32 (ms_second_lengths m + 1)\<rparr>)
        }
        else Some m)"

definition count_signal :: "tolerances \<Rightarrow> lirc_t \<Rightarrow> measures \<Rightarrow> measures option" where
  "count_signal tol data m = do {
     m \<leftarrow> count_durations tol data m;
     place_signal (count_start tol m)
   }"

definition count_by_length :: "tolerances \<Rightarrow> lirc_t \<Rightarrow> measures \<Rightarrow> measures option" where
  "count_by_length tol data m =
    (if ms_count m = 4 then Some (count_repeat tol 0 (m\<lparr>ms_count_3repeats := u32 (ms_count_3repeats m + 1)\<rparr>))
     else if ms_count m = 6 then
       Some (count_repeat tol 2 (count_header tol (m\<lparr>ms_count_5repeats := u32 (ms_count_5repeats m + 1)\<rparr>)))
     else if ms_count m > 6 then count_signal tol data m
     else Some m)"

definition complete_signal :: "tolerances \<Rightarrow> lirc_t \<Rightarrow> measures \<Rightarrow> measures option" where
  "complete_signal tol data m = map_option (\<lambda>m. m\<lparr>ms_count := 0, ms_elapsed := 0\<rparr>) (count_by_length tol data m)"

fun in_turn :: "(measures \<Rightarrow> (bool \<times> ir_remote) option) list \<Rightarrow> measures \<Rightarrow> (bool \<times> measures) option" where
  "in_turn [] m = Some (True, m)"
| "in_turn (f # fs) m = do {
     (ok, remote) \<leftarrow> f m;
     let m = m\<lparr>ms_remote := remote\<rparr>;
     if ok then in_turn fs m else Some (False, m)
   }"

definition evaluate :: "tolerances \<Rightarrow> measures \<Rightarrow> (bool \<times> measures) option" where
  "evaluate tol m = do {
     m \<leftarrow> get_scheme m;
     in_turn [get_header_length, get_trail_length, get_lead_length tol, get_repeat_length, get_data_length tol] m
   }"

definition remaining_gap :: "measures \<Rightarrow> lirc_t" where
  "remaining_gap m =
    (let remote = ms_remote m
     in if is_const remote then (if r_gap remote > ms_elapsed m then sub32 (r_gap remote) (ms_elapsed m) else 0)
        else r_gap remote)"

definition at_end :: "tolerances \<Rightarrow> lirc_t \<Rightarrow> lirc_t \<Rightarrow> measures \<Rightarrow> bool" where
  "at_end tol gap x m \<longleftrightarrow> ms_count m > 2 \<and>
     (u32 x \<ge> u32 (gap * (100 - tl_eps tol)) div 100 \<or> x \<ge> sub32 gap (tl_aeps tol))"

text \<open>Enough signals are evaluated; a pause longer than the gap lets the next signal be a first one.\<close>

definition after_signal :: "tolerances \<Rightarrow> lirc_t \<Rightarrow> lirc_t \<Rightarrow> measures \<Rightarrow> (measures \<times> bool option) option" where
  "after_signal tol gap x m =
    (if ms_count_signals m \<ge> SAMPLES then do {
       (ok, m) \<leftarrow> evaluate tol m;
       Some (m, Some ok)
     }
     else do {
       let r = add32 gap (ms_header m);
       Some (if u32 x \<le> u32 (r * (100 + tl_eps tol)) div 100 \<or> x \<le> add32 r (tl_aeps tol)
         then m\<lparr>ms_first_signal := 0, ms_header := 0\<rparr> else m\<lparr>ms_first_signal := 1\<rparr>, None)
     })"

definition signal_step :: "tolerances \<Rightarrow> lirc_t \<Rightarrow> measures \<Rightarrow> (measures \<times> bool option) option" where
  "signal_step tol data m =
    (if ms_count m > int MAX_SIGNALS then Some (m, Some False)
     else do {
       let x = data AND PULSE_MASK;
       let gap = remaining_gap m;
       let m = m\<lparr>ms_signals := (ms_signals m)[nat (ms_count m - 1) := x], ms_elapsed := add32 (ms_elapsed m) x\<rparr>;
       if at_end tol gap x m then do {
         m \<leftarrow> (if is_space data then complete_signal tol data m else Some m);
         after_signal tol gap x m
       }
       else Some (m, None)
     })"

subsection \<open>The loop\<close>

definition lengths_step :: "tolerances \<Rightarrow> bool \<Rightarrow> lirc_t \<Rightarrow> measures \<Rightarrow> (measures \<times> bool option) option" where
  "lengths_step tol force data m =
    (let m = m\<lparr>ms_count := u32 (ms_count m + 1)\<rparr>
     in if ms_have_gap m then signal_step tol data m else Some (gap_step tol force data m))"

text \<open>The end of the data, like a 0, is ten seconds without a signal.\<close>

fun lengths_loop :: "tolerances \<Rightarrow> bool \<Rightarrow> lirc_t list \<Rightarrow> measures \<Rightarrow> (bool \<times> measures) option" where
  "lengths_loop tol force [] m = Some (False, m)"
| "lengths_loop tol force (data # ds) m =
    (if data = 0 then Some (False, m)
     else do {
       (m, stop) \<leftarrow> lengths_step tol force data m;
       (case stop of Some retval \<Rightarrow> Some (retval, m) | None \<Rightarrow> lengths_loop tol force ds m)
     })"

definition get_lengths :: "tolerances \<Rightarrow> bool \<Rightarrow> lirc_t list \<Rightarrow> lirc_t list \<Rightarrow> ir_remote \<Rightarrow> (bool \<times> ir_remote) option" where
  "get_lengths tol force signals data remote =
     map_option (\<lambda>(retval, m). (retval, ms_remote m)) (lengths_loop tol force data (measures_init remote signals))"

text \<open>
  Receivers that deliver whole codes: the pause between two presses, with the times at which each began and
  ended.
\<close>

fun gap_loop :: "tolerances \<Rightarrow> (mytimeval \<times> mytimeval) list \<Rightarrow> mytimeval option \<Rightarrow> lengths list \<Rightarrow> lirc_t option" where
  "gap_loop tol [] lst gaps = None"
| "gap_loop tol ((start, stop) # presses) lst gaps =
    (case lst of
       None \<Rightarrow> gap_loop tol presses (Some stop) gaps
     | Some t \<Rightarrow>
         (let gaps = add_merge tol (i32 (time_elapsed t start)) gaps
          in case find (\<lambda>l. le_count l > SAMPLES) gaps of
               Some l \<Rightarrow> Some (calc_signal l)
             | None \<Rightarrow> gap_loop tol presses (Some stop) gaps))"

definition get_gap_length :: "tolerances \<Rightarrow> (mytimeval \<times> mytimeval) list \<Rightarrow> ir_remote \<Rightarrow> bool \<times> ir_remote" where
  "get_gap_length tol presses remote =
    (let remote = remote\<lparr>r_eps := tl_eps tol, r_aeps := tl_aeps tol\<rparr>
     in case gap_loop tol presses None [] of None \<Rightarrow> (False, remote) | Some gap \<Rightarrow> (True, remote\<lparr>r_gap := gap\<rparr>))"

end
