(* ===== verification/LengthsLaws.thy ===== *)
theory LengthsLaws
  imports Lengths "HOL-Library.Multiset"
begin

text \<open>
  The buckets hold the samples: each bucket stands for a multiset of durations, adding puts a duration into
  one of them, merging unites them, and none is lost. On that rests that \<open>get_lengths\<close> neither follows a
  null pointer nor leaves an array nor divides by zero.
\<close>

subsection \<open>A bucket is a multiset of durations\<close>

definition bucket_of :: "lengths \<Rightarrow> lirc_t multiset \<Rightarrow> bool" where
  "bucket_of l M \<longleftrightarrow> M \<noteq> {#} \<and> le_count l = int (size M) \<and> le_sum l = sum_mset M \<and>
     le_min l = Min_mset M \<and> le_max l = Max_mset M \<and> (\<forall>x \<in># M. le_lower l \<le> x \<and> x \<le> le_upper l)"

definition holds :: "lengths list \<Rightarrow> lirc_t multiset \<Rightarrow> bool" where
  "holds ls M \<longleftrightarrow> (\<exists>Ms. list_all2 bucket_of ls Ms \<and> sum_list Ms = M)"

text \<open>So few and so short that nothing wraps around.\<close>

definition modest :: "lirc_t multiset \<Rightarrow> bool" where
  "modest M \<longleftrightarrow> (\<forall>x \<in># M. 0 < x) \<and> sum_mset M < 2 ^ 31 - 100"

lemma modest_size: "(\<forall>x \<in># M. 0 < x) \<Longrightarrow> int (size M) \<le> sum_mset M"
  by (induction M) auto

lemma modest_union: "modest (M + N) \<Longrightarrow> modest M \<and> modest N"
proof -
  assume m: "modest (M + N)"
  then have p: "\<forall>x \<in># M. 0 < x" "\<forall>x \<in># N. 0 < x" by (auto simp: modest_def)
  have "0 \<le> sum_mset M" "0 \<le> sum_mset N"
    using modest_size [OF p(1)] modest_size [OF p(2)] by linarith+
  with m p show ?thesis by (simp add: modest_def)
qed

lemma modest_elem: "modest M \<Longrightarrow> x \<in># M \<Longrightarrow> x \<le> sum_mset M"
  by (induction M) (auto simp: modest_def dest: modest_size intro: order_trans)

lemma modest_bounds:
  assumes "modest M"
  shows "0 \<le> sum_mset M" "sum_mset M < 2 ^ 31" "int (size M) < 2 ^ 31"
  using assms modest_size [of M] by (auto simp: modest_def intro: order_trans)

lemma small_sum: "modest M \<Longrightarrow> i32 (sum_mset M) = sum_mset M \<and> u32 (sum_mset M) = sum_mset M \<and> u32 (int (size M)) = int (size M)"
  using modest_bounds [of M] by (simp add: i32_id in32_def u32_id)

lemma Min_mset_add: "M \<noteq> {#} \<Longrightarrow> N \<noteq> {#} \<Longrightarrow> Min_mset (M + N) = min (Min_mset M) (Min_mset N)"
  by (simp add: Min_Un)

lemma Max_mset_add: "M \<noteq> {#} \<Longrightarrow> N \<noteq> {#} \<Longrightarrow> Max_mset (M + N) = max (Max_mset M) (Max_mset N)"
  by (simp add: Max_Un)

lemma new_bucket:
  assumes "0 < x" and "x < 2 ^ 31 - 100"
  shows "bucket_of (new_length x) {#x#}"
proof -
  have q: "quot x 100 = x div 100" using assms by (simp add: quot_nonneg)
  have r: "0 \<le> x div 100 * 100" "x div 100 * 100 \<le> x" "x < x div 100 * 100 + 100" using assms(1) by simp_all
  have i: "i32 (x div 100 * 100) = x div 100 * 100" "i32 (x div 100 * 100 + 99) = x div 100 * 100 + 99"
    using r assms(2) by (auto intro!: i32_id simp: in32_def)
  from r show ?thesis
    by (simp add: bucket_of_def new_length_def c_arith q i)
qed

lemma count_in_bucket:
  assumes "bucket_of l M" and "modest (add_mset x M)" and "le_lower l \<le> x" "x \<le> le_upper l"
  shows "bucket_of (count_in l x) (add_mset x M)"
proof -
  have "M \<noteq> {#}" using assms(1) by (simp add: bucket_of_def)
  with assms small_sum [OF assms(2)] show ?thesis
    by (auto simp: bucket_of_def count_in_def c_arith min.commute max.commute add.commute)
qed

lemma merge_two_bucket:
  assumes "bucket_of l M" and "bucket_of l' N" and "modest (M + N)"
  shows "bucket_of (merge_two l l') (M + N)"
  using assms small_sum [OF assms(3)]
  by (auto simp: bucket_of_def merge_two_def c_arith Min_Un Max_Un)

subsection \<open>Lists of buckets\<close>

lemma holds_Nil [simp]: "holds [] M \<longleftrightarrow> M = {#}"
  by (auto simp: holds_def)

lemma holds_Cons: "holds (l # ls) M \<longleftrightarrow> (\<exists>N R. bucket_of l N \<and> holds ls R \<and> M = N + R)"
  by (auto simp: holds_def list_all2_Cons1 intro: exI [of _ "_ # _"]) (metis list_all2_Cons sum_list.Cons)

lemma holds_ConsI: "bucket_of l N \<Longrightarrow> holds ls R \<Longrightarrow> M = N + R \<Longrightarrow> holds (l # ls) M"
  by (auto simp: holds_Cons)

lemma holds_append: "holds (ls @ ls') M \<longleftrightarrow> (\<exists>N R. holds ls N \<and> holds ls' R \<and> M = N + R)"
proof (induction ls arbitrary: M)
  case (Cons l ls)
  then show ?case by (simp add: holds_Cons) (metis add.assoc)
qed simp

lemma holds_empty: "holds ls {#} \<longleftrightarrow> ls = []"
  by (cases ls) (auto simp: holds_Cons bucket_of_def)

lemma add_length_holds:
  assumes "holds ls M" and "modest (add_mset x M)"
  shows "holds (add_length ls x) (add_mset x M)"
  using assms
proof (induction ls arbitrary: M)
  case Nil
  then have "bucket_of (new_length x) {#x#}" by (intro new_bucket) (simp_all add: modest_def)
  with Nil show ?case by (auto simp: holds_Cons)
next
  case (Cons l ls)
  then obtain N R where nr: "bucket_of l N" "holds ls R" "M = N + R" by (auto simp: holds_Cons)
  have m: "modest (add_mset x N)" "modest (add_mset x R)"
    using modest_union [of "add_mset x N" R] modest_union [of "add_mset x R" N] Cons.prems(2) nr(3)
    by (simp_all add: add.commute)
  show ?case
  proof (cases "le_lower l \<le> x \<and> x \<le> le_upper l")
    case True
    with count_in_bucket [OF nr(1) m(1)] nr show ?thesis
      by (auto intro: holds_ConsI [of _ "add_mset x N" _ R])
  next
    case False
    with Cons.IH [OF nr(2) m(2)] nr show ?thesis
      by (auto intro: holds_ConsI [of _ N _ "add_mset x R"])
  qed
qed

lemma absorb_holds:
  assumes "bucket_of l N" and "holds ls R" and "modest (N + R)"
  shows "holds (fst (absorb tol l ls) # snd (absorb tol l ls)) (N + R)"
  using assms
proof (induction tol l ls arbitrary: N R rule: absorb.induct)
  case (1 tol l)
  then show ?case by (auto simp: holds_Cons)
next
  case (2 tol l inner ls)
  then obtain K Q where kq: "bucket_of inner K" "holds ls Q" "R = K + Q" by (auto simp: holds_Cons)
  show ?case
  proof (cases "mergeable tol l inner")
    case True
    have "modest (N + K)" using modest_union [of "N + K" Q] 2(5) kq(3) by (simp add: add.assoc)
    with 2(1) [OF True merge_two_bucket [OF 2(3) kq(1)] kq(2)] 2(5) kq(3) True show ?thesis
      by (simp add: add.assoc)
  next
    case False
    have "modest (N + Q)" using modest_union [of "N + Q" K] 2(5) kq(3) by (simp add: ac_simps)
    from 2(2) [OF False 2(3) kq(2) this] obtain A B where
      ab: "bucket_of (fst (absorb tol l ls)) A" "holds (snd (absorb tol l ls)) B" "N + Q = A + B"
      by (auto simp: holds_Cons)
    have "N + R = A + (K + B)" using ab(3) kq(3) by (metis add.assoc add.commute)
    moreover have "holds (inner # snd (absorb tol l ls)) (K + B)"
      by (rule holds_ConsI [OF kq(1) ab(2)]) simp
    ultimately show ?thesis
      using ab(1) False by (simp add: Let_def split_beta) (blast intro: holds_ConsI)
  qed
qed

lemma merge_lengths_holds: "holds ls M \<Longrightarrow> modest M \<Longrightarrow> holds (merge_lengths tol ls) M"
proof (induction tol ls arbitrary: M rule: merge_lengths.induct)
  case (2 tol l ls)
  then obtain N R where nr: "bucket_of l N" "holds ls R" "M = N + R" by (auto simp: holds_Cons)
  with 2(3) absorb_holds [OF nr(1,2)] have "holds (fst (absorb tol l ls) # snd (absorb tol l ls)) M" by simp
  then obtain K Q where kq: "bucket_of (fst (absorb tol l ls)) K" "holds (snd (absorb tol l ls)) Q" "M = K + Q"
    by (auto simp: holds_Cons)
  with 2(1) [OF kq(2)] 2(3) modest_union [of K Q] show ?case
    by (auto simp: holds_Cons)
qed simp

lemma add_merge_holds:
  "holds ls M \<Longrightarrow> modest (add_mset x M) \<Longrightarrow> holds (add_merge tol x ls) (add_mset x M)"
  unfolding add_merge_def by (intro merge_lengths_holds add_length_holds)

subsection \<open>At most one bucket of very short durations\<close>

definition low :: "lengths \<Rightarrow> bool" where
  "low l \<longleftrightarrow> le_lower l < 100"

definition lows :: "lengths list \<Rightarrow> nat" where
  "lows ls = length (filter low ls)"

definition low_ok :: "lengths list \<Rightarrow> bool" where
  "low_ok ls \<longleftrightarrow> list_all (\<lambda>l. low l \<longrightarrow> le_lower l \<le> 0 \<and> 99 \<le> le_upper l) ls \<and> lows ls \<le> 1"

abbreviation spans :: "lengths list \<Rightarrow> bool" where
  "spans ls \<equiv> list_all (\<lambda>l. low l \<longrightarrow> le_lower l \<le> 0 \<and> 99 \<le> le_upper l) ls"

lemma lows_simps [simp]: "lows [] = 0" "lows (l # ls) = (if low l then 1 else 0) + lows ls"
  by (simp_all add: lows_def)

lemma lows_append [simp]: "lows (ls @ ls') = lows ls + lows ls'"
  by (simp add: lows_def)

lemma new_low:
  assumes "0 < x" and "x < 2 ^ 31 - 100"
  shows "low (new_length x) \<longleftrightarrow> x < 100" and "spans [new_length x]"
proof -
  have q: "quot x 100 = x div 100" using assms by (simp add: quot_nonneg)
  have r: "0 \<le> x div 100 * 100" "x div 100 * 100 \<le> x" "x < x div 100 * 100 + 100" using assms(1) by simp_all
  have i: "i32 (x div 100 * 100) = x div 100 * 100" "i32 (x div 100 * 100 + 99) = x div 100 * 100 + 99"
    using r assms(2) by (auto intro!: i32_id simp: in32_def)
  have "x div 100 < 1 \<longleftrightarrow> x < 100" using r by linarith
  then show "low (new_length x) \<longleftrightarrow> x < 100" and "spans [new_length x]"
    using r assms(1) by (simp_all add: low_def new_length_def c_arith q i)
qed

lemma low_count_in [simp]: "low (count_in l x) = low l"
  by (simp add: low_def count_in_def)

lemma lows_add_length:
  assumes "0 < x" and "x < 2 ^ 31 - 100" and "spans ls"
  shows "spans (add_length ls x)" and "lows (add_length ls x) = lows ls + (if x < 100 \<and> lows ls = 0 \<and> lows (add_length ls x) \<noteq> 0 then 1 else 0)"
proof -
  have "spans (add_length ls x) \<and> (100 \<le> x \<longrightarrow> lows (add_length ls x) = lows ls) \<and>
     (x < 100 \<longrightarrow> lows (add_length ls x) = lows ls \<or> lows ls = 0 \<and> lows (add_length ls x) = 1)"
    using assms(3)
  proof (induction ls)
    case Nil
    then show ?case using new_low [OF assms(1,2)] by simp
  next
    case (Cons l ls)
    show ?case
    proof (cases "le_lower l \<le> x \<and> x \<le> le_upper l")
      case True
      then show ?thesis using Cons.prems by (simp add: count_in_def low_def)
    next
      case False
      then have "x < 100 \<Longrightarrow> \<not> low l" using Cons.prems assms(1) by auto
      with False Cons show ?thesis by auto
    qed
  qed
  then show "spans (add_length ls x)" and "lows (add_length ls x) = lows ls + (if x < 100 \<and> lows ls = 0 \<and> lows (add_length ls x) \<noteq> 0 then 1 else 0)"
    by auto
qed

lemma lows_absorb:
  assumes "spans (l # ls)"
  shows "spans (fst (absorb tol l ls) # snd (absorb tol l ls)) \<and>
     lows (fst (absorb tol l ls) # snd (absorb tol l ls)) \<le> lows (l # ls)"
  using assms
proof (induction tol l ls rule: absorb.induct)
  case (2 tol l inner ls)
  show ?case
  proof (cases "mergeable tol l inner")
    case True
    have m: "low (merge_two l inner) \<longleftrightarrow> low l \<or> low inner" by (auto simp: low_def merge_two_def)
    have "spans (merge_two l inner # ls)" using 2(3) m by (auto simp: merge_two_def min_def max_def)
    from 2(1) [OF True this] show ?thesis using True m by auto
  next
    case False
    with 2(2) [OF False] 2(3) show ?thesis by (auto simp: Let_def split_beta split: if_splits)
  qed
qed simp

lemma lows_merge: "spans ls \<Longrightarrow> spans (merge_lengths tol ls) \<and> lows (merge_lengths tol ls) \<le> lows ls"
proof (induction tol ls rule: merge_lengths.induct)
  case (2 tol l ls)
  from lows_absorb [OF 2(2), of tol] 2(1) show ?case by fastforce
qed simp

lemma low_ok_add_merge:
  assumes "low_ok ls" and "0 < x" and "x < 2 ^ 31 - 100"
  shows "low_ok (add_merge tol x ls)"
proof -
  from assms(1) have s: "spans ls" "lows ls \<le> 1" by (simp_all add: low_ok_def)
  note a = lows_add_length [OF assms(2,3) s(1)]
  from a(2) s(2) have "lows (add_length ls x) \<le> 1" by (auto split: if_splits)
  with lows_merge [OF a(1), of tol] show ?thesis by (auto simp: low_ok_def add_merge_def)
qed

subsection \<open>The fullest bucket\<close>

lemma max_scan_nth:
  assumes "i < length ls" and "ls ! i = best" and "k + length rest = length ls" and "drop k ls = rest"
  shows "case max_scan rest k (i, best, n) of (j, l, _) \<Rightarrow> j < length ls \<and> ls ! j = l"
  using assms
proof (induction rest arbitrary: k i best n)
  case (Cons l rest)
  have k: "k < length ls" "ls ! k = l" "drop (Suc k) ls = rest"
    using Cons.prems(3,4) by (auto simp: drop_Suc drop_tl nth_via_drop)
  show ?case
    using Cons.IH [of k l "Suc k"] Cons.IH [of i best "Suc k"] k Cons.prems by simp
qed simp

lemma get_max_length_SomeD:
  assumes "get_max_length ls = Some (i, l, n)"
  shows "i < length ls" and "l = ls ! i" and "ls \<noteq> []"
proof -
  obtain x xs where ls: "ls = x # xs" using assms by (cases ls) (simp_all add: get_max_length_def)
  have "i < length ls \<and> ls ! i = l"
    using max_scan_nth [of 0 ls x 1 xs "le_count x"] assms by (simp add: ls get_max_length_def)
  then show "i < length ls" and "l = ls ! i" and "ls \<noteq> []" using ls by simp_all
qed

lemma get_max_length_None [simp]: "get_max_length ls = None \<longleftrightarrow> ls = []"
  by (cases ls) (simp_all add: get_max_length_def)

lemma get_max_length_Nil [simp]: "get_max_length [] = None"
  by simp

lemma get_max_length_Some: "ls \<noteq> [] \<Longrightarrow> \<exists>i l n. get_max_length ls = Some (i, l, n)"
  by (cases "get_max_length ls") auto

lemma unlinked: "i < length ls \<Longrightarrow> ls = take i ls @ ls ! i # drop (Suc i) ls"
  by (simp add: id_take_nth_drop)

lemma holds_front: "i < length ls \<Longrightarrow> holds (ls ! i # unlink_length ls i) M \<longleftrightarrow> holds ls M"
proof -
  assume "i < length ls"
  then have "holds ls M \<longleftrightarrow> holds (take i ls @ ls ! i # drop (Suc i) ls) M" by (simp flip: unlinked)
  then show ?thesis
    by (auto simp: holds_append holds_Cons unlink_length_def) (metis add.left_commute)+
qed

lemma low_ok_front: "i < length ls \<Longrightarrow> low_ok (ls ! i # unlink_length ls i) \<longleftrightarrow> low_ok ls"
proof -
  assume "i < length ls"
  then have "low_ok ls \<longleftrightarrow> low_ok (take i ls @ ls ! i # drop (Suc i) ls)" by (simp flip: unlinked)
  then show ?thesis by (auto simp: low_ok_def unlink_length_def)
qed

text \<open>The mean lies between the shortest and the longest sample.\<close>

lemma sum_mset_bounds:
  fixes M :: "int multiset"
  shows "\<forall>x \<in># M. a \<le> x \<Longrightarrow> a * int (size M) \<le> sum_mset M" and "\<forall>x \<in># M. x \<le> a \<Longrightarrow> sum_mset M \<le> a * int (size M)"
  by (induction M) (auto simp: algebra_simps)

lemma calc_signal_between:
  assumes "bucket_of l M" and "modest M"
  shows "calc_signal l = sum_mset M div int (size M)" and "le_min l \<le> calc_signal l" and "calc_signal l \<le> le_max l"
proof -
  have ne: "M \<noteq> {#}" using assms(1) by (simp add: bucket_of_def)
  then have n: "0 < int (size M)" by (simp add: nonempty_has_size)
  have lo: "Min_mset M * int (size M) \<le> sum_mset M" and hi: "sum_mset M \<le> Max_mset M * int (size M)"
    by (intro sum_mset_bounds; simp)+
  have d: "Min_mset M \<le> sum_mset M div int (size M)" "sum_mset M div int (size M) \<le> Max_mset M"
    using zdiv_mono1 [OF lo n] zdiv_mono1 [OF hi n] n ne by simp_all
  have "0 \<le> sum_mset M div int (size M)" "sum_mset M div int (size M) \<le> sum_mset M"
    using modest_bounds [OF assms(2)] n zdiv_mono2 [of "sum_mset M" 1 "int (size M)"]
    by (simp_all add: pos_imp_zdiv_nonneg_iff)
  then show "calc_signal l = sum_mset M div int (size M)"
    using assms(1) small_sum [OF assms(2)] modest_bounds(2) [OF assms(2)]
    by (simp add: calc_signal_def bucket_of_def i32_id in32_def)
  with d assms(1) show "le_min l \<le> calc_signal l" and "calc_signal l \<le> le_max l"
    by (simp_all add: bucket_of_def)
qed

subsection \<open>A list within a budget\<close>

text \<open>All durations in the list together last at most \<open>t\<close> microseconds.\<close>

definition okay :: "lengths list \<Rightarrow> int \<Rightarrow> bool" where
  "okay ls t \<longleftrightarrow> low_ok ls \<and> (\<exists>M. holds ls M \<and> (\<forall>x \<in># M. 0 < x) \<and> sum_mset M \<le> t)"

lemma okay_Nil [simp]: "okay [] t \<longleftrightarrow> 0 \<le> t"
  by (simp add: okay_def low_ok_def)

lemma okay_mono: "okay ls t \<Longrightarrow> t \<le> t' \<Longrightarrow> okay ls t'"
  by (auto simp: okay_def)

lemma okay_nonneg: "okay ls t \<Longrightarrow> 0 \<le> t"
  by (auto simp: okay_def dest: modest_size)

lemma okay_add:
  assumes "okay ls t" and "0 < x" and "t + x \<le> t'" and "t' < 2 ^ 31 - 100"
  shows "okay (add_merge tol x ls) t'"
proof -
  from assms(1) obtain M where M: "low_ok ls" "holds ls M" "\<forall>x \<in># M. 0 < x" "sum_mset M \<le> t"
    by (auto simp: okay_def)
  with assms(2-4) have "modest (add_mset x M)" by (auto simp: modest_def)
  moreover have "x < 2 ^ 31 - 100" using assms okay_nonneg [OF assms(1)] by linarith
  ultimately show ?thesis
    using M assms(2,3) low_ok_add_merge [OF M(1) assms(2)] add_merge_holds [OF M(2)]
    unfolding okay_def by (intro conjI exI [of _ "add_mset x M"]) auto
qed

lemma add_length_nonempty [simp]: "add_length ls x \<noteq> []"
  by (cases ls) simp_all

lemma add_merge_nonempty [simp]: "add_merge tol x ls \<noteq> []"
  by (cases "add_length ls x") (simp_all add: add_merge_def)

lemma okay_front: "i < length ls \<Longrightarrow> okay (ls ! i # unlink_length ls i) t \<longleftrightarrow> okay ls t"
  by (simp add: okay_def low_ok_front holds_front)

lemma calc_signal_le_sum:
  assumes "bucket_of l M" and "modest M"
  shows "calc_signal l \<le> sum_mset M" and "1 \<le> calc_signal l" and "\<not> low l \<Longrightarrow> 100 \<le> calc_signal l"
proof -
  note c = calc_signal_between [OF assms]
  have ne: "M \<noteq> {#}" using assms(1) by (simp add: bucket_of_def)
  then have min: "le_min l \<in># M" and "1 \<le> int (size M)"
    using assms(1) by (simp_all add: bucket_of_def Suc_le_eq nonempty_has_size)
  then show "calc_signal l \<le> sum_mset M"
    using c(1) zdiv_mono2 [of "sum_mset M" 1 "int (size M)"] modest_bounds(1) [OF assms(2)] by simp
  have "0 < le_min l" using min assms(2) by (simp add: modest_def)
  with c(2) show "1 \<le> calc_signal l" by linarith
  have "le_lower l \<le> le_min l" using min assms(1) by (simp add: bucket_of_def)
  with c(2) show "\<not> low l \<Longrightarrow> 100 \<le> calc_signal l" by (simp add: low_def)
qed

text \<open>Of two buckets of a list, one holds no duration below 100.\<close>

lemma one_not_low:
  assumes "okay ls t" and "i < length ls" and "l \<in> set (unlink_length ls i)"
  shows "\<not> low (ls ! i) \<or> \<not> low l"
proof -
  have "low_ok (ls ! i # unlink_length ls i)"
    using assms(1) by (simp add: low_ok_front [OF assms(2)] okay_def)
  then have "lows (ls ! i # unlink_length ls i) \<le> 1" by (simp add: low_ok_def)
  moreover have "low l \<Longrightarrow> 1 \<le> lows (unlink_length ls i)"
    using assms(3) by (simp add: lows_def Suc_le_eq filter_empty_conv) blast
  ultimately show ?thesis by auto
qed

lemma two_candidates:
  assumes "okay ls t" and "t < 2 ^ 31 - 100" and "i < length ls" and "l \<in> set (unlink_length ls i)"
  shows "1 \<le> calc_signal (ls ! i)" and "1 \<le> calc_signal l" and "calc_signal (ls ! i) + calc_signal l \<le> t"
    and "100 \<le> calc_signal (ls ! i) \<or> 100 \<le> calc_signal l"
proof -
  obtain M where M: "holds ls M" "\<forall>x \<in># M. 0 < x" "sum_mset M \<le> t" using assms(1) by (auto simp: okay_def)
  obtain xs ys where "unlink_length ls i = xs @ l # ys" using assms(4) by (meson split_list)
  with M(1) obtain N A K R where N: "bucket_of (ls ! i) N" "bucket_of l K" "M = (A + R) + (N + K)"
    by (auto simp: holds_append holds_Cons holds_front [OF assms(3), symmetric] ac_simps)
  have "modest M" using M assms(2) by (simp add: modest_def)
  then have m: "modest (A + R)" "modest (N + K)" using N(3) modest_union by blast+
  then have nk: "modest N" "modest K" using modest_union by blast+
  note n = calc_signal_le_sum [OF N(1) nk(1)] and k = calc_signal_le_sum [OF N(2) nk(2)]
  show "1 \<le> calc_signal (ls ! i)" and "1 \<le> calc_signal l" by (fact n(2), fact k(2))
  show "calc_signal (ls ! i) + calc_signal l \<le> t"
    using n(1) k(1) modest_bounds(1) [OF m(1)] M(3) N(3) by simp
  show "100 \<le> calc_signal (ls ! i) \<or> 100 \<le> calc_signal l"
    using one_not_low [OF assms(1,3,4)] n(3) k(3) by blast
qed

subsection \<open>What the lists stand for\<close>

text \<open>
  C10: no recorded duration is lost and none is counted twice. After any durations, of less than 35 minutes
  together, the buckets divide them among themselves: each bucket has the number, the sum, the least and
  the greatest of its durations, and together they are the durations that were recorded.
\<close>

theorem buckets_partition:
  assumes "\<forall>x \<in> set xs. 0 < x" and "sum_list xs < 2 ^ 31 - 100"
  shows "\<exists>Ms. list_all2 bucket_of (fold (add_merge tol) xs []) Ms \<and> sum_list Ms = mset xs"
proof -
  have "holds (fold (add_merge tol) ys ls) (M + mset ys)" if "holds ls M" "modest (M + mset ys)" for ys ls M
    using that
  proof (induction ys arbitrary: ls M)
    case (Cons y ys)
    have "modest (add_mset y M)" using modest_union [of "add_mset y M" "mset ys"] Cons.prems(2) by simp
    from Cons.IH [OF add_merge_holds [OF Cons.prems(1) this, of tol]] Cons.prems(2) show ?case by simp
  qed simp
  from this [of "[]" "{#}" xs] assms show ?thesis by (simp add: holds_def modest_def sum_mset_sum_list)
qed

theorem buckets_partition_witness:
  "\<exists>Ms. list_all2 bucket_of (fold (add_merge default_tolerances) [560, 1690, 570] []) Ms \<and> sum_list Ms = {#560, 1690, 570#}"
  using buckets_partition [of "[560, 1690, 570]" default_tolerances] by simp

lemma mergeable_iff_near:
  assumes "bucket_of l M" and "bucket_of l' N" and "modest (M + N)" and "tl_eps tol = 30" and "0 \<le> tl_aeps tol" and "tl_aeps tol < 2 ^ 30"
    and "sum_mset (M + N) div int (size (M + N)) < 33000000"
  shows "mergeable tol l l' \<longleftrightarrow> (\<forall>x \<in># M + N. \<bar>x - sum_mset (M + N) div int (size (M + N))\<bar> \<le> tl_aeps tol)"
proof -
  let ?q = "sum_mset (M + N) div int (size (M + N))" and ?a = "tl_aeps tol"
  have b: "bucket_of (merge_two l l') (M + N)" by (rule merge_two_bucket [OF assms(1-3)])
  note s = small_sum [OF assms(3)] modest_bounds [OF assms(3)]
  have ne: "M \<noteq> {#}" "N \<noteq> {#}" using assms(1,2) by (simp_all add: bucket_of_def)
  have "joint_mean l l' = ?q"
    using assms(1,2) s by (simp add: joint_mean_def bucket_of_def i32_id in32_def)
  have q: "1 \<le> ?q" "?q = calc_signal (merge_two l l')"
    using calc_signal_le_sum(2) [OF b assms(3)] calc_signal_between(1) [OF b assms(3)] by simp_all
  have mm: "modest M" "modest N" using modest_union [OF assms(3)] by simp_all
  have ends: "0 < le_min l" "0 < le_min l'" "le_min l \<le> le_max l" "le_min l' \<le> le_max l'" "le_max l < 2 ^ 31 - 100" "le_max l' < 2 ^ 31 - 100"
    using ne assms(1,2) modest_elem [OF mm(1)] modest_elem [OF mm(2)] modest_bounds(2) [OF mm(1)] modest_bounds(2) [OF mm(2)] mm
    by (auto simp: bucket_of_def modest_def intro: order.strict_trans1)
  have lo: "le_min l \<le> ?q \<or> le_min l' \<le> ?q"
    using calc_signal_between(2) [OF b assms(3)] q(2) by (simp add: merge_two_def min_def split: if_splits)
  have small: "u32 (le_max l) = le_max l" "u32 (le_max l') = le_max l'" "u32 (le_min l) = le_min l" "u32 (le_min l') = le_min l'"
    "u32 (le_min l + ?a) = le_min l + ?a" "u32 (le_min l' + ?a) = le_min l' + ?a" "u32 (?q + ?a) = ?q + ?a" "u32 (?q * 70) = ?q * 70"
    using ends q(1) assms(5-7) by (auto intro!: u32_id)
  have all: "(\<forall>x \<in># K. \<bar>x - r\<bar> \<le> ?a) \<longleftrightarrow> Max_mset K \<le> r + ?a \<and> r \<le> Min_mset K + ?a" if "K \<noteq> {#}" for K and r :: int
  proof -
    have "r \<le> Min_mset K + ?a \<longleftrightarrow> r - ?a \<le> Min_mset K" by linarith
    also have "\<dots> \<longleftrightarrow> (\<forall>x \<in># K. r - ?a \<le> x)" using that by simp
    finally show ?thesis using that by (auto simp: abs_le_iff algebra_simps)
  qed
  have "(\<forall>x \<in># M + N. \<bar>x - ?q\<bar> \<le> ?a) \<longleftrightarrow> (\<forall>x \<in># M. \<bar>x - ?q\<bar> \<le> ?a) \<and> (\<forall>x \<in># N. \<bar>x - ?q\<bar> \<le> ?a)" by auto
  also have "\<dots> \<longleftrightarrow> le_max l \<le> ?q + ?a \<and> ?q \<le> le_min l + ?a \<and> le_max l' \<le> ?q + ?a \<and> ?q \<le> le_min l' + ?a"
    using assms(1,2) unfolding all [OF ne(1)] all [OF ne(2)] by (auto simp: bucket_of_def)
  finally have rhs: "(\<forall>x \<in># M + N. \<bar>x - ?q\<bar> \<le> ?a) \<longleftrightarrow>
    le_max l \<le> ?q + ?a \<and> ?q \<le> le_min l + ?a \<and> le_max l' \<le> ?q + ?a \<and> ?q \<le> le_min l' + ?a" .
  have "u32 70 = 70" by (rule u32_id) simp_all
  then show ?thesis
    unfolding rhs mergeable_def \<open>joint_mean l l' = ?q\<close> Let_def assms(4) using small lo q(1) by auto
qed

text \<open>
  Buckets are merged by the absolute tolerance alone. Two buckets with a mean of less than 33 seconds
  are merged exactly if each of their durations is within \<open>aeps\<close> of the mean; the second condition, with the
  relative tolerance, never holds, since it compares with 70 and 130 times the mean.
\<close>

theorem merge_is_absolute:
  assumes "bucket_of l M" and "bucket_of l' N" and "modest (M + N)" and "tl_eps tol = 30" and "0 \<le> tl_aeps tol" and "tl_aeps tol < 2 ^ 30"
    and "sum_mset (M + N) div int (size (M + N)) < 33000000"
  shows "mergeable tol l l' \<longleftrightarrow> (\<forall>x \<in># M + N. \<bar>x - sum_mset (M + N) div int (size (M + N))\<bar> \<le> tl_aeps tol)"
  using assms by (rule mergeable_iff_near)

theorem merge_is_absolute_witness:
  "mergeable default_tolerances (new_length 560) (new_length 620) \<longleftrightarrow> (\<forall>x \<in># {#560#} + {#620#}. \<bar>x - 1180 div 2\<bar> \<le> (100 :: int))"
  using merge_is_absolute [of "new_length 560" "{#560#}" "new_length 620" "{#620#}" default_tolerances] new_bucket [of 560] new_bucket [of 620]
  by (simp add: default_tolerances_def modest_def)

end
