(* ===== verification/LengthsState.thy ===== *)
theory LengthsState
  imports LengthsLaws
begin

text \<open>
  The state of the analysis in \<open>get_lengths\<close>: what every step keeps, and that no step fails.
\<close>

subsection \<open>The state of the analysis\<close>

definition sound :: "int \<Rightarrow> measures \<Rightarrow> bool" where
  "sound t m \<longleftrightarrow> list_all (\<lambda>ls. okay ls t) [ms_space m, ms_pulse m, ms_sum m, ms_gap m, ms_repeat_gap m, ms_signal_length m,
     ms_headerp m, ms_headers m, ms_1lead m, ms_3lead m, ms_trail m, ms_repeatp m, ms_repeats m]"

text \<open>What the evaluation looks up without asking whether it is there.\<close>

definition filled :: "measures \<Rightarrow> bool" where
  "filled m \<longleftrightarrow>
     (0 < ms_count_signals m \<longrightarrow> ms_pulse m \<noteq> [] \<and> ms_space m \<noteq> [] \<and> ms_1lead m \<noteq> [] \<and> ms_trail m \<noteq> [] \<and> ms_signal_length m \<noteq> []) \<and>
     (ms_headerp m \<noteq> [] \<longrightarrow> ms_headers m \<noteq> []) \<and>
     (0 < ms_count_3repeats m \<or> 0 < ms_count_5repeats m \<longrightarrow> ms_repeatp m \<noteq> [] \<and> ms_repeats m \<noteq> [] \<and> ms_repeat_gap m \<noteq> [])"

definition indexed :: "measures \<Rightarrow> bool" where
  "indexed m \<longleftrightarrow> length (ms_lengths m) = 512 \<and> length (ms_signals m) = 512 \<and> 0 \<le> ms_count m \<and>
     0 \<le> ms_first_length m \<and> ms_first_length m \<le> 510"

text \<open>The durations of the signal that is being received.\<close>

definition tracked :: "measures \<Rightarrow> bool" where
  "tracked m \<longleftrightarrow> ms_count m \<le> 512 \<and> (\<forall>i < nat (ms_count m). 0 < ms_signals m ! i) \<and>
     ms_elapsed m = (\<Sum>i < nat (ms_count m). ms_signals m ! i)"

lemma sound_mono: "sound t m \<Longrightarrow> t \<le> t' \<Longrightarrow> sound t' m"
  by (auto simp: sound_def intro: okay_mono)

lemma sound_nonneg: "sound t m \<Longrightarrow> 0 \<le> t"
  using okay_nonneg [of "ms_space m" t] by (simp add: sound_def)

lemma count_repeat_sound:
  assumes "sound t m" and "t' < 2 ^ 31 - 100" and "\<And>i. k \<le> i \<Longrightarrow> i < k + 4 \<Longrightarrow> 0 < ms_signals m ! i \<and> t + ms_signals m ! i \<le> t'"
  shows "sound t' (count_repeat tol k m)"
proof -
  have "okay ls t \<Longrightarrow> i \<in> {k, k + 1, k + 2, k + 3} \<Longrightarrow> okay (add_merge tol (ms_signals m ! i) ls) t'" for ls i
    using assms(2,3) by (intro okay_add) auto
  moreover have "t \<le> t'" using assms(3) [of k] by simp
  ultimately show ?thesis
    using assms(1) okay_mono by (auto simp: sound_def count_repeat_def Let_def)
qed

lemma count_header_sound:
  assumes "sound t m" and "t' < 2 ^ 31 - 100" and "\<And>i. i < 2 \<Longrightarrow> 0 < ms_signals m ! i \<and> t + ms_signals m ! i \<le> t'"
  shows "sound t' (count_header tol m)"
proof -
  have "okay ls t \<Longrightarrow> i \<in> {0, 1} \<Longrightarrow> okay (add_merge tol (ms_signals m ! i) ls) t'" for ls i
    using assms(2,3) by (intro okay_add) auto
  moreover have "t \<le> t'" using assms(3) [of 0] by simp
  ultimately show ?thesis
    using assms(1) okay_mono by (auto simp: sound_def count_header_def)
qed

lemma count_cell_signals [simp]: "ms_signals (count_cell tol i m) = ms_signals m"
  by (simp add: count_cell_def)

lemma count_cell_shape: "\<exists>ps ss. count_cell tol i m = m\<lparr>ms_pulse := ps, ms_space := ss\<rparr>"
proof (cases "odd i")
  case True
  then have "count_cell tol i m = m\<lparr>ms_pulse := ms_pulse m, ms_space := add_merge tol (ms_signals m ! i) (ms_space m)\<rparr>"
    by (simp add: count_cell_def)
  then show ?thesis by blast
next
  case False
  then have "count_cell tol i m = m\<lparr>ms_pulse := add_merge tol (ms_signals m ! i) (ms_pulse m), ms_space := ms_space m\<rparr>"
    by (simp add: count_cell_def)
  then show ?thesis by blast
qed

lemma count_cells_shape: "\<exists>ps ss. fold (count_cell tol) is m = m\<lparr>ms_pulse := ps, ms_space := ss\<rparr>"
proof (induction "is" arbitrary: m)
  case Nil
  have "m = m\<lparr>ms_pulse := ms_pulse m, ms_space := ms_space m\<rparr>" by simp
  then show ?case by (metis fold_simps(1))
next
  case (Cons i "is")
  obtain ps ss where "fold (count_cell tol) is (count_cell tol i m) = (count_cell tol i m)\<lparr>ms_pulse := ps, ms_space := ss\<rparr>"
    using Cons.IH by blast
  moreover obtain ps' ss' where "count_cell tol i m = m\<lparr>ms_pulse := ps', ms_space := ss'\<rparr>"
    using count_cell_shape by blast
  ultimately have "fold (count_cell tol) (i # is) m = m\<lparr>ms_pulse := ps, ms_space := ss\<rparr>" by simp
  then show ?case by blast
qed

lemma count_cells_okay:
  assumes "okay (ms_pulse m) t" and "okay (ms_space m) t" and "\<forall>i \<in> set is. 0 < ms_signals m ! i"
    and "t + sum_list (map ((!) (ms_signals m)) is) \<le> t'" and "t' < 2 ^ 31 - 100"
  shows "okay (ms_pulse (fold (count_cell tol) is m)) t' \<and> okay (ms_space (fold (count_cell tol) is m)) t'"
  using assms
proof (induction "is" arbitrary: m t)
  case Nil
  then show ?case by (simp add: okay_mono)
next
  case (Cons i "is")
  let ?x = "ms_signals m ! i"
  have "0 \<le> sum_list (map ((!) (ms_signals m)) is)"
    using Cons.prems(3) by (intro sum_list_nonneg) auto
  then have "0 < ?x" "t + ?x < 2 ^ 31 - 100" using Cons.prems by simp_all
  then have "okay (ms_pulse (count_cell tol i m)) (t + ?x)" "okay (ms_space (count_cell tol i m)) (t + ?x)"
    using Cons.prems(1,2) okay_add [of _ t ?x "t + ?x" tol] okay_mono [of _ t "t + ?x"] by (simp_all add: count_cell_def)
  from Cons.IH [OF this] Cons.prems show ?case by (simp add: add.assoc)
qed

lemma count_cells_nonempty:
  "(ms_pulse m \<noteq> [] \<or> (\<exists>i \<in> set is. even i) \<longrightarrow> ms_pulse (fold (count_cell tol) is m) \<noteq> []) \<and>
   (ms_space m \<noteq> [] \<or> (\<exists>i \<in> set is. odd i) \<longrightarrow> ms_space (fold (count_cell tol) is m) \<noteq> [])"
proof (induction "is" arbitrary: m)
  case (Cons i "is")
  have "ms_pulse m \<noteq> [] \<or> even i \<Longrightarrow> ms_pulse (count_cell tol i m) \<noteq> []"
    and "ms_space m \<noteq> [] \<or> odd i \<Longrightarrow> ms_space (count_cell tol i m) \<noteq> []"
    by (auto simp: count_cell_def)
  with Cons.IH [of "count_cell tol i m"] show ?case by auto
qed simp

text \<open>Any of the durations of a signal is at most the signal, and so are those that are no two the same.\<close>

lemma part_le:
  assumes "tracked m" and "i < nat (ms_count m)"
  shows "0 < ms_signals m ! i" and "ms_signals m ! i \<le> ms_elapsed m"
proof -
  have pos: "\<forall>j < nat (ms_count m). 0 < ms_signals m ! j" using assms(1) by (simp add: tracked_def)
  with assms(2) show "0 < ms_signals m ! i" by blast
  have "ms_signals m ! i \<le> (\<Sum>j < nat (ms_count m). ms_signals m ! j)"
    using assms(2) pos by (intro member_le_sum) (auto simp: less_imp_le)
  then show "ms_signals m ! i \<le> ms_elapsed m" using assms(1) by (simp add: tracked_def)
qed

lemma cells_le:
  assumes "tracked m" and "set is \<subseteq> {..<nat (ms_count m)}" and "distinct is"
  shows "sum_list (map ((!) (ms_signals m)) is) \<le> ms_elapsed m"
proof -
  have "sum_list (map ((!) (ms_signals m)) is) = (\<Sum>j \<in> set is. ms_signals m ! j)"
    using assms(3) by (simp add: sum_list_distinct_conv_sum_set)
  also have "\<dots> \<le> (\<Sum>j < nat (ms_count m). ms_signals m ! j)"
    using assms(1,2) by (intro sum_mono2) (auto simp: tracked_def less_imp_le)
  finally show ?thesis using assms(1) by (simp add: tracked_def)
qed

subsection \<open>A complete signal\<close>

lemma bump_Some: "0 \<le> i \<Longrightarrow> i < 512 \<Longrightarrow> length xs = 512 \<Longrightarrow> \<exists>ys. bump xs i d = Some ys \<and> length ys = 512"
  by (simp add: bump_def)

text \<open>The parts of the state that are not touched while a signal is counted.\<close>

definition same_place :: "measures \<Rightarrow> measures \<Rightarrow> bool" where
  "same_place m m' \<longleftrightarrow> ms_remote m' = ms_remote m \<and> ms_have_gap m' = ms_have_gap m \<and> ms_signals m' = ms_signals m \<and> ms_count m' = ms_count m"

definition same_starts :: "measures \<Rightarrow> measures \<Rightarrow> bool" where
  "same_starts m m' \<longleftrightarrow> ms_3lead m' = ms_3lead m \<and> ms_headerp m' = ms_headerp m \<and> ms_headers m' = ms_headers m"

lemma count_durations_counts:
  assumes "sound t m" and "tracked m" and "indexed m" and "filled m" and "6 < ms_count m"
    and "data = ms_signals m ! nat (ms_count m - 1)" and "t + ms_elapsed m < 2 ^ 31 - 100"
  obtains m' where "count_durations tol data m = Some m'" and "sound (t + ms_elapsed m) m'" and "indexed m'" and "filled m'"
    and "same_place m m'" and "same_starts m m'"
proof -
  let ?t = "t + ms_elapsed m" and ?c = "ms_count m" and ?is = "[2..<nat (ms_count m) - 2]" and ?sig = "ms_signals m"
  note part = part_le [OF assms(2)]
  have c: "6 < ?c" "?c \<le> 512" using assms(2,5) by (simp_all add: tracked_def)
  have add: "okay ls t \<Longrightarrow> i < nat ?c \<Longrightarrow> okay (add_merge tol (?sig ! i) ls) ?t" for ls i
    using part [of i] assms(7) by (intro okay_add [of _ t]) simp_all
  have old: "okay ls t \<Longrightarrow> okay ls ?t" for ls
    using part [of 0] c by (auto intro: okay_mono)
  define m1 where "m1 = m\<lparr>ms_count_signals := u32 (ms_count_signals m + 1), ms_1lead := add_merge tol (?sig ! 0) (ms_1lead m)\<rparr>"
  obtain ps ss where m2: "fold (count_cell tol) ?is m1 = m1\<lparr>ms_pulse := ps, ms_space := ss\<rparr>"
    using count_cells_shape by blast
  have pos: "\<forall>i \<in> set ?is. 0 < ?sig ! i" using part(1) by auto
  have "set ?is \<subseteq> {..<nat ?c}" by auto
  then have sum: "t + sum_list (map ((!) ?sig) ?is) \<le> ?t"
    using cells_le [OF assms(2), of ?is] by simp
  have cells: "okay ps ?t" "okay ss ?t"
    using count_cells_okay [of m1 t ?is ?t tol] assms(1,7) sum pos unfolding m2
    by (simp_all add: m1_def sound_def)
  have ne: "ps \<noteq> []" "ss \<noteq> []"
  proof -
    have "2 \<in> set ?is" "3 \<in> set ?is" using c by simp_all
    then have "\<exists>i \<in> set ?is. even i" "\<exists>i \<in> set ?is. odd i"
      by (metis even_numeral, metis odd_numeral)
    with count_cells_nonempty [of m1 ?is tol] show "ps \<noteq> []" "ss \<noteq> []" unfolding m2 by simp_all
  qed
  obtain xs where xs: "bump (ms_lengths m) (?c - 2) 1 = Some xs" "length xs = 512"
    using bump_Some [of "?c - 2" "ms_lengths m" 1] c assms(3) by (auto simp: indexed_def)
  have len: "okay ls t \<Longrightarrow> okay (add_merge tol (sub32 (ms_elapsed m) data) ls) ?t" for ls
  proof -
    assume ls: "okay ls t"
    have "sum_list (map ((!) ?sig) [0, nat (?c - 1)]) \<le> ms_elapsed m"
      using c by (intro cells_le [OF assms(2)]) auto
    then have "0 < ms_elapsed m - data" "0 < data" "0 \<le> t"
      using part(1) [of 0] part(1) [of "nat (?c - 1)"] c assms(6) okay_nonneg [OF ls] by simp_all
    with ls assms(7) show ?thesis
      by (intro okay_add [of _ t]) (simp_all add: sub32_def i32_id in32_def)
  qed
  show ?thesis
  proof (rule that)
    show "count_durations tol data m = Some (m1\<lparr>ms_pulse := ps, ms_space := ss, ms_trail := add_merge tol (?sig ! (nat ?c - 2)) (ms_trail m),
        ms_lengths := xs, ms_signal_length := add_merge tol (sub32 (ms_elapsed m) data) (ms_signal_length m)\<rparr>)" (is "_ = Some ?m")
      using m2 xs(1) by (simp add: count_durations_def flip: m1_def) (simp add: m1_def)
    show "sound ?t ?m" using assms(1) c add old cells len by (simp add: sound_def m1_def)
    show "indexed ?m" using assms(3) xs(2) by (simp add: indexed_def m1_def)
    show "filled ?m" using assms(4) ne by (simp add: filled_def m1_def)
    show "same_place m ?m" by (simp add: same_place_def m1_def)
    show "same_starts m ?m" by (simp add: same_starts_def m1_def)
  qed
qed

lemma count_start_counts:
  assumes "sound t' m" and "sound t m0" and "same_starts m0 m" and "indexed m" and "filled m" and "t' < 2 ^ 31 - 100"
    and "\<And>i. i < 3 \<Longrightarrow> 0 < ms_signals m ! i \<and> t + ms_signals m ! i \<le> t'"
  shows "sound t' (count_start tol m)" and "filled (count_start tol m)" and "indexed (count_start tol m)"
    and "same_place m (count_start tol m)"
proof -
  have "okay ls t \<Longrightarrow> i < 3 \<Longrightarrow> okay (add_merge tol (ms_signals m ! i) ls) t'" for ls i
    using assms(6,7) by (intro okay_add [of _ t]) simp_all
  with assms(1-3) show "sound t' (count_start tol m)"
    by (simp add: count_start_def count_header_def sound_def same_starts_def)
  show "filled (count_start tol m)" and "indexed (count_start tol m)" and "same_place m (count_start tol m)"
    using assms(4,5) by (auto simp: count_start_def count_header_def indexed_def filled_def same_place_def)
qed

lemma place_signal_counts:
  assumes "sound t m" and "filled m" and "indexed m" and "6 < ms_count m" and "ms_count m \<le> 512"
  obtains m' where "place_signal m = Some m'" and "sound t m'" and "filled m'" and "indexed m'" and "same_place m m'"
proof -
  let ?c = "ms_count m"
  consider (start) "ms_first_signal m = 1"
    | (second) "ms_first_signal m \<noteq> 1" "ms_first_signal m = 0 \<and> u32 (ms_first_length m - 2) = u32 (?c - 2)"
    | (plain) "ms_first_signal m \<noteq> 1" "\<not> (ms_first_signal m = 0 \<and> u32 (ms_first_length m - 2) = u32 (?c - 2))"
    by blast
  then show ?thesis
  proof cases
    case start
    then have "place_signal m = Some (m\<lparr>ms_first_lengths := u32 (ms_first_lengths m + 1), ms_first_length := ?c - 2,
        ms_header := add32 (ms_signals m ! 0) (ms_signals m ! 1)\<rparr>)"
      by (simp add: place_signal_def)
    then show ?thesis
      by (rule that) (use assms in \<open>simp_all add: sound_def filled_def indexed_def same_place_def\<close>)
  next
    case second
    have r: "0 \<le> ms_first_length m" "ms_first_length m \<le> 510" using assms(3) by (simp_all add: indexed_def)
    have e: "u32 (ms_first_length m - 2) = ?c - 2" using second(2) assms(4,5) by (simp add: u32_id)
    have "2 \<le> ms_first_length m"
    proof (rule ccontr)
      assume "\<not> 2 \<le> ms_first_length m"
      then have "ms_first_length m = 0 \<or> ms_first_length m = 1" using r by auto
      then have "u32 (ms_first_length m - 2) > 510" by (auto simp: u32_def take_bit_eq_mod)
      with e assms(5) show False by simp
    qed
    with e r have "?c \<le> 510" by (simp add: u32_id)
    obtain ys where ys: "bump (ms_lengths m) (?c - 2) (- 1) = Some ys" "length ys = 512"
      using bump_Some [of "?c - 2" "ms_lengths m" "- 1"] assms(3-5) by (auto simp: indexed_def)
    obtain zs where zs: "bump ys ?c 1 = Some zs" "length zs = 512"
      using bump_Some [of ?c ys 1] ys(2) assms(4) \<open>?c \<le> 510\<close> by auto
    have "place_signal m = Some (m\<lparr>ms_lengths := zs, ms_second_lengths := u32 (ms_second_lengths m + 1)\<rparr>)"
      using second ys(1) zs(1) by (simp add: place_signal_def)
    then show ?thesis
      by (rule that) (use assms zs(2) in \<open>simp_all add: sound_def filled_def indexed_def same_place_def\<close>)
  next
    case plain
    then have "place_signal m = Some m" by (auto simp: place_signal_def Let_def)
    then show ?thesis by (rule that) (use assms in \<open>simp_all add: same_place_def\<close>)
  qed
qed

lemma same_place_trans: "same_place a b \<Longrightarrow> same_place b c \<Longrightarrow> same_place a c"
  by (simp add: same_place_def)

text \<open>A complete signal of any length is counted.\<close>

lemma count_by_length_counts:
  assumes "sound t m" and "tracked m" and "indexed m" and "filled m" and "2 < ms_count m"
    and "data = ms_signals m ! nat (ms_count m - 1)" and "t + ms_elapsed m < 2 ^ 31 - 100"
  shows "\<exists>m'. count_by_length tol data m = Some m' \<and> sound (t + ms_elapsed m) m' \<and> indexed m' \<and> filled m' \<and>
    ms_remote m' = ms_remote m \<and> ms_have_gap m' = ms_have_gap m"
proof -
  let ?t = "t + ms_elapsed m"
  have parts: "0 < ms_signals m ! i \<and> t + ms_signals m ! i \<le> ?t" if "i < nat (ms_count m)" for i
    using part_le [OF assms(2) that] by simp
  have le: "t \<le> ?t" using parts [of 0] assms(5) by simp
  consider (three) "ms_count m = 4" | (five) "ms_count m = 6" | (long) "6 < ms_count m" | (other) "ms_count m \<noteq> 4" "ms_count m < 6"
    by linarith
  then show ?thesis
  proof cases
    case three
    let ?m = "m\<lparr>ms_count_3repeats := u32 (ms_count_3repeats m + 1)\<rparr>"
    have "sound t ?m" using assms(1) by (simp add: sound_def)
    then have "sound ?t (count_repeat tol 0 ?m)"
      by (rule count_repeat_sound [OF _ assms(7)]) (use three parts in simp)
    with three assms(3,4) show ?thesis
      by (simp add: count_by_length_def count_repeat_def Let_def indexed_def filled_def)
  next
    case five
    let ?m = "m\<lparr>ms_count_5repeats := u32 (ms_count_5repeats m + 1)\<rparr>"
    have add: "okay ls t \<Longrightarrow> i < 6 \<Longrightarrow> okay (add_merge tol (ms_signals m ! i) ls) ?t" for ls i
      using parts [of i] five assms(7) by (intro okay_add [of _ t]) simp_all
    have old: "okay ls t \<Longrightarrow> okay ls ?t" for ls using le by (rule okay_mono [rotated])
    have "sound ?t (count_repeat tol 2 (count_header tol ?m))"
      using assms(1) add old by (simp add: sound_def count_repeat_def count_header_def Let_def)
    with five assms(3,4) show ?thesis
      by (simp add: count_by_length_def count_repeat_def count_header_def Let_def indexed_def filled_def)
  next
    case long
    obtain m1 where 1: "count_durations tol data m = Some m1" "sound ?t m1" "indexed m1" "filled m1" "same_place m m1" "same_starts m m1"
      by (rule count_durations_counts [OF assms(1-4) long assms(6,7), of tol])
    have p: "0 < ms_signals m1 ! i \<and> t + ms_signals m1 ! i \<le> ?t" if "i < 3" for i
      using parts [of i] that long 1(5) by (simp add: same_place_def)
    note 2 = count_start_counts [OF 1(2) assms(1) 1(6,3,4) assms(7) p, of tol]
    have c: "6 < ms_count (count_start tol m1)" "ms_count (count_start tol m1) \<le> 512"
      using long assms(2) 1(5) 2(4) by (simp_all add: same_place_def tracked_def)
    obtain m2 where 3: "place_signal (count_start tol m1) = Some m2" "sound ?t m2" "filled m2" "indexed m2" "same_place (count_start tol m1) m2"
      by (rule place_signal_counts [OF 2(1-3) c])
    have "same_place m m2" using 1(5) 2(4) 3(5) by (meson same_place_trans)
    with long 1(1) 3 show ?thesis by (auto simp: count_by_length_def count_signal_def same_place_def)
  next
    case other
    with assms(1,3,4) sound_mono [OF assms(1) le] show ?thesis by (simp add: count_by_length_def)
  qed
qed

lemma complete_signal_counts:
  assumes "sound t m" and "tracked m" and "indexed m" and "filled m" and "2 < ms_count m"
    and "data = ms_signals m ! nat (ms_count m - 1)" and "t + ms_elapsed m < 2 ^ 31 - 100"
  shows "\<exists>m'. complete_signal tol data m = Some m' \<and> sound (t + ms_elapsed m) m' \<and> indexed m' \<and> filled m' \<and>
    ms_remote m' = ms_remote m \<and> ms_have_gap m' = ms_have_gap m \<and> ms_count m' = 0 \<and> ms_elapsed m' = 0"
proof -
  obtain m1 where "count_by_length tol data m = Some m1" "sound (t + ms_elapsed m) m1" "indexed m1" "filled m1"
    "ms_remote m1 = ms_remote m" "ms_have_gap m1 = ms_have_gap m"
    using count_by_length_counts [OF assms] by blast
  then show ?thesis by (simp add: complete_signal_def sound_def indexed_def filled_def)
qed

subsection \<open>The evaluation\<close>

lemma get_scheme_succeeds:
  assumes "sound t m" and "filled m" and "0 < ms_count_signals m"
  obtains m' where "get_scheme m = Some m'" and "sound t m'" and "filled m'" and "ms_count_signals m' = ms_count_signals m"
proof -
  have ne: "ms_pulse m \<noteq> []" "ms_space m \<noteq> []" using assms(2,3) by (simp_all add: filled_def)
  obtain i p n where p: "get_max_length (ms_pulse m) = Some (i, p, n)" using get_max_length_Some [OF ne(1)] by blast
  obtain j q k where q: "get_max_length (ms_space m) = Some (j, q, k)" using get_max_length_Some [OF ne(2)] by blast
  note pi = get_max_length_SomeD [OF p] and qi = get_max_length_SomeD [OF q]
  have front: "okay (p # unlink_length (ms_pulse m) i) t" "okay (q # unlink_length (ms_space m) j) t"
    using assms(1) pi qi by (simp_all add: okay_front sound_def)
  have single: "unlink_length (ms_pulse m) i = [] \<Longrightarrow> okay [p] t" "unlink_length (ms_space m) j = [] \<Longrightarrow> okay [q] t"
    using front by simp_all
  obtain a b c where qs: "get_max_length (q # unlink_length (ms_space m) j) = Some (a, b, c)"
    using get_max_length_Some by blast
  obtain len sum where mf: "most_frequent (ms_lengths m) = (len, sum)" by fastforce
  have upd: "sound t (m\<lparr>ms_remote := r\<rparr>)" "filled (m\<lparr>ms_remote := r\<rparr>)"
    "okay ps t \<Longrightarrow> ps \<noteq> [] \<Longrightarrow> sound t (m\<lparr>ms_remote := r, ms_pulse := ps\<rparr>) \<and> filled (m\<lparr>ms_remote := r, ms_pulse := ps\<rparr>)"
    "okay ps t \<Longrightarrow> ps \<noteq> [] \<Longrightarrow> okay ss t \<Longrightarrow> ss \<noteq> [] \<Longrightarrow>
      sound t (m\<lparr>ms_remote := r, ms_pulse := ps, ms_space := ss\<rparr>) \<and> filled (m\<lparr>ms_remote := r, ms_pulse := ps, ms_space := ss\<rparr>)" for r ps ss
    using assms(1,2) by (auto simp: sound_def filled_def)
  consider (often) "ms_lengths m ! len \<ge> u32 (80 * sum) div 100"
    | (one_pulse) "\<not> ms_lengths m ! len \<ge> u32 (80 * sum) div 100" "unlink_length (ms_pulse m) i = []"
    | (one_space) "\<not> ms_lengths m ! len \<ge> u32 (80 * sum) div 100" "unlink_length (ms_pulse m) i \<noteq> []" "unlink_length (ms_space m) j = []"
    | (both) "\<not> ms_lengths m ! len \<ge> u32 (80 * sum) div 100" "unlink_length (ms_pulse m) i \<noteq> []" "unlink_length (ms_space m) j \<noteq> []"
    by blast
  then show ?thesis
  proof cases
    case often
    then show ?thesis by (intro that [of "m\<lparr>ms_remote := space_encoded len (ms_remote m)\<rparr>"]) (simp_all add: get_scheme_def mf upd)
  next
    case one_pulse
    with front upd(3) [of "[p]"] show ?thesis
      by (intro that [of "m\<lparr>ms_remote := space_encoded len (ms_remote m), ms_pulse := [p]\<rparr>"])
        (simp_all add: get_scheme_def mf p Let_def)
  next
    case one_space
    then obtain d e f where "get_max_length (unlink_length (ms_pulse m) i) = Some (d, e, f)" using get_max_length_Some by blast
    then show ?thesis
      using one_space front upd(4) [of "p # unlink_length (ms_pulse m) i" "[q]"]
      by (intro that [of "m\<lparr>ms_remote := space_encoded len (ms_remote m), ms_pulse := p # unlink_length (ms_pulse m) i, ms_space := [q]\<rparr>"])
        (simp_all add: get_scheme_def mf p q Let_def)
  next
    case both
    then obtain d e f d' e' f' where e: "get_max_length (unlink_length (ms_pulse m) i) = Some (d, e, f)"
      "get_max_length (unlink_length (ms_space m) j) = Some (d', e', f')" using get_max_length_Some by metis
    have "get_scheme m = Some (m\<lparr>ms_remote := set_protocol (ms_remote m)
          (if 20 < len \<and> (calc_signal p < TH_RC6_SIGNAL \<or> calc_signal e < TH_RC6_SIGNAL) \<and>
             (calc_signal b < TH_RC6_SIGNAL \<or> calc_signal e' < TH_RC6_SIGNAL) then RC6 else RC5),
          ms_pulse := p # unlink_length (ms_pulse m) i, ms_space := q # unlink_length (ms_space m) j\<rparr>)"
      using both e by (simp add: get_scheme_def mf p q qs)
    then show ?thesis
      by (rule that) (use front upd(4) in simp_all)
  qed
qed

lemma u32_le: "0 \<le> x \<Longrightarrow> u32 x \<le> x"
  by (simp add: u32_def take_bit_int_less_eq_self_iff)

lemma get_header_length_succeeds:
  assumes "filled m"
  shows "get_header_length m \<noteq> None"
proof (cases "ms_headerp m = []")
  case False
  moreover from this assms have "ms_headers m \<noteq> []" by (simp add: filled_def)
  ultimately obtain i l n j k where "get_max_length (ms_headerp m) = Some (i, l, n)" "get_max_length (ms_headers m) = Some (j, k)"
    using get_max_length_Some by (metis surj_pair)
  then show ?thesis by (cases k) (auto simp: get_header_length_def)
qed (simp add: get_header_length_def)

lemma get_trail_length_succeeds: "filled m \<Longrightarrow> 0 < ms_count_signals m \<Longrightarrow> get_trail_length m \<noteq> None"
  by (cases "get_max_length (ms_trail m)") (auto simp: get_trail_length_def filled_def)

lemma get_repeat_length_succeeds:
  assumes "filled m"
  shows "get_repeat_length m \<noteq> None"
proof (cases "(ms_count_3repeats m > SAMPLES div 2) = (ms_count_5repeats m > SAMPLES div 2)")
  case False
  then have "0 < ms_count_3repeats m \<or> 0 < ms_count_5repeats m" by auto
  with assms have "ms_repeatp m \<noteq> []" "ms_repeats m \<noteq> []" "ms_repeat_gap m \<noteq> []" by (simp_all add: filled_def)
  then obtain i l n j l' n' k l'' n'' where "get_max_length (ms_repeatp m) = Some (i, l, n)"
    "get_max_length (ms_repeats m) = Some (j, l', n')" "get_max_length (ms_repeat_gap m) = Some (k, l'', n'')"
    using get_max_length_Some by metis
  then show ?thesis using False by (auto simp: get_repeat_length_def Let_def)
qed (simp add: get_repeat_length_def Let_def)

lemma bucket_count_nonneg: "okay ls t \<Longrightarrow> l \<in> set ls \<Longrightarrow> 0 \<le> le_count l"
proof -
  assume "okay ls t" and l: "l \<in> set ls"
  then obtain M where "holds ls M" by (auto simp: okay_def)
  moreover obtain xs ys where "ls = xs @ l # ys" using l by (meson split_list)
  ultimately show ?thesis by (auto simp: holds_append holds_Cons bucket_of_def)
qed

lemma get_lead_length_succeeds:
  assumes "sound t m" and "filled m" and "0 < ms_count_signals m"
  shows "get_lead_length tol m \<noteq> None"
proof -
  have "ms_1lead m \<noteq> []" using assms(2,3) by (simp add: filled_def)
  then obtain i l n where l: "get_max_length (ms_1lead m) = Some (i, l, n)" using get_max_length_Some by blast
  have "unlink_length (ms_1lead m) i \<noteq> [] \<or> le_count l \<ge> u32 (n * TH_LEAD) div 100"
  proof (cases "ms_1lead m")
    case (Cons x xs)
    show ?thesis
    proof (cases xs)
      case Nil
      then have "n = le_count l" "l = x" using l Cons by (auto simp: get_max_length_def)
      moreover have "0 \<le> le_count x"
        using assms(1) Cons by (intro bucket_count_nonneg [of "ms_1lead m" t]) (simp_all add: sound_def)
      moreover from \<open>0 \<le> le_count x\<close> have "u32 (le_count x * 90) div 100 \<le> le_count x * 90 div 100"
        by (intro zdiv_mono1 u32_le) simp_all
      moreover have "le_count x * 90 div 100 \<le> le_count x" using \<open>0 \<le> le_count x\<close> by simp
      ultimately show ?thesis by simp
    next
      case (Cons y ys)
      then show ?thesis using \<open>ms_1lead m = x # xs\<close> by (cases i) (simp_all add: unlink_length_def)
    qed
  qed (use \<open>ms_1lead m \<noteq> []\<close> in simp)
  moreover have "unlink_length (ms_1lead m) i \<noteq> [] \<Longrightarrow>
      \<exists>j l' n'. get_max_length (unlink_length (ms_1lead m) i) = Some (j, l', n')"
    by (rule get_max_length_Some)
  ultimately show ?thesis
    using l by (auto simp: get_lead_length_def Let_def ex_bool_eq)
qed

text \<open>The cells of a biphase signal are not empty, so the division by them is defined.\<close>

lemma biphase_half_bounds:
  assumes "1 \<le> a" and "1 \<le> b" and "a + b < 2 ^ 31" and "100 \<le> a \<or> 100 \<le> b"
  shows "25 \<le> biphase_half a b" and "biphase_half a b < 2 ^ 30"
proof -
  have q: "quot (max a b) 2 = max a b div 2" using assms by (simp add: quot_nonneg)
  have w: "50 \<le> min a b + max a b div 2" "min a b + max a b div 2 < 2 ^ 31" using assms by (auto simp: min_def max_def)
  then have "biphase_half a b = (min a b + max a b div 2) div 2"
    by (simp add: biphase_half_def q add32_def i32_id in32_def quot_nonneg)
  moreover have "50 div 2 \<le> (min a b + max a b div 2) div 2" "(min a b + max a b div 2) div 2 \<le> (2 ^ 31 - 1) div 2"
    using w by (intro zdiv_mono1; simp)+
  ultimately show "25 \<le> biphase_half a b" and "biphase_half a b < 2 ^ 30" by simp_all
qed

lemma second_max_in: "second_max ls k = Some l \<Longrightarrow> l \<in> set ls"
  using get_max_length_SomeD [of ls] by (fastforce simp: second_max_def split: option.splits if_splits)

lemma set_bits_succeeds:
  assumes "is_biphase r \<Longrightarrow> ls \<noteq> [] \<and> 25 \<le> r_pone r \<and> r_pone r < 2 ^ 30 \<and> 25 \<le> r_sone r \<and> r_sone r < 2 ^ 30"
  shows "set_bits ls r \<noteq> None"
proof (cases "is_biphase r")
  case True
  with assms obtain i l n where "get_max_length ls = Some (i, l, n)" using get_max_length_Some by blast
  moreover have "add32 (r_pone r) (r_sone r) \<noteq> 0" using assms True by (simp add: add32_def i32_id in32_def)
  ultimately show ?thesis by (auto simp: set_bits_def Let_def)
qed (simp add: set_bits_def)

lemma drop_header_keeps [simp]: "is_biphase (drop_header r) = is_biphase r" "r_pone (drop_header r) = r_pone r"
    "r_sone (drop_header r) = r_sone r"
proof -
  have "- 4097 AND 2047 = (2047 :: int)" by simp
  then have flags: "(f AND - 4097) AND 2047 = f AND (2047 :: int)" for f
    by (simp only: and.assoc)
  show "is_biphase (drop_header r) = is_biphase r"
    by (simp add: drop_header_def Let_def is_biphase_def is_rc5_def is_rc6_def protocol_def flags)
  show "r_pone (drop_header r) = r_pone r" "r_sone (drop_header r) = r_sone r"
    by (simp_all add: drop_header_def Let_def)
qed

lemma set_cells_biphase:
  assumes "set_cells p p2 sp s2 r = Some r'" and "is_biphase r'"
  obtains l l' where "p2 = Some l" and "s2 = Some l'" and "r_pone r' = biphase_half (calc_signal p) (calc_signal l)"
    and "r_sone r' = biphase_half (calc_signal sp) (calc_signal l')"
proof -
  have "is_biphase r"
    using assms by (auto simp: set_cells_def Let_def is_biphase_def is_rc5_def is_rc6_def protocol_def split: option.splits if_splits)
  with assms(1) that show ?thesis
    by (auto simp: set_cells_def Let_def split: option.splits)
qed

lemma get_data_length_succeeds:
  assumes "sound t m" and "filled m" and "0 < ms_count_signals m" and "t < 2 ^ 31 - 100"
  shows "get_data_length tol m \<noteq> None"
proof -
  have ne: "ms_pulse m \<noteq> []" "ms_space m \<noteq> []" "ms_signal_length m \<noteq> []" using assms(2,3) by (simp_all add: filled_def)
  obtain i p n where p: "get_max_length (ms_pulse m) = Some (i, p, n)" using get_max_length_Some [OF ne(1)] by blast
  obtain j q k where q: "get_max_length (ms_space m) = Some (j, q, k)" using get_max_length_Some [OF ne(2)] by blast
  have ok: "okay (ms_pulse m) t" "okay (ms_space m) t" using assms(1) by (simp_all add: sound_def)
  have "set_bits (ms_signal_length m) (drop_header r') \<noteq> None"
    if r': "set_cells p (second_max (unlink_length (ms_pulse m) i) a) q (second_max (unlink_length (ms_space m) j) b) r = Some r'" for a b r r'
  proof (rule set_bits_succeeds)
    assume "is_biphase (drop_header r')"
    then have "is_biphase r'" by simp
    from set_cells_biphase [OF r' this] obtain l l' where
      l: "second_max (unlink_length (ms_pulse m) i) a = Some l" "second_max (unlink_length (ms_space m) j) b = Some l'"
      "r_pone r' = biphase_half (calc_signal p) (calc_signal l)" "r_sone r' = biphase_half (calc_signal q) (calc_signal l')"
      by blast
    note P = two_candidates [OF ok(1) assms(4) get_max_length_SomeD(1) [OF p] second_max_in [OF l(1)]]
      and Q = two_candidates [OF ok(2) assms(4) get_max_length_SomeD(1) [OF q] second_max_in [OF l(2)]]
    show "ms_signal_length m \<noteq> [] \<and> 25 \<le> r_pone (drop_header r') \<and> r_pone (drop_header r') < 2 ^ 30 \<and>
        25 \<le> r_sone (drop_header r') \<and> r_sone (drop_header r') < 2 ^ 30"
      using ne(3) l(3,4) P Q assms(4) biphase_half_bounds [of "calc_signal p" "calc_signal l"]
        biphase_half_bounds [of "calc_signal q" "calc_signal l'"] get_max_length_SomeD(2) [OF p] get_max_length_SomeD(2) [OF q] by simp
  qed
  then have "\<forall>r'. set_cells p (second_max (unlink_length (ms_pulse m) i) (le_count p)) q
      (second_max (unlink_length (ms_space m) j) (le_count q)) (ms_remote m\<lparr>r_eps := tl_eps tol, r_aeps := tl_aeps tol\<rparr>) = Some r' \<longrightarrow>
      (\<exists>r. set_bits (ms_signal_length m) (drop_header r') = Some r)"
    by auto
  then show ?thesis
    using p q by (auto simp: get_data_length_def Let_def ex_bool_eq split: option.splits)
qed

lemma evaluate_succeeds:
  assumes "sound t m" and "filled m" and "0 < ms_count_signals m" and "t < 2 ^ 31 - 100"
  shows "evaluate tol m \<noteq> None"
proof -
  obtain m1 where m1: "get_scheme m = Some m1" "sound t m1" "filled m1" "0 < ms_count_signals m1"
    using get_scheme_succeeds [OF assms(1-3)] assms(3) by metis
  have upd: "sound t (m1\<lparr>ms_remote := r\<rparr>)" "filled (m1\<lparr>ms_remote := r\<rparr>)" "0 < ms_count_signals (m1\<lparr>ms_remote := r\<rparr>)" for r
    using m1(2-4) by (simp_all add: sound_def filled_def)
  have "in_turn fs (m1\<lparr>ms_remote := r\<rparr>) \<noteq> None"
    if "\<forall>f \<in> set fs. \<forall>r. f (m1\<lparr>ms_remote := r\<rparr>) \<noteq> None" for fs r
    using that
  proof (induction fs arbitrary: r)
    case (Cons f fs)
    obtain ok r' where "f (m1\<lparr>ms_remote := r\<rparr>) = Some (ok, r')" using Cons.prems by fastforce
    with Cons show ?case by (simp add: Let_def ex_bool_eq)
  qed simp
  note turn = this
  have "f (m1\<lparr>ms_remote := r\<rparr>) \<noteq> None"
    if "f \<in> set [get_header_length, get_trail_length, get_lead_length tol, get_repeat_length, get_data_length tol]" for f r
  proof -
    from that have "f = get_header_length \<or> f = get_trail_length \<or> f = get_lead_length tol \<or> f = get_repeat_length \<or> f = get_data_length tol"
      by simp
    with get_header_length_succeeds [OF upd(2)] get_trail_length_succeeds [OF upd(2,3)] get_lead_length_succeeds [OF upd]
      get_repeat_length_succeeds [OF upd(2)] get_data_length_succeeds [OF upd assms(4)]
    show ?thesis by metis
  qed
  then show ?thesis
    using m1(1) turn [of "[get_header_length, get_trail_length, get_lead_length tol, get_repeat_length, get_data_length tol]" "ms_remote m1"]
    by (simp add: evaluate_def del: in_turn.simps not_None_eq)
qed

subsection \<open>The steps\<close>

text \<open>A sample is a pulse or a space of at least a microsecond; a space has no other bits.\<close>

definition sample :: "lirc_t \<Rightarrow> bool" where
  "sample d \<longleftrightarrow> 0 < d AND PULSE_MASK \<and> (is_space d \<longrightarrow> d AND PULSE_MASK = d)"

text \<open>After samples that last \<open>T\<close> microseconds together.\<close>

definition going :: "int \<Rightarrow> measures \<Rightarrow> bool" where
  "going T m \<longleftrightarrow> indexed m \<and> filled m \<and> 0 \<le> ms_elapsed m \<and> sound (T - ms_elapsed m) m \<and> ms_count_signals m < SAMPLES \<and>
     (if ms_have_gap m then tracked m else ms_count_signals m \<le> 0)"

lemma sum_lessThan_update:
  "n < length xs \<Longrightarrow> (\<Sum>i < Suc n. xs[n := x] ! i) = (\<Sum>i < n. xs ! i) + (x :: int)"
  by simp

lemma find_gap_shape: "find_gap m = Some r \<Longrightarrow> \<exists>l. r_gap r = calc_signal l"
  by (auto simp: find_gap_def split: option.splits)

lemma gap_step_going:
  assumes "going T m" and "\<not> ms_have_gap m" and "sample data" and "T + (data AND PULSE_MASK) < 2 ^ 31 - 100"
  shows "going (T + (data AND PULSE_MASK)) (fst (gap_step tol force data m))"
proof -
  let ?x = "data AND PULSE_MASK" and ?e = "ms_elapsed m"
  have x: "0 < ?x" and sp: "is_space data \<Longrightarrow> ?x = data" using assms(3) by (simp_all add: sample_def)
  have g: "indexed m" "filled m" "0 \<le> ?e" "sound (T - ?e) m" "ms_count_signals m \<le> 0" using assms(1,2) by (simp_all add: going_def)
  have "0 \<le> T - ?e" using g(4) by (rule sound_nonneg)
  then have e: "add32 ?e ?x = ?e + ?x" using x g(3) assms(4) by (simp add: add32_def i32_id in32_def)
  have on: "okay ls (T - ?e) \<Longrightarrow> okay ls (T + ?x)" for ls using x g(3) by (auto intro: okay_mono)
  have sum: "okay ls (T - ?e) \<Longrightarrow> okay (add_merge tol (?e + ?x) ls) (T + ?x)" for ls
    using x g(3) assms(4) by (intro okay_add [of _ "T - ?e"]) simp_all
  have gap: "okay ls (T - ?e) \<Longrightarrow> okay (add_merge tol ?x ls) (T + ?x)" for ls
    using x g(3) assms(4) by (intro okay_add [of _ "T - ?e"]) simp_all
  have cont: "going (T + ?x) (m\<lparr>ms_elapsed := ?e + ?x, ms_average := a, ms_count_spaces := b, ms_maxspace := c\<rparr>)" for a b c
    using g assms(2) x by (simp add: going_def indexed_def filled_def sound_def)
  have cont0: "going (T + ?x) (m\<lparr>ms_elapsed := ?e + ?x\<rparr>)" "going (T + ?x) (m\<lparr>ms_elapsed := ?e + ?x, ms_average := a, ms_maxspace := c\<rparr>)" for a c
    using g assms(2) x by (simp_all add: going_def indexed_def filled_def sound_def)
  show ?thesis
  proof (cases "is_space data")
    case False
    then show ?thesis using cont0 by (simp add: gap_step_def Let_def check_count_def e)
  next
    case True
    note d = sp [OF True]
    show ?thesis
    proof (cases "ms_average m = 0")
      case True
      have "going (T + ?x) (m\<lparr>ms_elapsed := 0\<rparr>)"
        using g assms(2) on by (simp add: going_def indexed_def filled_def sound_def)
      with True \<open>is_space data\<close> show ?thesis
        using cont0 by (simp add: gap_step_def Let_def check_count_def e)
    next
      case False
      let ?m = "m\<lparr>ms_elapsed := ?e + ?x\<rparr>"
      let ?n = "m\<lparr>ms_sum := add_merge tol (?e + ?x) (ms_sum m), ms_gap := add_merge tol data (ms_gap m),
                 ms_elapsed := 0, ms_count_spaces := 0, ms_average := 0, ms_maxspace := 0\<rparr>"
      have n: "going (T + ?x) ?n" "going (T + ?x) (?n\<lparr>ms_remote := r, ms_have_gap := True, ms_count := 0\<rparr>)" for r
        using g assms(2) on sum gap d by (simp_all add: going_def indexed_def filled_def sound_def tracked_def)
      show ?thesis
      proof (cases "is_gap ?m data")
        case True
        then have "gap_step tol force data m = (case find_gap ?n of None \<Rightarrow> (?n, None)
            | Some r \<Rightarrow> (?n\<lparr>ms_remote := r, ms_have_gap := True, ms_count := 0\<rparr>, if force then Some False else None))"
          using False \<open>is_space data\<close> by (simp add: gap_step_def Let_def e)
        then show ?thesis using n by (cases "find_gap ?n") simp_all
      next
        case nogap: False
        then show ?thesis
          using False \<open>is_space data\<close> cont by (simp add: gap_step_def Let_def e check_count_def)
      qed
    qed
  qed
qed

lemma tracked_next:
  assumes "tracked m" and "length (ms_signals m) = 512" and "0 \<le> ms_count m" and "ms_count m < 512" and "0 < x"
  shows "tracked (m\<lparr>ms_count := ms_count m + 1, ms_signals := (ms_signals m)[nat (ms_count m) := x], ms_elapsed := ms_elapsed m + x\<rparr>)"
proof -
  have n: "nat (ms_count m + 1) = Suc (nat (ms_count m))" "nat (ms_count m) < 512" using assms(3,4) by simp_all
  show ?thesis
    using assms(1,2,5) n sum_lessThan_update [of "nat (ms_count m)" "ms_signals m" x] assms(4)
    by (auto simp: tracked_def less_Suc_eq nth_list_update)
qed

lemma going_start [simp]:
  "going T (m\<lparr>ms_first_signal := a, ms_header := b\<rparr>) = going T m" "going T (m\<lparr>ms_first_signal := a\<rparr>) = going T m"
  by (simp_all add: going_def indexed_def filled_def sound_def tracked_def)

lemma after_signal_going:
  assumes "sound T m" and "filled m" and "ms_count_signals m < 80 \<Longrightarrow> going T m" and "T < 2 ^ 31 - 100"
  shows "\<exists>m' stop. after_signal tol gap x m = Some (m', stop) \<and> (stop = None \<longrightarrow> going T m')"
proof (cases "ms_count_signals m \<ge> 80")
  case True
  then have "evaluate tol m \<noteq> None" using assms(1,2,4) by (intro evaluate_succeeds) simp_all
  with True show ?thesis by (auto simp: after_signal_def)
next
  case False
  then show ?thesis using assms(3) by (simp add: after_signal_def Let_def)
qed

lemma signal_end_going:
  assumes "sound t m" and "tracked m" and "indexed m" and "filled m" and "2 < ms_count m" and "t + ms_elapsed m < 2 ^ 31 - 100"
    and "is_space data \<longrightarrow> data = ms_signals m ! nat (ms_count m - 1)" and "going (t + ms_elapsed m) m" and "ms_have_gap m"
  shows "\<exists>m'. (if is_space data then complete_signal tol data m else Some m) = Some m' \<and> sound (t + ms_elapsed m) m' \<and> filled m' \<and>
    (ms_count_signals m' < 80 \<longrightarrow> going (t + ms_elapsed m) m')"
proof (cases "is_space data")
  case True
  with complete_signal_counts [OF assms(1-5) _ assms(6)] assms(7) obtain m' where
    "complete_signal tol data m = Some m'" "sound (t + ms_elapsed m) m'" "indexed m'" "filled m'" "ms_have_gap m' = ms_have_gap m"
    "ms_count m' = 0" "ms_elapsed m' = 0"
    by blast
  with True assms(9) show ?thesis by (simp add: going_def tracked_def)
next
  case False
  have "0 \<le> ms_elapsed m" using assms(8) by (simp add: going_def)
  then have "sound (t + ms_elapsed m) m" using assms(1) by (auto intro: sound_mono)
  with False assms(4,8) show ?thesis by simp
qed

lemma signal_step_going:
  assumes "going T m" and "ms_have_gap m" and "sample data" and "T + (data AND PULSE_MASK) < 2 ^ 31 - 100"
  shows "\<exists>m' stop. signal_step tol data (m\<lparr>ms_count := u32 (ms_count m + 1)\<rparr>) = Some (m', stop) \<and>
    (stop = None \<longrightarrow> going (T + (data AND PULSE_MASK)) m')"
proof -
  let ?x = "data AND PULSE_MASK" and ?e = "ms_elapsed m"
  have x: "0 < ?x" and sp: "is_space data \<Longrightarrow> ?x = data" using assms(3) by (simp_all add: sample_def)
  have g: "indexed m" "filled m" "0 \<le> ?e" "sound (T - ?e) m" "ms_count_signals m < 80" "tracked m"
    using assms(1,2) by (simp_all add: going_def)
  have c: "0 \<le> ms_count m" "ms_count m \<le> 512" "length (ms_signals m) = 512"
    using g(1,6) by (simp_all add: indexed_def tracked_def)
  have u: "u32 (ms_count m + 1) = ms_count m + 1" using c by (intro u32_id) simp_all
  have e: "add32 ?e ?x = ?e + ?x"
    using x g(3) assms(4) sound_nonneg [OF g(4)] by (simp add: add32_def i32_id in32_def)
  show ?thesis
  proof (cases "ms_count m < 512")
    case False
    then show ?thesis by (simp add: signal_step_def u)
  next
    case True
    define m1 where "m1 = m\<lparr>ms_count := ms_count m + 1, ms_signals := (ms_signals m)[nat (ms_count m) := ?x], ms_elapsed := ?e + ?x\<rparr>"
    have t1: "tracked m1" unfolding m1_def by (rule tracked_next [OF g(6) c(3,1) True x])
    have g1: "indexed m1" "filled m1" "sound (T - ?e) m1" "ms_count_signals m1 < 80" "ms_elapsed m1 = ?e + ?x"
      "ms_have_gap m1" "ms_signals m1 ! nat (ms_count m1 - 1) = ?x"
      using g(1,2,4,5) c True assms(2) by (simp_all add: m1_def indexed_def filled_def sound_def)
    have on1: "going (T + ?x) m1" using t1 g1 x g(3) by (simp add: going_def)
    let ?gap = "remaining_gap (m\<lparr>ms_count := ms_count m + 1\<rparr>)"
    have run: "signal_step tol data (m\<lparr>ms_count := u32 (ms_count m + 1)\<rparr>) =
       (if at_end tol ?gap ?x m1 then do {
          m' \<leftarrow> (if is_space data then complete_signal tol data m1 else Some m1);
          after_signal tol ?gap ?x m'
        }
        else Some (m1, None))"
      using True by (simp add: signal_step_def u Let_def e m1_def)
    show ?thesis
    proof (cases "at_end tol ?gap ?x m1")
      case False
      then show ?thesis using run on1 by simp
    next
      case end_reached: True
      have T: "T - ?e + ms_elapsed m1 = T + ?x" using g1(5) by simp
      have "\<exists>m'. (if is_space data then complete_signal tol data m1 else Some m1) = Some m' \<and> sound (T + ?x) m' \<and> filled m' \<and>
          (ms_count_signals m' < 80 \<longrightarrow> going (T + ?x) m')"
        using signal_end_going [OF g1(3) t1 g1(1,2), of data] end_reached g1(6,7) sp on1 assms(4) unfolding T
        by (simp add: at_end_def)
      then obtain m2 where m2: "(if is_space data then complete_signal tol data m1 else Some m1) = Some m2" "sound (T + ?x) m2" "filled m2"
          "ms_count_signals m2 < 80 \<Longrightarrow> going (T + ?x) m2"
        by blast
      show ?thesis
        using after_signal_going [OF m2(2-4) assms(4), of tol ?gap ?x] run end_reached m2(1) by simp
    qed
  qed
qed

subsection \<open>The whole analysis\<close>

lemma lengths_loop_succeeds:
  assumes "going T m" and "list_all sample data" and "T + sum_list (map (\<lambda>d. d AND PULSE_MASK) data) < 2 ^ 31 - 100"
  shows "lengths_loop tol force data m \<noteq> None"
  using assms
proof (induction data arbitrary: T m)
  case (Cons d data)
  let ?x = "d AND PULSE_MASK" and ?m = "m\<lparr>ms_count := u32 (ms_count m + 1)\<rparr>"
  have d: "sample d" "list_all sample data" using Cons.prems(2) by simp_all
  have "0 \<le> sum_list (map (\<lambda>d. d AND PULSE_MASK) data)"
    using d(2) by (intro sum_list_nonneg) (auto simp: list_all_iff sample_def)
  then have T: "T + ?x < 2 ^ 31 - 100" using Cons.prems(3) by simp
  have "\<exists>m' stop. lengths_step tol force d m = Some (m', stop) \<and> (stop = None \<longrightarrow> going (T + ?x) m')"
  proof (cases "ms_have_gap m")
    case True
    then show ?thesis using signal_step_going [OF Cons.prems(1) True d(1) T, of tol] by (simp add: lengths_step_def)
  next
    case False
    then have "going T ?m" using Cons.prems(1) by (simp add: going_def indexed_def filled_def sound_def)
    from gap_step_going [OF this _ d(1) T, of tol force] False show ?thesis
      by (cases "gap_step tol force d ?m") (simp add: lengths_step_def)
  qed
  then obtain m' stop where step: "lengths_step tol force d m = Some (m', stop)" "stop = None \<Longrightarrow> going (T + ?x) m'" by blast
  show ?case
  proof (cases stop)
    case None
    have "T + ?x + sum_list (map (\<lambda>d. d AND PULSE_MASK) data) < 2 ^ 31 - 100" using Cons.prems(3) by simp
    from Cons.IH [OF step(2) [OF None] d(2) this] None step(1) show ?thesis by (simp add: ex_bool_eq)
  next
    case (Some r)
    with step(1) show ?thesis by (simp add: ex_bool_eq)
  qed
qed simp

lemma measures_init_going: "length signals = 512 \<Longrightarrow> going 0 (measures_init remote signals)"
  by (simp add: going_def measures_init_def indexed_def filled_def sound_def)



end
