(* ===== verification/LearnLaws.thy ===== *)
theory LearnLaws
  imports LengthsLaws RoundTrip
begin

text \<open>
  What \<open>irrecord\<close> learns from a remote control is what the remote control sends: the durations, the trail
  and the number of bits of a space-encoded remote.
\<close>

subsection \<open>Buckets of one duration each\<close>

definition exact_bucket :: "lirc_t \<Rightarrow> nat \<Rightarrow> lengths" where
  "exact_bucket v k = \<lparr>le_count = int k, le_sum = int k * v, le_upper = v div 100 * 100 + 99, le_lower = v div 100 * 100,
     le_min = v, le_max = v\<rparr>"

text \<open>The durations in the order in which they were first seen, each with its bucket.\<close>

definition tally :: "lengths list \<Rightarrow> lirc_t multiset \<Rightarrow> bool" where
  "tally ls M \<longleftrightarrow> (\<exists>vs. distinct vs \<and> set vs = set_mset M \<and> ls = map (\<lambda>v. exact_bucket v (count M v)) vs)"

text \<open>Durations so far apart that their buckets are never merged.\<close>

definition apart :: "tolerances \<Rightarrow> lirc_t set \<Rightarrow> bool" where
  "apart tol V \<longleftrightarrow> (\<forall>v \<in> V. 0 < v \<and> v < 1000000) \<and> (\<forall>v \<in> V. \<forall>w \<in> V. v \<noteq> w \<longrightarrow> 2 * tl_aeps tol < \<bar>v - w\<bar> \<and> 100 \<le> \<bar>v - w\<bar>)"

definition usual :: "tolerances \<Rightarrow> bool" where
  "usual tol \<longleftrightarrow> tl_eps tol = 30 \<and> 0 \<le> tl_aeps tol \<and> tl_aeps tol < 2 ^ 30"

lemma exact_bucket_of:
  assumes "0 < v" and "0 < k"
  shows "bucket_of (exact_bucket v k) (replicate_mset k v)"
proof -
  have "v div 100 * 100 \<le> v" "v < v div 100 * 100 + 100" by simp_all
  with assms show ?thesis by (auto simp: bucket_of_def exact_bucket_def sum_mset_replicate_mset)
qed

lemma exact_not_mergeable:
  assumes "usual tol" and "apart tol {v, w}" and "v \<noteq> w" and "0 < i" and "0 < j" and "modest (replicate_mset i v + replicate_mset j w)"
  shows "\<not> mergeable tol (exact_bucket v i) (exact_bucket w j)"
proof
  let ?M = "replicate_mset i v + replicate_mset j w"
  let ?q = "sum_mset ?M div int (size ?M)"
  assume m: "mergeable tol (exact_bucket v i) (exact_bucket w j)"
  have v: "0 < v" "0 < w" "v < 1000000" "w < 1000000" "2 * tl_aeps tol < \<bar>v - w\<bar>" using assms(2,3) by (auto simp: apart_def)
  have "sum_mset ?M \<le> 1000000 * int (size ?M)"
    using v by (intro sum_mset_bounds(2)) auto
  moreover have n: "0 < int (size ?M)" using assms(4) by simp
  ultimately have "?q \<le> 1000000 * int (size ?M) div int (size ?M)"
    by (intro zdiv_mono1)
  also have "\<dots> = 1000000" using n by (simp only: nonzero_mult_div_cancel_right)
  finally have "?q < 33000000" by simp
  with m assms(1,6) v exact_bucket_of [of v i] exact_bucket_of [of w j] assms(4,5)
    have near: "\<forall>x \<in># ?M. \<bar>x - ?q\<bar> \<le> tl_aeps tol"
    by (subst (asm) mergeable_iff_near [of _ "replicate_mset i v" _ "replicate_mset j w"]) (simp_all add: usual_def)
  have "v \<in># ?M" "w \<in># ?M" using assms(4,5) by simp_all
  with near have "\<bar>v - ?q\<bar> \<le> tl_aeps tol" "\<bar>w - ?q\<bar> \<le> tl_aeps tol" by blast+
  with v(5) show False by linarith
qed

lemma absorb_none: "\<forall>l' \<in> set ls. \<not> mergeable tol l l' \<Longrightarrow> absorb tol l ls = (l, ls)"
  by (induction ls) simp_all

lemma merge_none: "sorted_wrt (\<lambda>l l'. \<not> mergeable tol l l') ls \<Longrightarrow> merge_lengths tol ls = ls"
  by (induction ls) (simp_all add: absorb_none)

lemma add_length_exact:
  assumes "apart tol (insert x (set vs))" and "distinct vs" and "\<forall>v \<in> set vs. v \<in># M"
  shows "add_length (map (\<lambda>v. exact_bucket v (count M v)) vs) x =
    (if x \<in> set vs then map (\<lambda>v. if v = x then count_in (exact_bucket x (count M x)) x else exact_bucket v (count M v)) vs
     else map (\<lambda>v. exact_bucket v (count M v)) vs @ [new_length x])"
  using assms
proof (induction vs)
  case (Cons v vs)
  have other: "\<not> (v div 100 * 100 \<le> x \<and> x \<le> v div 100 * 100 + 99)" if "v \<noteq> x"
  proof -
    have "100 \<le> \<bar>v - x\<bar>" using that Cons.prems(1) by (auto simp: apart_def)
    moreover have "v div 100 * 100 \<le> v" "v < v div 100 * 100 + 100" by simp_all
    ultimately show ?thesis by linarith
  qed
  have "x div 100 * 100 \<le> x" "x < x div 100 * 100 + 100" by simp_all
  then have own: "x div 100 * 100 \<le> x \<and> x \<le> x div 100 * 100 + 99" by linarith
  have "apart tol (insert x (set vs))" using Cons.prems(1) by (auto simp: apart_def)
  with Cons other own show ?case
    by (auto simp: exact_bucket_def)
qed simp

lemma new_exact:
  assumes "0 < x" and "x < 1000000"
  shows "new_length x = exact_bucket x 1"
proof -
  have "quot x 100 = x div 100" using assms by (simp add: quot_nonneg)
  moreover have r: "0 \<le> x div 100 * 100" "x div 100 * 100 \<le> x" using assms(1) by simp_all
  moreover have "i32 (x div 100 * 100) = x div 100 * 100" "i32 (x div 100 * 100 + 99) = x div 100 * 100 + 99"
    using r assms(2) by (auto intro!: i32_id simp: in32_def)
  ultimately show ?thesis by (simp add: new_length_def exact_bucket_def c_arith)
qed

lemma count_in_exact:
  assumes "modest (replicate_mset (Suc k) x)"
  shows "count_in (exact_bucket x k) x = exact_bucket x (Suc k)"
proof -
  have "u32 (int k + 1) = int k + 1" "i32 (int k * x + x) = int k * x + x"
    using small_sum [OF assms] by (simp_all add: sum_mset_replicate_mset algebra_simps)
  then show ?thesis by (simp add: count_in_def exact_bucket_def c_arith algebra_simps)
qed

lemma modest_subset: "modest M \<Longrightarrow> N \<subseteq># M \<Longrightarrow> modest N"
  using modest_union by (metis mset_subset_eq_exists_conv)

lemma tally_unmerged:
  assumes "usual tol" and "apart tol (set ws)" and "modest N" and "distinct ws" and "set ws = set_mset N"
  shows "merge_lengths tol (map (\<lambda>v. exact_bucket v (count N v)) ws) = map (\<lambda>v. exact_bucket v (count N v)) ws"
proof -
  let ?b = "\<lambda>v. exact_bucket v (count N v)"
  have "\<not> mergeable tol (?b (ws ! i)) (?b (ws ! j))" if ij: "i < j" "j < length ws" for i j
  proof -
    let ?v = "ws ! i" and ?w = "ws ! j"
    have ne: "?v \<noteq> ?w" using ij assms(4) by (simp add: nth_eq_iff_index_eq)
    have mem: "?v \<in> set ws" "?w \<in> set ws" using ij by simp_all
    have "replicate_mset (count N ?v) ?v + replicate_mset (count N ?w) ?w \<subseteq># N"
      using ne by (auto simp: subseteq_mset_def)
    then have "modest (replicate_mset (count N ?v) ?v + replicate_mset (count N ?w) ?w)"
      by (rule modest_subset [OF assms(3)])
    moreover have "apart tol {?v, ?w}" using assms(2) mem by (auto simp: apart_def)
    ultimately show "\<not> mergeable tol (exact_bucket ?v (count N ?v)) (exact_bucket ?w (count N ?w))"
      using assms(1,5) ne mem by (intro exact_not_mergeable) simp_all
  qed
  then have "sorted_wrt (\<lambda>v w. \<not> mergeable tol (?b v) (?b w)) ws" by (simp add: sorted_wrt_iff_nth_less)
  then show ?thesis by (intro merge_none) (simp add: sorted_wrt_map)
qed

lemma tally_add:
  assumes "tally ls M" and "usual tol" and "apart tol (insert x (set_mset M))" and "modest (add_mset x M)"
  shows "tally (add_merge tol x ls) (add_mset x M)"
proof -
  from assms(1) obtain vs where vs: "distinct vs" "set vs = set_mset M" "ls = map (\<lambda>v. exact_bucket v (count M v)) vs"
    by (auto simp: tally_def)
  let ?N = "add_mset x M"
  have x: "0 < x" "x < 1000000" using assms(3) by (auto simp: apart_def)
  have "replicate_mset (Suc (count M x)) x \<subseteq># ?N" by (simp add: subseteq_mset_def)
  then have in_x: "count_in (exact_bucket x (count M x)) x = exact_bucket x (Suc (count M x))"
    by (intro count_in_exact modest_subset [OF assms(4)])
  obtain ws where ws: "distinct ws" "set ws = set_mset ?N" "add_length ls x = map (\<lambda>v. exact_bucket v (count ?N v)) ws"
  proof (cases "x \<in> set vs")
    case True
    then show ?thesis using add_length_exact [of tol x vs M] assms(3) vs in_x by (intro that [of vs]) auto
  next
    case False
    then have "count M x = 0" using vs(2) by (simp add: not_in_iff)
    with False show ?thesis
      using add_length_exact [of tol x vs M] assms(3) vs new_exact [OF x] by (intro that [of "vs @ [x]"]) auto
  qed
  moreover have "apart tol (set ws)" using assms(3) ws(2) by simp
  ultimately show ?thesis
    unfolding tally_def add_merge_def using tally_unmerged [OF assms(2) _ assms(4)] by metis
qed

lemma tally_Nil [simp]: "tally [] {#}"
  by (simp add: tally_def)

lemma tally_fold:
  assumes "tally ls M" and "usual tol" and "apart tol (set xs \<union> set_mset M)" and "modest (M + mset xs)"
  shows "tally (fold (add_merge tol) xs ls) (M + mset xs)"
  using assms
proof (induction xs arbitrary: ls M)
  case (Cons x xs)
  have "tally (add_merge tol x ls) (add_mset x M)"
  proof (rule tally_add [OF Cons.prems(1,2)])
    show "apart tol (insert x (set_mset M))" using Cons.prems(3) by (auto simp: apart_def)
    show "modest (add_mset x M)" using modest_union [of "add_mset x M" "mset xs"] Cons.prems(4) by simp
  qed
  from Cons.IH [OF this Cons.prems(2)] Cons.prems(3,4) show ?case by (simp add: Un_commute)
qed simp

lemma tally_of:
  assumes "usual tol" and "mset xs = M" and "apart tol (set_mset M)" and "modest M"
  shows "tally (fold (add_merge tol) xs []) M"
proof -
  have M: "M = mset xs" using assms(2) by simp
  show ?thesis using tally_fold [OF tally_Nil assms(1), of xs] assms(3,4) unfolding M by simp
qed

subsection \<open>Reading one signal\<close>

definition inner :: "tolerances \<Rightarrow> lirc_t \<Rightarrow> lirc_t \<Rightarrow> bool" where
  "inner tol gap x \<longleftrightarrow> 0 < x \<and> x < gap * 70 div 100 \<and> x + tl_aeps tol < gap"

text \<open>The gap is known and is the same after every signal.\<close>

definition steady :: "lirc_t \<Rightarrow> measures \<Rightarrow> bool" where
  "steady gap m \<longleftrightarrow> ms_have_gap m \<and> \<not> is_const (ms_remote m) \<and> r_gap (ms_remote m) = gap \<and> gap \<le> 200000 \<and>
     length (ms_signals m) = 512"

lemma inner_not_end:
  assumes "inner tol gap x" and "usual tol" and "gap \<le> 200000"
  shows "\<not> at_end tol gap x m"
proof -
  have g: "0 < x" "x < gap * 70 div 100" "x + tl_aeps tol < gap" using assms(1) by (simp_all add: inner_def)
  then have "0 < gap" using assms(2) by (simp add: usual_def)
  then have "u32 x = x" "u32 (gap * 70) = gap * 70" "sub32 gap (tl_aeps tol) = gap - tl_aeps tol"
    using g assms(2,3) by (auto simp: usual_def sub32_def in32_def intro!: u32_id i32_id)
  with g assms(2) show ?thesis by (simp add: at_end_def usual_def)
qed

lemma gap_ends:
  assumes "usual tol" and "0 < gap" and "gap \<le> 200000" and "2 < ms_count m"
  shows "at_end tol gap gap m"
proof -
  have "sub32 gap (tl_aeps tol) = gap - tl_aeps tol"
    using assms(1-3) by (auto simp: usual_def sub32_def in32_def intro!: i32_id)
  with assms show ?thesis by (simp add: at_end_def usual_def)
qed

lemma read_inner:
  assumes "steady gap m" and "usual tol" and "\<forall>d \<in> set ds. d \<noteq> 0 \<and> inner tol gap (d AND PULSE_MASK)"
    and "0 \<le> ms_count m" and "nat (ms_count m) + length ds \<le> 512"
    and "0 \<le> ms_elapsed m" and "ms_elapsed m + sum_list (map (\<lambda>d. d AND PULSE_MASK) ds) < 2 ^ 31"
  shows "lengths_loop tol force (ds @ rest) m = lengths_loop tol force rest
    (m\<lparr>ms_count := ms_count m + int (length ds),
       ms_signals := take (nat (ms_count m)) (ms_signals m) @ map (\<lambda>d. d AND PULSE_MASK) ds @ drop (nat (ms_count m) + length ds) (ms_signals m),
       ms_elapsed := ms_elapsed m + sum_list (map (\<lambda>d. d AND PULSE_MASK) ds)\<rparr>)"
  using assms
proof (induction ds arbitrary: m)
  case (Cons d ds)
  let ?x = "d AND PULSE_MASK" and ?c = "nat (ms_count m)"
  let ?m = "m\<lparr>ms_count := ms_count m + 1, ms_signals := (ms_signals m)[?c := ?x], ms_elapsed := ms_elapsed m + ?x\<rparr>"
  have d: "d \<noteq> 0" "inner tol gap ?x" "0 < ?x" using Cons.prems(3) by (auto simp: inner_def)
  have c: "?c < 512" "0 \<le> ms_count m" "u32 (ms_count m + 1) = ms_count m + 1" "nat (ms_count m + 1) = Suc ?c"
    using Cons.prems(4,5) by (auto intro!: u32_id)
  have pos: "0 \<le> sum_list (map (\<lambda>d. d AND PULSE_MASK) ds)"
    using Cons.prems(3) by (intro sum_list_nonneg) (auto simp: inner_def)
  then have e: "add32 (ms_elapsed m) ?x = ms_elapsed m + ?x"
    using Cons.prems(6,7) d(3) by (simp add: add32_def i32_id in32_def)
  have g: "remaining_gap (m\<lparr>ms_count := ms_count m + 1\<rparr>) = gap" "ms_have_gap m" "gap \<le> 200000" "length (ms_signals m) = 512"
    using Cons.prems(1) by (simp_all add: steady_def remaining_gap_def Let_def)
  have step: "lengths_step tol force d m = Some (?m, None)"
    using g c e inner_not_end [OF d(2) assms(2) g(3)] by (simp add: lengths_step_def signal_step_def Let_def)
  have "steady gap ?m" using Cons.prems(1) by (simp add: steady_def)
  then have "lengths_loop tol force (ds @ rest) ?m = lengths_loop tol force rest
    (?m\<lparr>ms_count := ms_count ?m + int (length ds),
       ms_signals := take (nat (ms_count ?m)) (ms_signals ?m) @ map (\<lambda>d. d AND PULSE_MASK) ds @ drop (nat (ms_count ?m) + length ds) (ms_signals ?m),
       ms_elapsed := ms_elapsed ?m + sum_list (map (\<lambda>d. d AND PULSE_MASK) ds)\<rparr>)"
    using Cons.prems c d(3) by (intro Cons.IH [OF _ assms(2)]) auto
  moreover have "take (Suc ?c) ((ms_signals m)[?c := ?x]) = take ?c (ms_signals m) @ [?x]"
    using c g(4) by (simp add: take_Suc_conv_app_nth)
  ultimately show ?case using c step d(1) by (simp add: add.assoc)
qed simp

subsection \<open>One signal\<close>

lemma air_masked: "list_all lasting xs \<Longrightarrow> map (\<lambda>d. d AND PULSE_MASK) (air xs) = xs \<and> 0 \<notin> set (air xs)"
proof (induction xs rule: air.induct)
  case (2 p)
  then show ?case using lasting_sample(3,4) [of p] by auto
next
  case (3 p sp xs)
  then show ?case using lasting_sample(3,4) [of p] lasting_sample(5,6) [of sp] by auto
qed simp

lemma sum_list_below: "\<forall>x \<in> set xs. x \<le> b \<Longrightarrow> sum_list xs \<le> b * int (length xs)"
  by (induction xs) (auto simp: algebra_simps)

lemma inner_lasting: "inner tol gap x \<Longrightarrow> gap \<le> 200000 \<Longrightarrow> lasting x"
  by (auto simp: inner_def lasting_def)

text \<open>The cells go to the pulses and to the spaces, each in its order.\<close>

lemma fold_cells: "fold (count_cell tol) ks m = m\<lparr>
    ms_space := fold (add_merge tol) (map ((!) (ms_signals m)) (filter odd ks)) (ms_space m),
    ms_pulse := fold (add_merge tol) (map ((!) (ms_signals m)) (filter even ks)) (ms_pulse m)\<rparr>"
  by (induction ks arbitrary: m) (simp_all add: count_cell_def)

text \<open>Between two signals of \<open>2 * n + 1\<close> durations without a header; \<open>k\<close> of them have been counted.\<close>

definition between :: "lirc_t \<Rightarrow> nat \<Rightarrow> nat \<Rightarrow> measures \<Rightarrow> bool" where
  "between gap n k m \<longleftrightarrow> steady gap m \<and> ms_count m = 0 \<and> ms_elapsed m = 0 \<and> ms_header m = 0 \<and>
     ms_first_signal m \<noteq> 1 \<and> ms_first_length m = 0 \<and> ms_headerp m = [] \<and>
     ms_count_3repeats m = 0 \<and> ms_count_5repeats m = 0 \<and> ms_count_signals m = int k \<and>
     ms_lengths m = (replicate MAX_SIGNALS 0)[2 * n := int k]"

definition even_cells :: "lirc_t list \<Rightarrow> lirc_t list" where
  "even_cells xs = map ((!) xs) (filter even [2..<length xs])"

definition odd_cells :: "lirc_t list \<Rightarrow> lirc_t list" where
  "odd_cells xs = map ((!) xs) (filter odd [2..<length xs])"

text \<open>The analysis of a signal that has been read: \<open>2 * n\<close> cells, the trail and the gap.\<close>

lemma complete_plain:
  assumes "between gap n k m0" and "length xs = 2 * n" and "3 \<le> n" "n < 64" "k < 80"
    and "m = m0\<lparr>ms_count := 2 * int n + 2, ms_signals := xs @ t # gap # ys, ms_elapsed := e\<rparr>"
    and "length (ms_signals m) = 512"
  shows "\<exists>m'. complete_signal tol gap m = Some m' \<and> between gap n (Suc k) m' \<and> ms_remote m' = ms_remote m0 \<and>
     ms_pulse m' = fold (add_merge tol) (even_cells xs) (ms_pulse m0) \<and>
     ms_space m' = fold (add_merge tol) (odd_cells xs) (ms_space m0) \<and>
     ms_trail m' = add_merge tol t (ms_trail m0)"
proof -
  have same: "map ((!) (xs @ t # gap # ys)) (filter P [2..<2 * n]) = map ((!) xs) (filter P [2..<2 * n])" for P
    using assms(2) by (auto simp: nth_append)
  have c: "nat (2 * int n + 2) = 2 * n + 2" "nat (2 * int n) = 2 * n" "u32 (int k + 1) = int k + 1" "u32 (2 * int n) = 2 * int n"
    using assms(4,5) by (auto intro!: u32_id)
  have b: "bump ((replicate MAX_SIGNALS 0)[2 * n := int k]) (2 * int n) 1 = Some ((replicate MAX_SIGNALS 0)[2 * n := int (Suc k)])"
    using assms(3-5) c by (simp add: bump_def ac_simps)
  have t: "(xs @ t # gap # ys) ! (2 * n) = t" using assms(2) by (simp add: nth_append)
  have first: "u32 (- 2) \<noteq> 2 * int n" using assms(4) by (simp add: u32_def)
  show ?thesis
    using assms(1-7) c b t first
    by (simp add: complete_signal_def count_by_length_def count_signal_def count_durations_def between_def
        count_start_def place_signal_def fold_cells same even_cells_def odd_cells_def steady_def)
qed

lemma read_gap:
  assumes "steady gap r" and "usual tol" and "lasting gap" and "2 \<le> ms_count r" and "ms_count r < 512"
  shows "lengths_step tol force gap r = do {
     m \<leftarrow> complete_signal tol gap (r\<lparr>ms_count := ms_count r + 1,
       ms_signals := (ms_signals r)[nat (ms_count r) := gap], ms_elapsed := add32 (ms_elapsed r) gap\<rparr>);
     after_signal tol gap gap m
   }"
proof -
  have "0 < gap" "gap \<le> 200000" using assms(1,3) by (simp_all add: steady_def lasting_def)
  from gap_ends [OF assms(2) this] have e: "2 < ms_count m \<Longrightarrow> at_end tol gap gap m" for m .
  have "u32 (ms_count r + 1) = ms_count r + 1" using assms(4,5) by (intro u32_id) simp_all
  moreover have "remaining_gap (r\<lparr>ms_count := ms_count r + 1\<rparr>) = gap"
    using assms(1) by (simp add: remaining_gap_def Let_def steady_def)
  ultimately show ?thesis
    using assms(1,4,5) e lasting_sample(1,6) [OF assms(3)]
    by (simp add: lengths_step_def signal_step_def Let_def steady_def is_space_def)
qed

lemma read_signal:
  assumes "between gap n k m" and "usual tol" and "list_all (inner tol gap) (xs @ [t])" and "lasting gap"
    and "length xs = 2 * n" and "3 \<le> n" "n < 64" "k < 80"
  shows "\<exists>m'. between gap n (Suc k) m' \<and> ms_remote m' = ms_remote m \<and>
     ms_pulse m' = fold (add_merge tol) (even_cells xs) (ms_pulse m) \<and>
     ms_space m' = fold (add_merge tol) (odd_cells xs) (ms_space m) \<and>
     ms_trail m' = add_merge tol t (ms_trail m) \<and>
     lengths_loop tol force (air (xs @ [t, gap]) @ rest) m = do {
       (m'', stop) \<leftarrow> after_signal tol gap gap m';
       (case stop of Some retval \<Rightarrow> Some (retval, m'') | None \<Rightarrow> lengths_loop tol force rest m'')
     }"
proof -
  let ?ds = "xs @ [t]"
  have st: "steady gap m" "gap \<le> 200000" "ms_count m = 0" "ms_elapsed m = 0" "length (ms_signals m) = 512"
    using assms(1) by (simp_all add: between_def steady_def)
  have las: "list_all lasting ?ds"
    using assms(3) inner_lasting st(2) by (auto simp: list_all_iff)
  have len: "length (air ?ds) = 2 * n + 1" using assms(5) by (simp add: air_append)
  have masked: "map (\<lambda>d. d AND PULSE_MASK) (air ?ds) = ?ds" "0 \<notin> set (air ?ds)"
    using air_masked [OF las] by simp_all
  have in_ds: "\<forall>d \<in> set (air ?ds). d \<noteq> 0 \<and> inner tol gap (d AND PULSE_MASK)"
  proof
    fix d assume d: "d \<in> set (air ?ds)"
    then have "d AND PULSE_MASK \<in> set ?ds" using masked(1) by (metis image_eqI list.set_map)
    with assms(3) masked(2) d show "d \<noteq> 0 \<and> inner tol gap (d AND PULSE_MASK)" by (auto simp: list_all_iff)
  qed
  have bound: "sum_list ?ds \<le> 140000 * int (length ?ds)"
    using assms(3) st(2) by (intro sum_list_below) (auto simp: list_all_iff inner_def)
  let ?r = "m\<lparr>ms_count := 2 * int n + 1, ms_signals := ?ds @ drop (2 * n + 1) (ms_signals m), ms_elapsed := sum_list ?ds\<rparr>"
  let ?e = "add32 (sum_list ?ds) gap"
  let ?g = "m\<lparr>ms_count := 2 * int n + 2, ms_signals := xs @ t # gap # drop (2 * n + 2) (ms_signals m), ms_elapsed := ?e\<rparr>"
  have "lengths_loop tol force (air ?ds @ gap # rest) m = lengths_loop tol force (gap # rest) ?r"
    using read_inner [OF st(1) assms(2) in_ds, of force "gap # rest"] bound st(3,4) assms(5,7) len masked(1) by (simp add: add.commute)
  have "air (xs @ [t, gap]) @ rest = air ?ds @ gap # rest"
    using assms(5) by (simp add: air_append)
  have g: "gap \<noteq> 0" using assms(4) by (simp add: lasting_def)
  obtain m' where m': "complete_signal tol gap ?g = Some m'" "between gap n (Suc k) m'" "ms_remote m' = ms_remote m"
     "ms_pulse m' = fold (add_merge tol) (even_cells xs) (ms_pulse m)"
     "ms_space m' = fold (add_merge tol) (odd_cells xs) (ms_space m)" "ms_trail m' = add_merge tol t (ms_trail m)"
    using complete_plain [OF assms(1,5-8), where m = ?g and t = t and ys = "drop (2 * n + 2) (ms_signals m)" and e = ?e and tol = tol] st(5) assms(5,7) by auto
  have "drop (2 * n + 1) (ms_signals m) = ms_signals m ! (2 * n + 1) # drop (2 * n + 2) (ms_signals m)"
    using st(5) assms(7) by (simp add: Cons_nth_drop_Suc)
  then have "(?ds @ drop (2 * n + 1) (ms_signals m))[2 * n + 1 := gap] = xs @ t # gap # drop (2 * n + 2) (ms_signals m)"
    using assms(5) by (simp add: list_update_append)
  moreover have "nat (2 * int n + 1) = 2 * n + 1" by simp
  moreover have "steady gap ?r" using st(1,5) assms(5,7) by (simp add: steady_def)
  from read_gap [OF this assms(2,4), of force] have "lengths_step tol force gap ?r = do {
     m \<leftarrow> complete_signal tol gap (?r\<lparr>ms_count := 2 * int n + 2,
       ms_signals := (?ds @ drop (2 * n + 1) (ms_signals m))[nat (2 * int n + 1) := gap], ms_elapsed := ?e\<rparr>);
     after_signal tol gap gap m
   }"
    using assms(6,7) by (simp add: add.commute)
  ultimately have "lengths_step tol force gap ?r = after_signal tol gap gap m'"
    using m'(1) by simp
  with m' g \<open>air (xs @ [t, gap]) @ rest = air ?ds @ gap # rest\<close>
    \<open>lengths_loop tol force (air ?ds @ gap # rest) m = lengths_loop tol force (gap # rest) ?r\<close>
  show ?thesis by (intro exI [of _ m']) simp
qed

lemma after_one:
  assumes "between gap n k m" and "usual tol" and "0 < gap"
  shows "after_signal tol gap gap m = (if 80 \<le> k then map_option (\<lambda>(ok, m). (m, Some ok)) (evaluate tol m)
    else Some (m\<lparr>ms_first_signal := 0, ms_header := 0\<rparr>, None))"
proof -
  have b: "ms_header m = 0" "ms_count_signals m = int k" "gap \<le> 200000" using assms(1) by (simp_all add: between_def steady_def)
  then have "u32 gap = gap" "add32 gap 0 = gap" "u32 (gap * (100 + tl_eps tol)) = gap * 130"
    using assms(2,3) by (auto simp: add32_def usual_def in32_def intro!: u32_id i32_id)
  with b assms(3) show ?thesis
    by (cases "evaluate tol m") (auto simp: after_signal_def Let_def)
qed

subsection \<open>All signals\<close>

lemma all_signals:
  assumes "between gap n k m" and "usual tol" and "lasting gap" and "3 \<le> n" "n < 64" and "inner tol gap t"
    and "\<forall>xs \<in> set sigs. length xs = 2 * n \<and> list_all (inner tol gap) xs" and "sigs \<noteq> []" and "k + length sigs = 80"
  shows "\<exists>m'. between gap n 80 m' \<and> ms_remote m' = ms_remote m \<and>
     ms_pulse m' = fold (add_merge tol) (concat (map even_cells sigs)) (ms_pulse m) \<and>
     ms_space m' = fold (add_merge tol) (concat (map odd_cells sigs)) (ms_space m) \<and>
     ms_trail m' = fold (add_merge tol) (replicate (length sigs) t) (ms_trail m) \<and>
     lengths_loop tol force (concat (map (\<lambda>xs. air (xs @ [t, gap])) sigs) @ rest) m = evaluate tol m'"
  using assms
proof (induction sigs arbitrary: k m)
  case (Cons xs sigs)
  let ?rest = "concat (map (\<lambda>xs. air (xs @ [t, gap])) sigs) @ rest"
  have "0 < gap" using assms(3) by (simp add: lasting_def)
  have xs: "list_all (inner tol gap) (xs @ [t])" "length xs = 2 * n" "k < 80"
    using Cons.prems(6-9) by auto
  from read_signal [OF Cons.prems(1,2) xs(1) Cons.prems(3) xs(2) Cons.prems(4,5) xs(3), of force ?rest]
  obtain m1 where m1: "between gap n (Suc k) m1" "ms_remote m1 = ms_remote m"
     "ms_pulse m1 = fold (add_merge tol) (even_cells xs) (ms_pulse m)"
     "ms_space m1 = fold (add_merge tol) (odd_cells xs) (ms_space m)"
     "ms_trail m1 = add_merge tol t (ms_trail m)"
     "lengths_loop tol force (air (xs @ [t, gap]) @ ?rest) m = do {
       (m'', stop) \<leftarrow> after_signal tol gap gap m1;
       (case stop of Some retval \<Rightarrow> Some (retval, m'') | None \<Rightarrow> lengths_loop tol force ?rest m'')
     }" by blast
  note after = after_one [OF m1(1) Cons.prems(2) \<open>0 < gap\<close>]
  show ?case
  proof (cases "sigs = []")
    case True
    with Cons.prems(9) have "Suc k = 80" by simp
    with True after m1 show ?thesis
      by (intro exI [of _ m1]) (cases "evaluate tol m1"; auto)
  next
    case False
    then have k: "\<not> 80 \<le> Suc k" "Suc k + length sigs = 80" using Cons.prems(9) by (cases sigs; simp)+
    have sigs: "\<forall>xs \<in> set sigs. length xs = 2 * n \<and> list_all (inner tol gap) xs" using Cons.prems(7) by simp
    have "between gap n (Suc k) (m1\<lparr>ms_first_signal := 0, ms_header := 0\<rparr>)"
      using m1(1) by (simp add: between_def steady_def)
    from Cons.IH [OF this Cons.prems(2-6) sigs False k(2)] m1 after k(1) show ?thesis
      by (auto simp del: fold_replicate)
  qed
qed simp

subsection \<open>The evaluation\<close>

lemma upt_split: "a \<le> i \<Longrightarrow> i < n \<Longrightarrow> [a..<n] = [a..<i] @ i # [Suc i..<n]"
  using upt_add_eq_append [of a i "n - i"] upt_conv_Cons [of i n] by simp

lemma most_frequent_one:
  assumes "0 < i" and "i < MAX_SIGNALS" and "0 < k" "k < 2 ^ 32"
  shows "most_frequent ((replicate MAX_SIGNALS 0)[i := k]) = (i, k)"
proof -
  let ?xs = "(replicate MAX_SIGNALS 0)[i := k] :: int list"
  let ?f = "\<lambda>j (len, sum). (if ?xs ! j > ?xs ! len then j else len, u32 (sum + ?xs ! j))"
  have before: "fold ?f js (0, 0) = (0, 0)" if "\<forall>j \<in> set js. j < i" for js
    using that assms(1,2) by (induction js) (simp_all add: u32_id)
  have behind: "fold ?f js (i, k) = (i, k)" if "\<forall>j \<in> set js. i < j \<and> j < MAX_SIGNALS" for js
    using that assms by (induction js) (simp_all add: u32_id)
  have "[1..<MAX_SIGNALS] = [1..<i] @ i # [Suc i..<MAX_SIGNALS]"
    using assms(1,2) by (intro upt_split) simp_all
  then have "most_frequent ?xs = fold ?f [Suc i..<MAX_SIGNALS] (?f i (fold ?f [1..<i] (0, 0)))"
    unfolding most_frequent_def by (simp only: fold_append fold_Cons comp_apply)
  also have "fold ?f [1..<i] (0, 0) = (0, 0)" by (rule before) simp
  also have "?f i (0, 0) = (i, k)" using assms by (simp add: u32_id)
  also have "fold ?f [Suc i..<MAX_SIGNALS] (i, k) = (i, k)" by (rule behind) simp
  finally show ?thesis .
qed

lemma calc_exact:
  assumes "0 < v" and "0 < k" and "modest (replicate_mset k v)"
  shows "calc_signal (exact_bucket v k) = v"
  using calc_signal_between(1) [OF exact_bucket_of [OF assms(1,2)] assms(3)] assms(2)
  by (simp add: sum_mset_replicate_mset)

lemma tally_single: "tally ls (replicate_mset k v) \<Longrightarrow> 0 < k \<Longrightarrow> ls = [exact_bucket v k]"
proof -
  assume "tally ls (replicate_mset k v)" and k: "0 < k"
  then obtain vs where vs: "distinct vs" "set vs = {v}" "ls = map (\<lambda>w. exact_bucket w (count (replicate_mset k v) w)) vs"
    by (auto simp: tally_def)
  have "length vs = Suc 0" using vs(2) by (simp flip: distinct_card [OF vs(1)])
  then obtain x where "vs = [x]" unfolding length_Suc_conv by auto
  with vs(2) have "vs = [v]" by simp
  with vs(3) show ?thesis by simp
qed

lemma tally_two:
  assumes "tally ls (replicate_mset b v + replicate_mset c w)" and "0 < b" and "0 < c" and "v \<noteq> w"
  shows "ls = [exact_bucket v b, exact_bucket w c] \<or> ls = [exact_bucket w c, exact_bucket v b]"
proof -
  let ?M = "replicate_mset b v + replicate_mset c w"
  from assms obtain vs where vs: "distinct vs" "set vs = {v, w}" "ls = map (\<lambda>x. exact_bucket x (count ?M x)) vs"
    by (auto simp: tally_def)
  have "length vs = Suc (Suc 0)" using vs(2) assms(4) by (simp flip: distinct_card [OF vs(1)])
  then obtain x y where "vs = [x, y]" unfolding length_Suc_conv by auto
  with vs assms(4) have "vs = [v, w] \<or> vs = [w, v]" by (auto simp: doubleton_eq_iff)
  with vs(3) assms(4) show ?thesis by auto
qed

text \<open>The remote that is learned.\<close>

definition learned :: "tolerances \<Rightarrow> nat \<Rightarrow> lirc_t \<Rightarrow> lirc_t \<Rightarrow> lirc_t \<Rightarrow> lirc_t \<Rightarrow> ir_remote \<Rightarrow> ir_remote" where
  "learned tol n p s z t r = set_protocol (r\<lparr>r_bits := int n, r_ptrail := t, r_eps := tl_eps tol, r_aeps := tl_aeps tol,
     r_pone := p, r_sone := s, r_pzero := p, r_szero := z\<rparr>) SPACE_ENC"

lemma small_count: "k \<le> 5040 \<Longrightarrow> u32 (int k * 10) = int k * 10"
  by (intro u32_id) simp_all

lemma second_space:
  assumes "b \<le> 10 * c" and "b \<le> 5040"
  shows "second_max [exact_bucket v c] (int b) = Some (exact_bucket v c)"
  using assms small_count [of b] by (simp add: second_max_def get_max_length_def exact_bucket_def)

text \<open>Of two buckets the first one of the fullest is taken, and the other one is frequent enough.\<close>

lemma space_choice:
  assumes "ls = [exact_bucket s b, exact_bucket z c] \<or> ls = [exact_bucket z c, exact_bucket s b]"
    and "b \<le> 10 * c" "c \<le> 10 * b" "b + c \<le> 5040"
  shows "\<exists>i l l'. get_max_length ls = Some (i, l, int (b + c)) \<and> second_max (unlink_length ls i) (le_count l) = Some l' \<and>
     (l = exact_bucket s b \<and> l' = exact_bucket z c \<or> l = exact_bucket z c \<and> l' = exact_bucket s b) \<and>
     int (b + c) \<le> 2 * le_count l"
proof -
  have "u32 (int b + int c) = int b + int c" "u32 (int c + int b) = int b + int c"
    using assms(4) u32_id [of "int b + int c"] by (simp_all add: add.commute)
  moreover have c: "le_count (exact_bucket x k) = int k" for x k by (simp add: exact_bucket_def)
  ultimately have g: "get_max_length [exact_bucket s b, exact_bucket z c] =
      (if b < c then Some (1, exact_bucket z c, int (b + c)) else Some (0, exact_bucket s b, int (b + c)))"
    "get_max_length [exact_bucket z c, exact_bucket s b] =
      (if c < b then Some (1, exact_bucket s b, int (b + c)) else Some (0, exact_bucket z c, int (b + c)))"
    by (simp_all add: get_max_length_def)
  have k: "b \<le> 5040" "c \<le> 5040" using assms(4) by simp_all
  note second = second_space [OF assms(2) k(1), of z] second_space [OF assms(3) k(2), of s]
  show ?thesis
    using assms(1)
  proof
    assume "ls = [exact_bucket s b, exact_bucket z c]"
    then show ?thesis using c second by (cases "b < c") (simp_all add: g unlink_length_def)
  next
    assume "ls = [exact_bucket z c, exact_bucket s b]"
    then show ?thesis using c second by (cases "c < b") (simp_all add: g unlink_length_def)
  qed
qed

lemma evaluate_scheme:
  assumes "between gap n 80 m" and "3 \<le> n" "n < 64"
  shows "get_scheme m = Some (m\<lparr>ms_remote := space_encoded (2 * n) (ms_remote m)\<rparr>)"
proof -
  have "most_frequent (ms_lengths m) = (2 * n, 80)" "ms_lengths m ! (2 * n) = 80"
    using assms most_frequent_one [of "2 * n" 80] by (simp_all add: between_def)
  then show ?thesis by (simp add: get_scheme_def u32_id)
qed

lemma data_plain:
  assumes "ms_pulse m = [exact_bucket p a]" and "0 < a" "a \<le> 5040" and "calc_signal (exact_bucket p a) = p"
    and "ms_space m = [exact_bucket s b, exact_bucket z c] \<or> ms_space m = [exact_bucket z c, exact_bucket s b]"
    and "b \<le> 10 * c" "c \<le> 10 * b" "b + c \<le> 5040"
    and "calc_signal (exact_bucket s b) = s" "calc_signal (exact_bucket z c) = z" "z < s"
    and "\<not> is_biphase (ms_remote m)" and "r_phead (ms_remote m) = 0" and "0 < r_ptrail (ms_remote m)"
    and "r_bits (ms_remote m) = 2 * int n + 1" "n < 64"
  shows "get_data_length tol m = Some (True, (ms_remote m)\<lparr>r_eps := tl_eps tol, r_aeps := tl_aeps tol,
     r_pone := p, r_sone := s, r_pzero := p, r_szero := z, r_bits := int n\<rparr>)"
proof -
  obtain i l l' where l: "get_max_length (ms_space m) = Some (i, l, int (b + c))"
    "second_max (unlink_length (ms_space m) i) (le_count l) = Some l'"
    "l = exact_bucket s b \<and> l' = exact_bucket z c \<or> l = exact_bucket z c \<and> l' = exact_bucket s b"
    "int (b + c) \<le> 2 * le_count l"
    using space_choice [OF assms(5-8)] by blast
  have pulse: "get_max_length (ms_pulse m) = Some (0, exact_bucket p a, int a)" "unlink_length (ms_pulse m) 0 = []"
    using assms(1) by (simp_all add: get_max_length_def unlink_length_def exact_bucket_def)
  have n: "\<not> le_count (exact_bucket p a) < u32 (int a * TH_IS_BIT) div 100" "\<not> le_count l < u32 (int (b + c) * TH_IS_BIT) div 100"
    using small_count [OF assms(3)] small_count [OF assms(8)] l(4) by (simp_all add: exact_bucket_def)
  have "second_max [] (le_count (exact_bucket p a)) = None" by (simp add: second_max_def)
  moreover have flags: "is_biphase (r\<lparr>r_eps := e, r_aeps := f\<rparr>) = is_biphase r" for r e f
    by (simp add: is_biphase_def is_rc5_def is_rc6_def protocol_def)
  have cells: "set_cells (exact_bucket p a) None l (Some l') r = Some (r\<lparr>r_pone := p, r_sone := s, r_pzero := p, r_szero := z\<rparr>)"
    if "\<not> is_biphase r" for r
    using that assms(4,9-11) l(3) by (auto simp: set_cells_def)
  have "quot (2 * int n) 2 = int n" by (simp add: quot_nonneg)
  then have "set_bits ls (drop_header (r\<lparr>r_pone := p, r_sone := s, r_pzero := p, r_szero := z\<rparr>)) =
      Some (r\<lparr>r_pone := p, r_sone := s, r_pzero := p, r_szero := z, r_bits := int n\<rparr>)"
    if "\<not> is_biphase r" "r_phead r = 0" "0 < r_ptrail r" "r_bits r = 2 * int n + 1" for r ls
    using that assms(16) by (simp add: drop_header_def set_bits_def has_header_def is_biphase_def is_rc5_def is_rc6_def
        protocol_def c_arith i32_id in32_def)
  ultimately show ?thesis
    using assms(12-15) l(1,2) pulse n cells by (simp add: get_data_length_def flags)
qed

lemma evaluate_plain:
  assumes "between gap n 80 m" and "3 \<le> n" "n < 64"
    and "tally (ms_pulse m) (replicate_mset a p)" "0 < a" "a \<le> 5040" "0 < p" "modest (replicate_mset a p)"
    and "tally (ms_space m) (replicate_mset b s + replicate_mset c z)" "0 < b" "0 < c" "b \<le> 10 * c" "c \<le> 10 * b"
    and "b + c \<le> 5040" "0 < z" "z < s" "modest (replicate_mset b s + replicate_mset c z)"
    and "tally (ms_trail m) (replicate_mset 80 t)" "0 < t" "modest (replicate_mset 80 t)"
    and "r_phead (ms_remote m) = 0" and "r_rc6_mask (ms_remote m) = 0"
  shows "\<exists>m'. evaluate tol m = Some (True, m') \<and> ms_remote m' = learned tol n p s z t (ms_remote m)"
proof -
  let ?r = "space_encoded (2 * n) (ms_remote m)"
  let ?m = "m\<lparr>ms_remote := ?r\<rparr>"
  have "protocol ?r = SPACE_ENC" by (simp add: space_encoded_def set_protocol_def protocol_def bit.conj_disj_distrib2 and.assoc)
  moreover have "r_rc6_mask ?r = 0" using assms(22) by (simp add: space_encoded_def set_protocol_def)
  ultimately have bp: "\<not> is_biphase ?r" "\<not> is_biphase (?r\<lparr>r_ptrail := t\<rparr>)"
    by (simp_all add: is_biphase_def is_rc5_def is_rc6_def protocol_def)
  have trail: "ms_trail m = [exact_bucket t 80]" "calc_signal (exact_bucket t 80) = t"
    using tally_single [OF assms(18)] calc_exact [OF assms(19) _ assms(20)] by simp_all
  have head: "ms_headerp m = []" "ms_count_3repeats m = 0" "ms_count_5repeats m = 0" using assms(1) by (simp_all add: between_def)
  have steps: "get_header_length ?m = Some (True, ?r)" "get_trail_length ?m = Some (True, ?r\<lparr>r_ptrail := t\<rparr>)"
    "get_lead_length tol (?m\<lparr>ms_remote := ?r\<lparr>r_ptrail := t\<rparr>\<rparr>) = Some (True, ?r\<lparr>r_ptrail := t\<rparr>)"
    "get_repeat_length (?m\<lparr>ms_remote := ?r\<lparr>r_ptrail := t\<rparr>\<rparr>) = Some (True, ?r\<lparr>r_ptrail := t\<rparr>)"
    using head trail bp
    by (simp_all add: get_header_length_def get_trail_length_def get_lead_length_def get_repeat_length_def get_max_length_def
        exact_bucket_def u32_id)
  have space: "ms_space m = [exact_bucket s b, exact_bucket z c] \<or> ms_space m = [exact_bucket z c, exact_bucket s b]"
    using tally_two [OF assms(9-11)] assms(16) by simp
  have calc: "calc_signal (exact_bucket s b) = s" "calc_signal (exact_bucket z c) = z"
    using assms(10,11,15,16) modest_union [OF assms(17)] by (simp_all add: calc_exact)
  have data: "get_data_length tol (?m\<lparr>ms_remote := ?r\<lparr>r_ptrail := t\<rparr>\<rparr>) = Some (True, ?r\<lparr>r_ptrail := t,
     r_eps := tl_eps tol, r_aeps := tl_aeps tol, r_pone := p, r_sone := s, r_pzero := p, r_szero := z, r_bits := int n\<rparr>)"
    using data_plain [where m = "?m\<lparr>ms_remote := ?r\<lparr>r_ptrail := t\<rparr>\<rparr>", OF _ assms(5,6) calc_exact [OF assms(7,5,8)] _ assms(12-14) calc assms(16)]
      space tally_single [OF assms(4,5)] bp(2) assms(3,19,21)
    by (simp add: space_encoded_def set_protocol_def)
  have "?r\<lparr>r_ptrail := t, r_eps := tl_eps tol, r_aeps := tl_aeps tol, r_pone := p, r_sone := s, r_pzero := p,
      r_szero := z, r_bits := int n\<rparr> = learned tol n p s z t (ms_remote m)"
    by (simp add: learned_def space_encoded_def set_protocol_def)
  with steps data show ?thesis
    by (simp add: evaluate_def evaluate_scheme [OF assms(1-3)])
qed

subsection \<open>The search for the gap\<close>

text \<open>
  The state in which the gap is found, when it is found with the last of the samples and the signals are not of
  constant length.
\<close>

fun seek_gap :: "tolerances \<Rightarrow> lirc_t list \<Rightarrow> measures \<Rightarrow> measures option" where
  "seek_gap tol [] m = None"
| "seek_gap tol (d # ds) m =
    (if d = 0 then None
     else case gap_step tol False d (m\<lparr>ms_count := u32 (ms_count m + 1)\<rparr>) of
       (m', None) \<Rightarrow>
         if \<not> ms_have_gap m' then seek_gap tol ds m'
         else if ds = [] \<and> \<not> is_const (ms_remote m') then Some m' else None
     | _ \<Rightarrow> None)"

definition pristine :: "measures \<Rightarrow> bool" where
  "pristine m \<longleftrightarrow> ms_header m = 0 \<and> ms_first_signal m = - 1 \<and> ms_first_length m = 0 \<and> ms_headerp m = [] \<and>
     ms_count_3repeats m = 0 \<and> ms_count_5repeats m = 0 \<and> ms_count_signals m = 0 \<and>
     ms_lengths m = replicate MAX_SIGNALS 0 \<and> length (ms_signals m) = MAX_SIGNALS \<and>
     ms_pulse m = [] \<and> ms_space m = [] \<and> ms_trail m = []"

lemma pristine_init: "length signals = MAX_SIGNALS \<Longrightarrow> pristine (measures_init r signals)"
  by (simp add: pristine_def measures_init_def)

lemma find_gap_remote:
  assumes "find_gap m = Some r"
  shows "r = (ms_remote m)\<lparr>r_gap := r_gap r\<rparr> \<or> is_const r"
proof -
  have c: "is_const (q\<lparr>r_gap := g, r_flags := f OR CONST_LENGTH\<rparr>)" for q g f
  proof -
    have "(f OR CONST_LENGTH) AND CONST_LENGTH = CONST_LENGTH" by (rule bit_eqI) (auto simp: bit_and_iff bit_or_iff)
    then show ?thesis by (simp add: is_const_def has_flag_def)
  qed
  from assms show ?thesis
    unfolding find_gap_def by (auto simp: c split: option.splits)
qed

lemma gap_step_keeps:
  assumes "gap_step tol False d m = (m', stop)" and "\<not> ms_have_gap m"
  shows "pristine m \<Longrightarrow> pristine m'" and "\<not> ms_have_gap m' \<Longrightarrow> ms_remote m' = ms_remote m"
    and "ms_have_gap m' \<Longrightarrow> ms_count m' = 0 \<and> ms_elapsed m' = 0 \<and>
      (ms_remote m' = (ms_remote m)\<lparr>r_gap := r_gap (ms_remote m')\<rparr> \<or> is_const (ms_remote m'))"
  using assms
  by (auto simp: gap_step_def Let_def check_count_def pristine_def split: if_splits option.splits dest!: find_gap_remote)

lemma seek_gap_found:
  assumes "seek_gap tol ds m = Some m'" and "pristine m" and "\<not> ms_have_gap m"
  shows "pristine m' \<and> ms_have_gap m' \<and> ms_count m' = 0 \<and> ms_elapsed m' = 0 \<and> \<not> is_const (ms_remote m') \<and>
     ms_remote m' = (ms_remote m)\<lparr>r_gap := r_gap (ms_remote m')\<rparr> \<and>
     lengths_loop tol False (ds @ rest) m = lengths_loop tol False rest m'"
  using assms
proof (induction ds arbitrary: m)
  case (Cons d ds)
  let ?m = "m\<lparr>ms_count := u32 (ms_count m + 1)\<rparr>"
  obtain m1 stop where step: "gap_step tol False d ?m = (m1, stop)" by fastforce
  have p: "pristine ?m" "\<not> ms_have_gap ?m" using Cons.prems by (simp_all add: pristine_def)
  note keeps = gap_step_keeps [OF step p(2)]
  have d: "d \<noteq> 0" "stop = None" using Cons.prems(1) step by (auto split: if_splits option.splits)
  then have loop: "lengths_loop tol False ((d # ds) @ rest) m = lengths_loop tol False (ds @ rest) m1"
    using Cons.prems(3) step by (simp add: lengths_step_def Let_def)
  show ?case
  proof (cases "ms_have_gap m1")
    case True
    with Cons.prems(1) d step have "ds = []" "m' = m1" "\<not> is_const (ms_remote m1)" by (auto split: if_splits)
    with True keeps p(1) loop show ?thesis by auto
  next
    case False
    with Cons.prems(1) d step have "seek_gap tol ds m1 = Some m'" by simp
    from Cons.IH [OF this] False keeps p(1) loop show ?thesis by simp
  qed
qed simp

subsection \<open>The cells of a signal\<close>

lemma split_cells:
  assumes "bs \<noteq> []"
  shows "even_cells (concat (map (\<lambda>b. [f b, g b]) bs)) = map f (tl bs)" and "odd_cells (concat (map (\<lambda>b. [f b, g b]) bs)) = map g (tl bs)"
proof -
  let ?xs = "\<lambda>bs. concat (map (\<lambda>b. [f b, g b]) bs)"
  have len: "length (?xs bs) = 2 * length bs" for bs by (induction bs) simp_all
  have cells: "map ((!) (?xs bs)) (filter even [0..<2 * length bs]) = map f bs \<and>
      map ((!) (?xs bs)) (filter odd [0..<2 * length bs]) = map g bs" for bs
  proof (induction bs rule: rev_induct)
    case (snoc b bs)
    have old: "map ((!) (?xs bs @ [f b, g b])) (filter P [0..<2 * length bs]) = map ((!) (?xs bs)) (filter P [0..<2 * length bs])" for P
      by (auto simp: nth_append len)
    have "(?xs bs @ [f b, g b]) ! (2 * length bs) = f b" "(?xs bs @ [f b, g b]) ! Suc (2 * length bs) = g b"
      by (simp_all add: nth_append len)
    with snoc show ?case using old [of even] old [of odd] by simp
  qed simp
  obtain b bs' where bs: "bs = b # bs'" using assms by (cases bs) auto
  then have "[0..<2 * length bs] = 0 # [1..<2 * length bs]" "[1..<2 * length bs] = 1 # [2..<2 * length bs]"
    using upt_conv_Cons [of 0 "2 * length bs"] upt_conv_Cons [of 1 "2 * length bs"] by (simp_all add: numeral_2_eq_2)
  with cells [of bs] have "map ((!) (?xs bs)) (0 # filter even [2..<2 * length bs]) = map f bs"
    "map ((!) (?xs bs)) (1 # filter odd [2..<2 * length bs]) = map g bs"
    by simp_all
  then show "even_cells (?xs bs) = map f (tl bs)" and "odd_cells (?xs bs) = map g (tl bs)"
    by (simp_all only: even_cells_def odd_cells_def len) (simp_all add: bs)
qed

lemma mset_two: "mset (map (\<lambda>b. if b then s else z) bs) = replicate_mset (length (filter id bs)) s + replicate_mset (length (filter Not bs)) z"
  by (induction bs) simp_all

lemma length_two: "length (filter id bs) + length (filter Not bs) = length bs"
  by (induction bs) simp_all

subsection \<open>Learning a remote\<close>

text \<open>
  The remotes the theorem is about: one field of at least three bits, no header, the bits told apart by their
  spaces, which differ by more than twice the tolerance.
\<close>

definition learnable :: "tolerances \<Rightarrow> lirc_t \<Rightarrow> ir_remote \<Rightarrow> bool" where
  "learnable tol gap rem \<longleftrightarrow> space_coded rem \<and> \<not> has_header rem \<and> r_pre_data_bits rem = 0 \<and> r_post_data_bits rem = 0 \<and>
     3 \<le> r_bits rem \<and> r_pzero rem = r_pone rem \<and> lasting gap \<and>
     list_all (inner tol gap) [r_pone rem, r_sone rem, r_szero rem, r_ptrail rem] \<and>
     r_szero rem + 2 * tl_aeps tol < r_sone rem \<and> r_szero rem + 100 \<le> r_sone rem"

text \<open>The bits that are counted: all but the first one of each code.\<close>

definition counted_bits :: "ir_remote \<Rightarrow> ir_code list \<Rightarrow> bool list" where
  "counted_bits rem codes = concat (map (\<lambda>c. tl (all_bits rem c)) codes)"

definition ones :: "ir_remote \<Rightarrow> ir_code list \<Rightarrow> nat" where
  "ones rem codes = length (filter id (counted_bits rem codes))"

definition zeros :: "ir_remote \<Rightarrow> ir_code list \<Rightarrow> nat" where
  "zeros rem codes = length (filter Not (counted_bits rem codes))"

definition varied :: "ir_remote \<Rightarrow> ir_code list \<Rightarrow> bool" where
  "varied rem codes \<longleftrightarrow> ones rem codes \<le> 10 * zeros rem codes \<and> zeros rem codes \<le> 10 * ones rem codes"

definition unset :: "ir_remote \<Rightarrow> bool" where
  "unset r \<longleftrightarrow> r_phead r = 0 \<and> r_shead r = 0 \<and> r_pre_data_bits r = 0 \<and> r_post_data_bits r = 0 \<and> r_rc6_mask r = 0"

definition presses :: "ir_remote \<Rightarrow> lirc_t \<Rightarrow> ir_code list \<Rightarrow> lirc_t list" where
  "presses rem gap codes = concat (map (\<lambda>c. air (plain_signal rem c @ [gap])) codes)"

lemma learned_plain:
  assumes "learnable tol gap rem" and "unset r"
  shows "plain_signal (learned tol (nat (r_bits rem)) (r_pone rem) (r_sone rem) (r_szero rem) (r_ptrail rem) r) c = plain_signal rem c"
proof -
  let ?l = "learned tol (nat (r_bits rem)) (r_pone rem) (r_sone rem) (r_szero rem) (r_ptrail rem) r"
  have rem: "r_pzero rem = r_pone rem" "r_pre_data_bits rem = 0" "r_post_data_bits rem = 0" "\<not> has_header rem" "3 \<le> r_bits rem"
    using assms(1) by (simp_all add: learnable_def)
  have "cell ?l = cell rem" by (simp add: fun_eq_iff cell_def learned_def set_protocol_def rem)
  moreover have "all_bits ?l c = all_bits rem c"
    using assms(2) rem by (simp add: all_bits_def learned_def set_protocol_def unset_def field_bits_def)
  moreover have "\<not> has_header ?l" "r_ptrail ?l = r_ptrail rem"
    using assms(2) by (simp_all add: learned_def set_protocol_def unset_def has_header_def)
  ultimately show ?thesis using rem by (simp add: plain_signal_def cells_def)
qed

lemma counted_length:
  assumes "learnable tol gap rem"
  shows "length (counted_bits rem codes) = length codes * (nat (r_bits rem) - 1)"
  using assms by (induction codes) (simp_all add: counted_bits_def learnable_def all_bits_def)

lemma learnable_facts:
  assumes "learnable tol gap rem"
  shows "space_coded rem" "\<not> has_header rem" "3 \<le> nat (r_bits rem)" "nat (r_bits rem) < 64" "r_pzero rem = r_pone rem" "lasting gap"
    "inner tol gap (r_pone rem)" "inner tol gap (r_sone rem)" "inner tol gap (r_szero rem)" "inner tol gap (r_ptrail rem)"
    "r_szero rem < r_sone rem" "length (all_bits rem c) = nat (r_bits rem)"
  using assms by (auto simp: learnable_def space_coded_def all_bits_def)

lemma learnable_durations:
  assumes "learnable tol gap rem" and "gap \<le> 200000" and "usual tol"
  shows "0 < r_pone rem" "0 < r_szero rem" "0 < r_ptrail rem" "r_pone rem < 140000" "r_sone rem < 140000" "r_ptrail rem < 140000"
    "apart tol {r_pone rem}" "apart tol {r_sone rem, r_szero rem}" "apart tol {r_ptrail rem}"
  using assms by (auto simp: learnable_def inner_def apart_def usual_def)

lemma counts:
  assumes "learnable tol gap rem" and "varied rem codes" and "length codes = 80"
  shows "ones rem codes + zeros rem codes = length (counted_bits rem codes)" "0 < ones rem codes" "0 < zeros rem codes"
    "0 < length (counted_bits rem codes)" "length (counted_bits rem codes) \<le> 5040"
proof -
  have n: "ones rem codes + zeros rem codes = length (counted_bits rem codes)"
    by (simp add: ones_def zeros_def length_two)
  have "length (counted_bits rem codes) = 80 * (nat (r_bits rem) - 1)" using counted_length [OF assms(1)] assms(3) by simp
  then have few: "0 < length (counted_bits rem codes)" "length (counted_bits rem codes) \<le> 5040"
    using learnable_facts(3,4) [OF assms(1)] by simp_all
  with n assms(2) show "ones rem codes + zeros rem codes = length (counted_bits rem codes)" "0 < ones rem codes" "0 < zeros rem codes"
    "0 < length (counted_bits rem codes)" "length (counted_bits rem codes) \<le> 5040"
    unfolding varied_def by linarith+
qed

text \<open>What 80 signals put into the buckets: no sum wraps around.\<close>

lemma totals_modest:
  assumes "learnable tol gap rem" and "varied rem codes" and "length codes = 80" and "gap \<le> 200000" and "usual tol"
  shows "modest (replicate_mset (length (counted_bits rem codes)) (r_pone rem))"
    "modest (replicate_mset (ones rem codes) (r_sone rem) + replicate_mset (zeros rem codes) (r_szero rem))"
    "modest (replicate_mset 80 (r_ptrail rem))"
proof -
  let ?b = "int (ones rem codes)" and ?c = "int (zeros rem codes)" and ?k = "int (length (counted_bits rem codes))"
  note durations = learnable_durations [OF assms(1,4,5)]
  have few: "?b + ?c = ?k" "?k \<le> 5040" using counts [OF assms(1-3)] by linarith+
  have "r_szero rem < r_sone rem" using learnable_facts(11) [OF assms(1)] .
  with durations have "r_pone rem * ?k \<le> 140000 * ?k" "r_sone rem * ?b \<le> 140000 * ?b" "r_szero rem * ?c \<le> 140000 * ?c"
    by (intro mult_right_mono; simp)+
  with few have "r_pone rem * ?k < 2147483548" "r_sone rem * ?b + r_szero rem * ?c < 2147483548"
    by linarith+
  then show "modest (replicate_mset (length (counted_bits rem codes)) (r_pone rem))"
    "modest (replicate_mset (ones rem codes) (r_sone rem) + replicate_mset (zeros rem codes) (r_szero rem))"
    "modest (replicate_mset 80 (r_ptrail rem))"
    unfolding modest_def using durations \<open>r_szero rem < r_sone rem\<close> by (simp_all add: sum_mset_replicate_mset mult.commute)
qed

lemma learns_from:
  assumes "between gap 0 0 m" and "ms_pulse m = []" "ms_space m = []" "ms_trail m = []" and "usual tol"
    and "learnable tol gap rem" and "varied rem codes" and "length codes = 80" and "unset (ms_remote m)"
  shows "\<exists>m'. lengths_loop tol force (presses rem gap codes @ later) m = Some (True, m') \<and> ms_remote m' =
     learned tol (nat (r_bits rem)) (r_pone rem) (r_sone rem) (r_szero rem) (r_ptrail rem) (ms_remote m)"
proof -
  let ?n = "nat (r_bits rem)" and ?p = "r_pone rem" and ?s = "r_sone rem" and ?z = "r_szero rem" and ?t = "r_ptrail rem"
  note l = learnable_facts [OF assms(6)]
  have gap: "gap \<le> 200000" using assms(1) by (simp add: between_def steady_def)
  let ?sigs = "map (\<lambda>c. cells rem (all_bits rem c)) codes"
  let ?space = "\<lambda>b. if b then ?s else ?z"
  have cell: "cell rem = (\<lambda>b. [?p, ?space b])" by (simp add: fun_eq_iff cell_def l(5))
  have bits: "length (all_bits rem c) = ?n" "all_bits rem c \<noteq> []" for c
    using l(12) [of c] l(3) by (auto simp flip: length_greater_0_conv)
  have "between gap ?n 0 m"
  proof -
    have "(replicate MAX_SIGNALS 0)[i := 0] = replicate MAX_SIGNALS (0 :: int)" for i
      by (cases "i < MAX_SIGNALS") (simp_all add: list_update_same_conv list_update_beyond)
    with assms(1) show ?thesis by (simp add: between_def)
  qed
  moreover have "\<forall>xs \<in> set ?sigs. length xs = 2 * ?n \<and> list_all (inner tol gap) xs"
  proof
    fix xs assume "xs \<in> set ?sigs"
    then obtain c where xs: "xs = cells rem (all_bits rem c)" by auto
    then have "length xs = 2 * ?n" by (simp add: bits)
    moreover have "list_all (inner tol gap) xs"
      unfolding xs cells_def using l(7-9) by (auto simp: cell list_all_iff split: if_splits)
    ultimately show "length xs = 2 * ?n \<and> list_all (inner tol gap) xs" by simp
  qed
  moreover have "?sigs \<noteq> []" "0 + length ?sigs = 80" using assms(8) by auto
  moreover have "presses rem gap codes = concat (map (\<lambda>xs. air (xs @ [?t, gap])) ?sigs)"
    using l(2) by (simp add: presses_def plain_signal_def comp_def)
  ultimately obtain m' where m': "between gap ?n 80 m'" "ms_remote m' = ms_remote m"
     "ms_pulse m' = fold (add_merge tol) (concat (map even_cells ?sigs)) []"
     "ms_space m' = fold (add_merge tol) (concat (map odd_cells ?sigs)) []"
     "ms_trail m' = fold (add_merge tol) (replicate 80 ?t) []"
     "lengths_loop tol force (presses rem gap codes @ later) m = evaluate tol m'"
    using all_signals [OF _ assms(5) l(6,3,4,10), where k = 0 and m = m and sigs = ?sigs and force = force and rest = later] assms(2-4,8) by auto
  have parts: "concat (map even_cells ?sigs) = map (\<lambda>_. ?p) (counted_bits rem codes)"
    "concat (map odd_cells ?sigs) = map ?space (counted_bits rem codes)"
    using split_cells [of "all_bits rem _" "\<lambda>_. ?p" ?space]
    by (simp_all add: counted_bits_def map_concat comp_def cells_def cell bits)
  note few = counts [OF assms(6-8)] and modest = totals_modest [OF assms(6-8) gap assms(5)]
    and durations = learnable_durations [OF assms(6) gap assms(5)]
  have "set_mset (replicate_mset (ones rem codes) ?s + replicate_mset (zeros rem codes) ?z) = {?s, ?z}" using few by auto
  then have spaces: "tally (ms_space m') (replicate_mset (ones rem codes) ?s + replicate_mset (zeros rem codes) ?z)"
    unfolding m'(4) parts(2) using modest(2) durations(8) mset_two [of ?s ?z "counted_bits rem codes"]
    by (intro tally_of [OF assms(5)]) (simp_all add: ones_def zeros_def)
  have pulses: "tally (ms_pulse m') (replicate_mset (length (counted_bits rem codes)) ?p)"
    unfolding m'(3) parts(1) using modest(1) durations(7) few(4) by (intro tally_of [OF assms(5)]) (simp_all add: image_mset_const_eq)
  have trails: "tally (ms_trail m') (replicate_mset 80 ?t)"
    unfolding m'(5) using modest(3) durations(9) by (intro tally_of [OF assms(5)]) simp_all
  have "\<exists>m''. evaluate tol m' = Some (True, m'') \<and> ms_remote m'' = learned tol ?n ?p ?s ?z ?t (ms_remote m')"
    using assms(7,9) few m'(2) l(11) durations modest
    by (intro evaluate_plain [OF m'(1) l(3,4) pulses few(4,5) durations(1) modest(1) spaces few(2,3)] trails)
      (simp_all add: varied_def unset_def)
  then show ?thesis using m'(2,6) by simp
qed


text \<open>A remote with three bits, recorded after pauses of 30 milliseconds.\<close>

definition small_remote :: ir_remote where
  "small_remote = nec_remote\<lparr>r_bits := 3, r_pre_data_bits := 0, r_post_data_bits := 0, r_phead := 0, r_shead := 0,
     r_pone := 500, r_sone := 1500, r_pzero := 500, r_szero := 600, r_ptrail := 500\<rparr>"

definition small_pauses :: "lirc_t list" where
  "small_pauses = concat (replicate 41 [500, 30000, 2500, 30000])"

definition small_codes :: "ir_code list" where
  "small_codes = replicate 40 2 @ replicate 40 5"


end
