(* ===== verification/Emulation.thy ===== *)
theory Emulation
  imports Dump Lengths Receive
begin

text \<open>
  The analysis of raw configurations: \<open>emulation_readdata\<close> of \<open>IRRecord/emulation.cpp\<close> plays the recorded
  signals as a receiver would deliver them, and \<open>analyse_remote\<close> of \<open>IRRecord/irrecord.cpp\<close> learns the format
  from them and decodes every button. The decoder of \<open>emulation.cpp\<close> is the text of \<open>DLL/Common/Receive.cpp\<close>
  with \<open>emulation_readdata\<close> in place of the calls of the hardware, so it is \<^const>\<open>receive_decode\<close> over a
  hardware that reads from the recorded signals.
\<close>

subsection \<open>The emulated receiver\<close>

text \<open>
  A pointer to a code is an index into the codes of the remote; the entry without a name that ends the array has
  the number of codes as its index. \<open>em_wild\<close> is set when a pointer is followed that points behind it, or to no
  signals.
\<close>

record emulation =
  em_data :: ir_remote
  em_next :: "nat option"
  em_current :: "nat option"
  em_index :: int
  em_rep :: int
  em_sum :: lirc_t
  em_wild :: bool

definition emulation_codes :: "emulation \<Rightarrow> ir_ncode list" where
  "emulation_codes em = (case r_codes (em_data em) of None \<Rightarrow> [] | Some codes \<Rightarrow> codes)"

text \<open>A second of silence comes before the first signal.\<close>

definition emulation_restart :: "emulation \<Rightarrow> lirc_t \<times> emulation" where
  "emulation_restart em = (1000000, em\<lparr>
     em_current := (case em_next em of
         Some i \<Rightarrow> Some i
       | None \<Rightarrow> if r_codes (em_data em) = None then None else Some 0),
     em_rep := 0, em_sum := 0\<rparr>)"

text \<open>At the end of a signal: the code that comes next, how often it has been played, and the pause when it is fixed.\<close>

definition emulation_advance :: "nat \<Rightarrow> emulation \<Rightarrow> nat \<times> int \<times> lirc_t" where
  "emulation_advance i em =
    (case em_next em of
       Some j \<Rightarrow> (j, em_rep em, 0)
     | None \<Rightarrow> if em_rep em + 1 > 2 then (i + 1, 0, 1000000) else (i, em_rep em + 1, 0))"

definition emulation_pause :: "nat \<Rightarrow> emulation \<Rightarrow> lirc_t \<times> emulation" where
  "emulation_pause i em =
    (let (cur, rep, data) = emulation_advance i em; n = length (emulation_codes em);
         em = em\<lparr>em_current := Some cur, em_rep := rep, em_index := 0\<rparr>; remote = em_data em
     in if cur > n then (0, em\<lparr>em_wild := True\<rparr>)
        else if cur = n then emulation_restart (em\<lparr>em_current := None\<rparr>)
        else (if data \<noteq> 0 then data else if is_const remote then sub32 (r_gap remote) (em_sum em) else r_gap remote,
          em\<lparr>em_sum := 0\<rparr>))"

definition emulation_sample :: "ir_ncode \<Rightarrow> emulation \<Rightarrow> lirc_t \<times> emulation" where
  "emulation_sample code em =
    (case n_signals code of
       Some signals \<Rightarrow>
         if 0 \<le> em_index em \<and> em_index em < int (length signals) then
           (let d = signals ! nat (em_index em); data = (if even (em_index em) then d OR PULSE_BIT else d)
            in (data, em\<lparr>em_index := em_index em + 1, em_sum := add32 (em_sum em) (data AND PULSE_MASK)\<rparr>))
         else (0, em\<lparr>em_wild := True\<rparr>)
     | None \<Rightarrow> (0, em\<lparr>em_wild := True\<rparr>))"

definition emulation_readdata :: "emulation \<Rightarrow> lirc_t \<times> emulation" where
  "emulation_readdata em =
    (case em_current em of
       None \<Rightarrow> emulation_restart em
     | Some i \<Rightarrow>
         (let codes = emulation_codes em
          in if i < length codes \<and> em_index em < n_length (codes ! i) then emulation_sample (codes ! i) em
             else emulation_pause i em))"

subsection \<open>The decoder on the emulated receiver\<close>

text \<open>
  Waiting is reading: the sample that has been read, if it is not 0, is the one that is then taken. The receiver
  never ends, so the number of samples it will deliver is bounded by \<open>ed_left\<close>; a decoder reads no more than the
  256 its buffer holds.
\<close>

record emulated =
  ed_state :: emulation
  ed_sample :: "lirc_t option"
  ed_left :: nat

definition emulated_fetch :: "emulated \<Rightarrow> lirc_t option \<times> emulated" where
  "emulated_fetch d =
    (if ed_left d = 0 then (None, d\<lparr>ed_sample := None\<rparr>)
     else (let (x, em) = emulation_readdata (ed_state d)
           in (Some x, d\<lparr>ed_state := em, ed_sample := None, ed_left := ed_left d - 1\<rparr>)))"

definition emulated_holds :: "emulated \<Rightarrow> bool" where
  "emulated_holds d \<longleftrightarrow> (case ed_sample d of None \<Rightarrow> False | Some x \<Rightarrow> x \<noteq> 0)"

definition emulated_wait :: "lirc_t \<Rightarrow> emulated \<Rightarrow> emulated" where
  "emulated_wait timeout d =
    (if emulated_holds d then d else (let (x, d') = emulated_fetch d in d'\<lparr>ed_sample := x\<rparr>))"

definition emulated_read :: "lirc_t \<Rightarrow> emulated \<Rightarrow> lirc_t \<times> emulated" where
  "emulated_read timeout d =
    (if emulated_holds d then (the (ed_sample d), d\<lparr>ed_sample := None\<rparr>)
     else (case emulated_fetch d of (x, d') \<Rightarrow> (case x of None \<Rightarrow> 0 | Some x \<Rightarrow> x, d')))"

definition emulation_hw :: "emulated hardware" where
  "emulation_hw = \<lparr>hw_rec_mode = LIRC_MODE_MODE2, hw_code_length = 0, hw_wait_for_data = emulated_wait,
     hw_data_ready = emulated_holds, hw_readdata = emulated_read\<rparr>"

subsection \<open>The analysis\<close>

text \<open>
  \<open>get_lengths\<close> on a receiver that never ends: \<^const>\<open>None\<close> is that it does not return, or follows a wild
  pointer.
\<close>

partial_function (option) analysis_loop :: "tolerances \<Rightarrow> emulation \<Rightarrow> measures \<Rightarrow> measures option" where
  "analysis_loop tol em m =
    (let (data, em) = emulation_readdata em
     in if em_wild em then None
        else if data = 0 then Some m
        else (case lengths_step tol False data m of
            None \<Rightarrow> None
          | Some (m, stop) \<Rightarrow> if stop = None then analysis_loop tol em m else Some m))"

definition emulation_start :: "ir_remote \<Rightarrow> nat option \<Rightarrow> emulation" where
  "emulation_start raw nxt = \<lparr>em_data = raw, em_next = nxt, em_current = None, em_index = 0, em_rep = 0, em_sum = 0,
     em_wild = False\<rparr>"

text \<open>The format of the signals; the bit that toggles in RC6 is assumed to be the fifth one.\<close>

definition analyse_format :: "lirc_t list \<Rightarrow> ir_remote \<Rightarrow> ir_remote option" where
  "analyse_format signals raw = do {
     m \<leftarrow> analysis_loop \<lparr>tl_eps = r_eps raw, tl_aeps = r_aeps raw\<rparr> (emulation_start raw None) (measures_init zero_remote signals);
     let remote = ms_remote m;
     let remote = (if is_rc6 remote \<and> r_bits remote \<ge> 5 then remote\<lparr>r_rc6_mask := shl64 1 (r_bits remote - 5)\<rparr> else remote);
     Some (remote\<lparr>r_name := r_name raw, r_freq := r_freq raw\<rparr>)
   }"

text \<open>
  A button is played again and again and decoded twice; a second code that differs becomes the second code of
  the button. The remote and the state of the decoder go from one button to the next.
\<close>

definition play_limit :: nat where
  "play_limit = 1024"

definition analysed_code :: "string \<Rightarrow> ir_code \<Rightarrow> ir_code list \<Rightarrow> ir_ncode" where
  "analysed_code name code nxt = \<lparr>n_name = name, n_code = code, n_length = 0, n_signals = None, n_next = nxt,
     n_current = None, n_transmit_state = None\<rparr>"

definition analyse_button :: "ir_remote \<Rightarrow> nat \<Rightarrow> (emulated rx, ir_ncode option) state" where
  "analyse_button raw i = do {
     let codes = (case r_codes raw of None \<Rightarrow> [] | Some codes \<Rightarrow> codes);
     wr (\<lambda>s. s\<lparr>rx_dev := \<lparr>ed_state = emulation_start raw (Some i), ed_sample = None, ed_left = play_limit\<rparr>\<rparr>);
     init_rec_buffer;
     d \<leftarrow> receive_decode emulation_hw 0;
     (case d of
        None \<Rightarrow> ret None
      | Some d \<Rightarrow> do {
          clear_rec_buffer emulation_hw;
          d2 \<leftarrow> receive_decode emulation_hw 0;
          ret (Some (analysed_code (n_name (codes ! i)) (d_code d)
            (case d2 of None \<Rightarrow> [] | Some d2 \<Rightarrow> if d_code d2 \<noteq> d_code d then [d_code d2] else [])))
        })
   }"

fun analyse_buttons :: "ir_remote \<Rightarrow> nat list \<Rightarrow> (emulated rx, ir_ncode list) state" where
  "analyse_buttons raw [] = ret []"
| "analyse_buttons raw (i # is) = do {
     b \<leftarrow> analyse_button raw i;
     bs \<leftarrow> analyse_buttons raw is;
     ret (case b of None \<Rightarrow> bs | Some b \<Rightarrow> b # bs)
   }"

definition analysis_rx :: "ir_remote \<Rightarrow> ir_remote \<Rightarrow> emulated rx" where
  "analysis_rx raw remote = \<lparr>rb_data = replicate 256 0, rb_decoded = 0, rb_rptr = 0, rb_wptr = 0, rb_too_long = False,
     rb_is_biphase = False, rb_pendingp = 0, rb_pendings = 0, rb_sum = 0,
     rx_dev = \<lparr>ed_state = emulation_start raw None, ed_sample = None, ed_left = 0\<rparr>,
     rx_remotes = [remote], rx_last_remote = None, rx_last_decoded = None, rx_decoding = None, rx_clock = [],
     rx_ub = False, rx_hang = False\<rparr>"

text \<open>The remote that is printed; a remote that is not raw is left out.\<close>

definition analyse_remote :: "lirc_t list \<Rightarrow> ir_remote \<Rightarrow> ir_remote option" where
  "analyse_remote signals raw = do {
     remote \<leftarrow> analyse_format signals raw;
     let n = (case r_codes raw of None \<Rightarrow> 0 | Some codes \<Rightarrow> length codes);
     let (codes, s) = run_state (analyse_buttons raw [0..<n]) (analysis_rx raw remote);
     if rx_ub s then None else Some ((rx_remotes s ! 0)\<lparr>r_codes := Some codes\<rparr>)
   }"

definition analyse_print :: "string \<Rightarrow> string \<Rightarrow> lirc_t list \<Rightarrow> ir_remote \<Rightarrow> string option" where
  "analyse_print hw_name date signals raw =
    (if \<not> is_raw raw then Some []
     else do { remote \<leftarrow> analyse_remote signals raw; fprint_remotes hw_name date [remote] })"

definition analyse_all :: "string \<Rightarrow> string \<Rightarrow> lirc_t list \<Rightarrow> ir_remote list \<Rightarrow> string option" where
  "analyse_all hw_name date signals remotes = print_all (map (analyse_print hw_name date signals) remotes)"

end
