(* ===== verification/EmulationLaws.thy ===== *)
theory EmulationLaws
  imports Emulation RoundTrip
begin

text \<open>
  The emulated receiver is a source of samples as the decoder needs it; it plays a button as the receiver would
  hear it, so the analysis finds the code of every button that was recorded.
\<close>

subsection \<open>What is played\<close>

fun emitted :: "nat \<Rightarrow> emulation \<Rightarrow> lirc_t list" where
  "emitted 0 em = []"
| "emitted (Suc n) em = fst (emulation_readdata em) # emitted n (snd (emulation_readdata em))"

definition emulated_coming :: "emulated \<Rightarrow> lirc_t list" where
  "emulated_coming d = (case ed_sample d of None \<Rightarrow> [] | Some x \<Rightarrow> [x]) @ emitted (ed_left d) (ed_state d)"

definition emulated_sound :: "emulated \<Rightarrow> bool" where
  "emulated_sound d \<longleftrightarrow> 0 \<notin> set (emulated_coming d)"

lemma emulated_fetch_coming:
  assumes "ed_sample d = None"
  shows "emulated_coming d = (case emulated_fetch d of (None, d') \<Rightarrow> [] | (Some x, d') \<Rightarrow> x # emulated_coming d')"
    and "ed_sample (snd (emulated_fetch d)) = None"
  using assms by (cases "ed_left d"; simp add: emulated_coming_def emulated_fetch_def split_beta Let_def)+

lemma emulated_holds_iff: "emulated_sound d \<Longrightarrow> emulated_holds d \<longleftrightarrow> ed_sample d \<noteq> None"
  by (auto simp: emulated_sound_def emulated_coming_def emulated_holds_def split: option.splits)

lemma emulated_wait_coming:
  assumes "emulated_sound d"
  shows "emulated_coming (emulated_wait t d) = emulated_coming d"
    and "emulated_holds (emulated_wait t d) \<longleftrightarrow> emulated_coming d \<noteq> []"
proof -
  show c: "emulated_coming (emulated_wait t d) = emulated_coming d"
  proof (cases "ed_sample d")
    case None
    then show ?thesis using emulated_fetch_coming [OF None]
      by (cases "ed_left d"; simp add: emulated_wait_def emulated_holds_def emulated_fetch_def emulated_coming_def split_beta Let_def)
  next
    case Some
    then show ?thesis using emulated_holds_iff [OF assms] by (simp add: emulated_wait_def)
  qed
  have "emulated_sound (emulated_wait t d)" using assms by (simp add: emulated_sound_def c)
  from emulated_holds_iff [OF this] have "emulated_holds (emulated_wait t d) \<longleftrightarrow> ed_sample (emulated_wait t d) \<noteq> None" .
  moreover have "ed_sample (emulated_wait t d) = None \<Longrightarrow> emulated_coming d = []"
    using emulated_holds_iff [OF assms]
    by (cases "ed_left d"; simp add: emulated_wait_def emulated_fetch_def emulated_coming_def split_beta Let_def split: if_splits)
  moreover have "ed_sample (emulated_wait t d) \<noteq> None \<Longrightarrow> emulated_coming d \<noteq> []"
    using c by (auto simp: emulated_coming_def)
  ultimately show "emulated_holds (emulated_wait t d) \<longleftrightarrow> emulated_coming d \<noteq> []" by blast
qed

lemma emulated_read_coming:
  assumes "emulated_sound d" and "emulated_coming d \<noteq> []"
  shows "emulated_coming d = fst (emulated_read t d) # emulated_coming (snd (emulated_read t d))"
proof (cases "ed_sample d")
  case None
  then show ?thesis using assms(2) emulated_fetch_coming [OF None]
    by (cases "ed_left d"; simp add: emulated_read_def emulated_holds_def emulated_fetch_def emulated_coming_def split_beta Let_def)
next
  case (Some x)
  then show ?thesis using emulated_holds_iff [OF assms(1)] by (simp add: emulated_read_def emulated_coming_def)
qed

lemma emulated_read_sound:
  assumes "emulated_sound d"
  shows "emulated_sound (snd (emulated_read t d))"
proof (cases "emulated_coming d = []")
  case True
  then have "ed_sample d = None" "ed_left d = 0" by (auto simp: emulated_coming_def split: option.splits) (cases "ed_left d"; simp)
  then show ?thesis by (simp add: emulated_read_def emulated_holds_def emulated_fetch_def emulated_sound_def emulated_coming_def)
next
  case False
  from emulated_read_coming [OF assms False, of t] assms show ?thesis
    unfolding emulated_sound_def by (metis list.set_intros(2))
qed

interpretation emu: sample_source emulation_hw emulated_coming emulated_sound
proof unfold_locales
  fix d t
  assume d: "emulated_sound d"
  show "emulated_coming (hw_wait_for_data emulation_hw t d) = emulated_coming d"
    "hw_data_ready emulation_hw (hw_wait_for_data emulation_hw t d) \<longleftrightarrow> emulated_coming d \<noteq> []"
    using emulated_wait_coming [OF d] by (simp_all add: emulation_hw_def)
  then show "emulated_sound (hw_wait_for_data emulation_hw t d)" using d by (simp add: emulated_sound_def)
  show "emulated_sound (snd (hw_readdata emulation_hw t d))"
    using emulated_read_sound [OF d] by (simp add: emulation_hw_def)
  assume "hw_data_ready emulation_hw d"
  then have "ed_sample d \<noteq> None" using emulated_holds_iff [OF d] by (simp add: emulation_hw_def)
  then have "emulated_coming d \<noteq> []" by (auto simp: emulated_coming_def)
  from emulated_read_coming [OF d this] show "emulated_coming d = fst (hw_readdata emulation_hw t d) # emulated_coming (snd (hw_readdata emulation_hw t d))"
    by (simp add: emulation_hw_def)
qed

subsection \<open>Playing a button\<close>

text \<open>A button whose signal has been recorded, in a remote with a fixed gap.\<close>

definition recorded :: "ir_remote \<Rightarrow> nat \<Rightarrow> lirc_t list \<Rightarrow> bool" where
  "recorded raw i xs \<longleftrightarrow> \<not> is_const raw \<and> lasting (r_gap raw) \<and> list_all lasting xs \<and>
     (\<exists>codes. r_codes raw = Some codes \<and> i < length codes \<and> n_signals (codes ! i) = Some xs \<and>
       n_length (codes ! i) = int (length xs))"

definition playing :: "ir_remote \<Rightarrow> nat \<Rightarrow> nat \<Rightarrow> lirc_t \<Rightarrow> emulation" where
  "playing raw i k t = (emulation_start raw (Some i))\<lparr>em_current := Some i, em_index := int k, em_sum := t\<rparr>"

lemma play_start: "emulation_readdata (emulation_start raw (Some i)) = (1000000, playing raw i 0 0)"
  by (simp add: emulation_readdata_def emulation_start_def emulation_restart_def playing_def)

lemma play_sample:
  assumes "recorded raw i xs" and "k < length xs"
  shows "\<exists>t'. emulation_readdata (playing raw i k t) = ((if even k then flag_pulse (xs ! k) else xs ! k), playing raw i (Suc k) t')"
  using assms
  by (auto simp: recorded_def emulation_readdata_def playing_def emulation_start_def emulation_codes_def emulation_sample_def
      flag_pulse_def Let_def)

lemma play_gap:
  assumes "recorded raw i xs"
  shows "emulation_readdata (playing raw i (length xs) t) = (r_gap raw, playing raw i 0 0)"
  using assms
  by (auto simp: recorded_def emulation_readdata_def playing_def emulation_start_def emulation_codes_def emulation_pause_def
      emulation_advance_def Let_def)

lemma emitted_rest:
  assumes "recorded raw i (pre @ ys)"
  shows "\<exists>t'. emitted (length ys + m) (playing raw i (length pre) t) =
    marked (even (length pre)) ys @ emitted m (playing raw i (length (pre @ ys)) t')"
  using assms
proof (induction ys arbitrary: pre t)
  case (Cons y ys)
  obtain t1 where t1: "emulation_readdata (playing raw i (length pre) t) =
      ((if even (length pre) then flag_pulse y else y), playing raw i (length (pre @ [y])) t1)"
    using play_sample [OF Cons.prems, of "length pre" t] by (auto simp: nth_append)
  have "recorded raw i ((pre @ [y]) @ ys)" using Cons.prems by simp
  from Cons.IH [OF this, of t1] t1 show ?case by auto
qed auto

lemma emitted_round:
  assumes "recorded raw i xs" and "odd (length xs)"
  shows "emitted (Suc (length xs) + m) (playing raw i 0 t) = air (xs @ [r_gap raw]) @ emitted m (playing raw i 0 0)"
proof -
  from emitted_rest [of raw i "[]" xs "Suc m" t] assms(1) obtain t' where
    "emitted (length xs + Suc m) (playing raw i 0 t) = marked True xs @ emitted (Suc m) (playing raw i (length xs) t')"
    by auto
  with play_gap [OF assms(1), of t'] assms(2) show ?thesis by (simp add: air_marked marked_append)
qed

lemma emitted_nonzero:
  assumes "recorded raw i xs" and "k \<le> length xs"
  shows "0 \<notin> set (emitted m (playing raw i k t))"
  using assms(2)
proof (induction m arbitrary: k t)
  case (Suc m)
  show ?case
  proof (cases "k = length xs")
    case True
    have "r_gap raw \<noteq> 0" using assms(1) by (auto simp: recorded_def lasting_def)
    with True play_gap [OF assms(1), of t] Suc.IH [of 0 0] show ?thesis by simp
  next
    case False
    with Suc.prems have k: "k < length xs" by simp
    from play_sample [OF assms(1) k] obtain t' where
      s: "emulation_readdata (playing raw i k t) = ((if even k then flag_pulse (xs ! k) else xs ! k), playing raw i (Suc k) t')"
      by blast
    have "lasting (xs ! k)" using assms(1) k by (auto simp: recorded_def list_all_length)
    from lasting_sample(4,5) [OF this] s Suc.IH [of "Suc k" t'] k show ?thesis by (auto split: if_splits)
  qed
qed simp

lemma emulated_play:
  assumes "recorded raw i xs" and "odd (length xs)" and "d = \<lparr>ed_state = emulation_start raw (Some i), ed_sample = None, ed_left = n\<rparr>"
    and "2 * length xs + 3 \<le> n"
  shows "\<exists>later. emulated_coming d = 1000000 # air (xs @ [r_gap raw]) @ air (xs @ [r_gap raw]) @ later" and "emulated_sound d"
proof -
  have "n = Suc (Suc (length xs) + (Suc (length xs) + (n - (2 * length xs + 3))))" using assms(4) by simp
  then obtain m where n: "n = Suc (Suc (length xs) + (Suc (length xs) + m))" by blast
  have c: "emulated_coming d = 1000000 # emitted (Suc (length xs) + (Suc (length xs) + m)) (playing raw i 0 0)"
    unfolding assms(3) n by (simp add: emulated_coming_def play_start)
  then show "\<exists>later. emulated_coming d = 1000000 # air (xs @ [r_gap raw]) @ air (xs @ [r_gap raw]) @ later"
    unfolding c emitted_round [OF assms(1,2)] by simp
  have "0 \<notin> set (emitted (Suc (length xs) + (Suc (length xs) + m)) (playing raw i 0 0))"
    by (rule emitted_nonzero [OF assms(1)]) simp
  then show "emulated_sound d" unfolding emulated_sound_def c by simp
qed

subsection \<open>Decoding a button\<close>

text \<open>Clearing the buffer leaves what has not been read, from its start on.\<close>

lemma clear_here:
  assumes "emu.at env old (x # new) pp ps used s" and "old \<noteq> []"
  shows "\<exists>s'. run_state (clear_rec_buffer emulation_hw) s = ((), s') \<and> emu.at env [] (x # new) 0 0 0 s'"
proof -
  have h: "buf_ok s" "emulated_sound (rx_dev s)" "0 \<notin> set (emulated_coming (rx_dev s))" "signal emulated_coming s = old @ x # new"
    "rb_rptr s = int (length old)" "surroundings s = env"
    using assms(1) by (simp_all add: here_def signal_ok_def)
  then have b: "length (rb_data s) = 256" "rb_wptr s \<le> 256" "int (length old) \<le> rb_wptr s" by (simp_all add: buf_ok_def)
  have m: "hw_rec_mode emulation_hw \<noteq> LIRC_MODE_LIRCCODE" by (simp add: emulation_hw_def)
  show ?thesis
  proof (cases "int (length old) < rb_wptr s")
    case True
    let ?n = "length old" and ?w = "nat (rb_wptr s)"
    let ?d = "take (?w - ?n) (drop ?n (rb_data s)) @ drop (?w - ?n) (rb_data s)"
    have w: "?n < ?w" "?w \<le> 256" "nat (rb_wptr s - int ?n) = ?w - ?n" using True b by auto
    have "take (?w - ?n) ?d = drop ?n (take ?w (rb_data s))" using w b(1) by (simp add: drop_take)
    moreover have "drop ?n (take ?w (rb_data s)) @ emulated_coming (rx_dev s) = x # new"
      using h(4) w b(1) by (simp add: signal_def append_eq_append_conv_if split: if_splits)
    moreover have "length ?d = 256" using w b(1) by simp
    ultimately show ?thesis using h b w assms(2) True m
      by (simp add: clear_rec_buffer_def rewind_rec_buffer_def set_pending_pulse_def set_pending_space_def here_def signal_ok_def
          signal_def buf_ok_def surroundings_def Let_def i32_id in32_def)
  next
    case False
    then have w: "rb_wptr s = int (length old)" using b by simp
    have new: "emulated_coming (rx_dev s) = x # new" using h(4) w b by (simp add: signal_def append_eq_append_conv_if)
    from emulated_read_coming [OF h(2), of 0] emulated_read_sound [OF h(2), of 0] new
    obtain d where d: "emulated_read 0 (rx_dev s) = (x, d)" "emulated_coming d = new" "emulated_sound d"
      by (cases "emulated_read 0 (rx_dev s)") simp
    have r: "hw_readdata emulation_hw = emulated_read" by (simp add: emulation_hw_def)
    have "take 1 ((rb_data s)[0 := x]) = [x]" using b(1) by (cases "rb_data s") simp_all
    moreover have "rb_data s \<noteq> []" using b(1) by auto
    ultimately show ?thesis using d h b w m new
      by (simp add: clear_rec_buffer_def rewind_rec_buffer_def set_pending_pulse_def set_pending_space_def here_def signal_ok_def
          signal_def buf_ok_def surroundings_def set_data_at_def in_data_def r Let_def i32_id in32_def)
  qed
qed

lemma emulated_decode_keeps:
  assumes "signal_ok emulated_coming emulated_sound s" and "r < length (rx_remotes s)" and "\<not> is_serial (rx_remotes s ! r)"
  shows "signal emulated_coming (exec (receive_decode emulation_hw r) s) = signal emulated_coming s"
  using emu.kept.decode [of r] assms by (simp add: state_io_rel_def same_signal_def)

text \<open>
  The remote that has been learned fits the recorded one: it is a space-encoded remote that the decoder can
  read, its gap is the one of the recording and every button was recorded as this remote sends its code.
\<close>

definition fits :: "ir_remote \<Rightarrow> ir_remote \<Rightarrow> (nat \<Rightarrow> ir_code) \<Rightarrow> bool" where
  "fits raw rem code_of \<longleftrightarrow> space_coded rem \<and> timings_ok rem \<and> \<not> is_const rem \<and> max_gap rem < 2 ^ 31 \<and>
     min_gap rem = r_gap raw \<and>
     (\<forall>i < length (the (r_codes raw)). recorded raw i (plain_signal rem (code_of i)) \<and> sum_list (plain_signal rem (code_of i)) < 2 ^ 31)"

definition ready_for :: "ir_remote \<Rightarrow> emulated rx \<Rightarrow> bool" where
  "ready_for rem s \<longleftrightarrow> rx_remotes s = [rem] \<and> rx_last_remote s = None \<and> \<not> rx_ub s \<and> \<not> rx_hang s"

lemma analyse_button_decodes:
  assumes "fits raw rem code_of" and "ready_for rem s" and "i < length (the (r_codes raw))"
  shows "\<exists>s'. run_state (analyse_button raw i) s =
    (Some (analysed_code (n_name (the (r_codes raw) ! i)) (code_of i AND gen_mask (r_bits rem)) []), s') \<and> ready_for rem s'"
proof -
  let ?g = "r_gap raw" and ?xs = "plain_signal rem (code_of i)" and ?c = "code_of i AND gen_mask (r_bits rem)"
  have rem: "space_coded rem" "timings_ok rem" "\<not> is_const rem" "max_gap rem < 2 ^ 31" "min_gap rem = ?g"
    "recorded raw i ?xs" "sum_list ?xs < 2 ^ 31"
    using assms(1,3) by (simp_all add: fits_def)
  have g: "lasting ?g" "?g = signal_gap rem (code_of i)" using rem by (simp_all add: recorded_def signal_gap_def)
  have odd: "odd (length ?xs)" "length ?xs < 130" using plain_signal_length [OF rem(1)] by simp_all
  let ?d = "\<lparr>ed_state = emulation_start raw (Some i), ed_sample = None, ed_left = play_limit\<rparr>"
  obtain s0 where init: "run_state init_rec_buffer (s\<lparr>rx_dev := ?d\<rparr>) = ((), s0)" by (simp add: init_rec_buffer_def)
  have fuel: "2 * length ?xs + 3 \<le> play_limit" using odd(2) by (simp add: play_limit_def)
  obtain later where play: "emulated_coming ?d = 1000000 # air (?xs @ [?g]) @ air (?xs @ [?g]) @ later" "emulated_sound ?d"
    using emulated_play [OF rem(6) odd(1) refl fuel] by blast
  then have s0: "signal_ok emulated_coming emulated_sound s0" "signal emulated_coming s0 = 1000000 # air (?xs @ [?g]) @ air (?xs @ [?g]) @ later"
    "rx_last_remote s0 = None" "rx_remotes s0 = [rem]" "surroundings s0 = surroundings s"
    using assms(2) init
    by (auto simp: init_rec_buffer_def signal_ok_def buf_ok_def signal_def emulated_sound_def ready_for_def surroundings_def)
  have mode: "is_timing_mode emulation_hw" by (simp add: is_timing_mode_def emulation_hw_def)
  have sync: "lasting 1000000" by (simp add: lasting_def)
  have "0 < length (rx_remotes s0)" "rx_remotes s0 ! 0 = rem" using s0(4) by simp_all
  from emu.decode_here_at [OF rem(1,2) this mode s0(1,3,2) sync g rem(7,4)] obtain d s1 old where
    1: "run_state (receive_decode emulation_hw 0) s0 = (Some d, s1)" "d_code d = ?c"
      "emu.at (surroundings s0) old (?g # air (?xs @ [?g]) @ later) 0 0 (sum_list ?xs) s1"
    by blast
  have "signal emulated_coming s1 = signal emulated_coming s0"
    using emulated_decode_keeps [OF s0(1), of 0] s0(4) 1(1) space_coded_protocol(8) [OF rem(1)] by simp
  moreover have "signal emulated_coming s1 = old @ ?g # air (?xs @ [?g]) @ later" using 1(3) by (simp add: here_def)
  ultimately have "old \<noteq> []" using s0(2) by (auto dest: arg_cong [of _ _ length])
  from clear_here [OF 1(3) this] obtain s2 where
    2: "run_state (clear_rec_buffer emulation_hw) s1 = ((), s2)" "emu.at (surroundings s) [] (?g # air (?xs @ [?g]) @ later) 0 0 0 s2"
    using s0(5) by auto
  then have s2: "signal_ok emulated_coming emulated_sound s2" "signal emulated_coming s2 = ?g # air (?xs @ [?g]) @ later"
    "rx_last_remote s2 = None" "0 < length (rx_remotes s2)" "rx_remotes s2 ! 0 = rem" "surroundings s2 = surroundings s"
    using assms(2) by (auto simp: here_def surroundings_def ready_for_def)
  from emu.decode_here_at [OF rem(1,2) s2(4,5) mode s2(1,3,2) g(1) g rem(7,4)] obtain d' s3 where
    3: "run_state (receive_decode emulation_hw 0) s2 = (Some d', s3)" "d_code d' = ?c" "surroundings s3 = surroundings s2"
    by (auto simp: here_def)
  have "ready_for rem s3" using 3(3) s2(6) assms(2) by (simp add: ready_for_def surroundings_def)
  moreover obtain codes where "r_codes raw = Some codes" using rem(6) by (auto simp: recorded_def)
  ultimately show ?thesis using init 1(1,2) 2(1) 3(1,2)
    by (simp add: analyse_button_def Let_def run_bind del: run_state_bind)
qed

lemma analyse_buttons_decode:
  assumes "fits raw rem code_of" and "ready_for rem s" and "\<forall>i \<in> set is. i < length (the (r_codes raw))"
  shows "\<exists>s'. run_state (analyse_buttons raw is) s =
    (map (\<lambda>i. analysed_code (n_name (the (r_codes raw) ! i)) (code_of i AND gen_mask (r_bits rem)) []) is, s') \<and> ready_for rem s'"
  using assms(2,3)
proof (induction "is" arbitrary: s)
  case (Cons i "is")
  from Cons.prems(2) have i: "i < length (the (r_codes raw))" by simp
  from analyse_button_decodes [OF assms(1) Cons.prems(1) i] obtain s1 where
    1: "run_state (analyse_button raw i) s =
      (Some (analysed_code (n_name (the (r_codes raw) ! i)) (code_of i AND gen_mask (r_bits rem)) []), s1)" "ready_for rem s1"
    by blast
  from Cons.IH [OF 1(2)] Cons.prems(2) obtain s2 where
    "run_state (analyse_buttons raw is) s1 =
      (map (\<lambda>i. analysed_code (n_name (the (r_codes raw) ! i)) (code_of i AND gen_mask (r_bits rem)) []) is, s2)" "ready_for rem s2"
    by auto
  with 1(1) show ?case by (simp add: run_bind del: run_state_bind)
qed simp


text \<open>A recording of two buttons of a remote with a header and eight bits.\<close>

definition played_remote :: ir_remote where
  "played_remote = nec_remote\<lparr>r_flags := SPACE_ENC, r_gap := 40000\<rparr>"

definition played_code :: "nat \<Rightarrow> ir_code" where
  "played_code i = (if i = 0 then 0x59 else 0xA6)"

definition recorded_button :: "nat \<Rightarrow> ir_ncode" where
  "recorded_button i = \<lparr>n_name = (if i = 0 then ''up'' else ''down''), n_code = 0,
     n_length = int (length (plain_signal played_remote (played_code i))),
     n_signals = Some (plain_signal played_remote (played_code i)), n_next = [], n_current = None, n_transmit_state = None\<rparr>"

definition recording :: ir_remote where
  "recording = zero_remote\<lparr>r_flags := RAW_CODES, r_gap := 40000, r_codes := Some (map recorded_button [0, 1])\<rparr>"

lemma recording_codes: "r_codes recording = Some [recorded_button 0, recorded_button 1]"
  by (simp add: recording_def)

lemma recording_fits: "fits recording played_remote played_code"
proof -
  have "space_coded played_remote \<and> timings_ok played_remote \<and> \<not> is_const played_remote \<and> max_gap played_remote < 2 ^ 31 \<and>
      min_gap played_remote = r_gap recording"
    by code_simp
  moreover have "list_all (\<lambda>i. list_all lasting (plain_signal played_remote (played_code i)) \<and>
      sum_list (plain_signal played_remote (played_code i)) < 2 ^ 31) [0, 1] \<and> \<not> is_const recording \<and> lasting (r_gap recording)"
    by code_simp
  moreover have "recorded recording i (plain_signal played_remote (played_code i)) \<longleftrightarrow> \<not> is_const recording \<and>
      lasting (r_gap recording) \<and> list_all lasting (plain_signal played_remote (played_code i))" if "i = 0 \<or> i = 1" for i
    using that by (auto simp: recorded_def recording_codes recorded_button_def)
  moreover have "i = 0 \<or> i = 1" if "i < length (the (r_codes recording))" for i :: nat
    using that by (auto simp: recording_codes)
  ultimately show ?thesis by (auto simp: fits_def)
qed


end
