(* ===== verification/Streamzap.thy ===== *)
theory Streamzap
  imports RoundTrip
begin

text \<open>
  The plugin for the Streamzap receiver, \<open>DLL/Streamzap/StreamzapAPI.cpp\<close>. The device sends durations in units
  of 256 microseconds: a byte holds a pulse and a space of less than 15 units, a nibble of all ones says that the
  next byte is the whole duration. The ring buffer is that of the other plugins.
\<close>

abbreviation (input) STREAMZAP_PULSE_MASK :: int where "STREAMZAP_PULSE_MASK \<equiv> 0xF0"
abbreviation (input) STREAMZAP_SPACE_MASK :: int where "STREAMZAP_SPACE_MASK \<equiv> 0x0F"
abbreviation (input) STREAMZAP_TIMEOUT :: int where "STREAMZAP_TIMEOUT \<equiv> 0xFF"
abbreviation (input) STREAMZAP_RESOLUTION :: int where "STREAMZAP_RESOLUTION \<equiv> 256"

record streamzap =
  sz_buffer :: fifo
  sz_pulse :: bool
  sz_nextByteFull :: bool
  sz_newSignal :: bool
  sz_lastTime :: int

definition streamzap_init :: "fifo \<Rightarrow> int \<Rightarrow> streamzap" where
  "streamzap_init f now = \<lparr>sz_buffer = f\<lparr>bufferStart := 0, bufferEnd := 0\<rparr>, sz_pulse = True, sz_nextByteFull = False,
     sz_newSignal = True, sz_lastTime = now\<rparr>"

definition sz_setData :: "lirc_t \<Rightarrow> streamzap \<Rightarrow> streamzap" where
  "sz_setData data z = z\<lparr>sz_buffer := fifo_push data (sz_buffer z)\<rparr>"

text \<open>A duration in units, in the middle of its interval.\<close>

definition sz_duration :: "int \<Rightarrow> lirc_t" where
  "sz_duration units = units * STREAMZAP_RESOLUTION + STREAMZAP_RESOLUTION div 2"

text \<open>The pause before a signal: the time since the last time-out and the 255 units that the device waited.\<close>

definition sz_gap :: "int \<Rightarrow> int \<Rightarrow> streamzap \<Rightarrow> lirc_t" where
  "sz_gap freq now z =
    (let temp = add32 (i32 (quot (i64 ((now - sz_lastTime z) * 1000000)) freq)) (255 * STREAMZAP_RESOLUTION)
     in if temp > PULSE_MASK then PULSE_MASK else temp)"

definition sz_start_signal :: "int \<Rightarrow> int \<Rightarrow> streamzap \<Rightarrow> streamzap" where
  "sz_start_signal freq now z =
    (if sz_newSignal z then sz_setData (sz_gap freq now z) (z\<lparr>sz_newSignal := False, sz_lastTime := now\<rparr>) else z)"

definition sz_full_byte :: "int \<Rightarrow> streamzap \<Rightarrow> streamzap" where
  "sz_full_byte data z =
    (let value = sz_duration data
     in sz_setData (if sz_pulse z then value OR PULSE_BIT else value) (z\<lparr>sz_nextByteFull := False\<rparr>))"

definition sz_pulse_nibble :: "int \<Rightarrow> streamzap \<Rightarrow> streamzap" where
  "sz_pulse_nibble data z =
    (if data AND STREAMZAP_PULSE_MASK \<noteq> 0 then sz_setData (sz_duration ((data AND STREAMZAP_PULSE_MASK) div 16) OR PULSE_BIT) z
     else z)"

text \<open>The performance counter is read when a signal ends and when the next one starts; \<open>now\<close> is what it says.\<close>

definition sz_decode :: "int \<Rightarrow> int \<Rightarrow> int \<Rightarrow> streamzap \<Rightarrow> streamzap" where
  "sz_decode freq now data z =
    (if data = STREAMZAP_TIMEOUT then z\<lparr>sz_newSignal := True, sz_nextByteFull := False, sz_pulse := True, sz_lastTime := now\<rparr>
     else if data AND STREAMZAP_SPACE_MASK = STREAMZAP_SPACE_MASK then
       sz_pulse_nibble data (z\<lparr>sz_nextByteFull := True, sz_pulse := False\<rparr>)
     else if data AND STREAMZAP_PULSE_MASK = STREAMZAP_PULSE_MASK then
       (if data AND STREAMZAP_PULSE_MASK \<noteq> 0 then z\<lparr>sz_nextByteFull := True, sz_pulse := True\<rparr> else z)
     else
       (let z = sz_start_signal freq now z
        in if sz_nextByteFull z then sz_full_byte data z
           else sz_setData (sz_duration (data AND STREAMZAP_SPACE_MASK)) (sz_pulse_nibble data z)))"

text \<open>The receiving thread, byte for byte, each with the counter when it arrived.\<close>

definition sz_receive :: "int \<Rightarrow> (int \<times> int) list \<Rightarrow> streamzap \<Rightarrow> streamzap" where
  "sz_receive freq bytes z = fold (\<lambda>(now, data). sz_decode freq now data) bytes z"

subsection \<open>What the device sends\<close>

text \<open>
  A pulse and the space after it, in units, as the device encodes them. Whole durations with a nibble of all ones
  cannot be told from the marks.
\<close>

definition sz_whole :: "int \<Rightarrow> bool" where
  "sz_whole u \<longleftrightarrow> 0 \<le> u \<and> u < 240 \<and> u mod 16 \<noteq> 15"

definition sz_pair_ok :: "int \<times> int \<Rightarrow> bool" where
  "sz_pair_ok ps \<longleftrightarrow> (case ps of (p, s) \<Rightarrow> sz_whole p \<and> sz_whole s \<and> 0 < p)"

definition sz_encode_pair :: "int \<times> int \<Rightarrow> int list" where
  "sz_encode_pair ps = (case ps of (p, s) \<Rightarrow>
     if p < 15 then (if s < 15 then [p * 16 + s] else [p * 16 + 15, s])
     else [0xF0, p] @ (if s < 15 then [s] else [0x0F, s]))"

definition sz_samples :: "int \<times> int \<Rightarrow> lirc_t list" where
  "sz_samples ps = (case ps of (p, s) \<Rightarrow> [flag_pulse (sz_duration p), sz_duration s])"

subsection \<open>Correctness\<close>

abbreviation sz_bytes :: "int \<Rightarrow> int list \<Rightarrow> (int \<times> int) list" where
  "sz_bytes now \<equiv> map (\<lambda>b. (now, b))"

lemma nibbles:
  fixes d :: int
  assumes "0 \<le> d" "d < 256"
  shows "d AND 0x0F = d mod 16" and "d AND 0xF0 = d div 16 * 16"
proof -
  have "list_all (\<lambda>k. k AND 0x0F = k mod 16 \<and> k AND 0xF0 = k div 16 * 16) [0..255 :: int]" by code_simp
  with assms show "d AND 0x0F = d mod 16" and "d AND 0xF0 = d div 16 * 16" by (simp_all add: list_all_iff)
qed

lemma sz_receive_simps:
  "sz_receive freq [] z = z" "sz_receive freq ((now, d) # bs) z = sz_receive freq bs (sz_decode freq now d z)"
  "sz_receive freq (bs @ cs) z = sz_receive freq cs (sz_receive freq bs z)"
  by (simp_all add: sz_receive_def)

lemma decode_packed:
  assumes "0 \<le> p" "p < 15" "0 \<le> s" "s < 15" and "\<not> sz_nextByteFull z"
  shows "sz_decode freq now (p * 16 + s) z =
    (let z = sz_start_signal freq now z
     in z\<lparr>sz_buffer := fold fifo_push ((if p = 0 then [] else [flag_pulse (sz_duration p)]) @ [sz_duration s]) (sz_buffer z)\<rparr>)"
proof -
  have d: "0 \<le> p * 16 + s" "p * 16 + s < 240" using assms by simp_all
  have "(p * 16 + s) mod 16 = s" "(p * 16 + s) div 16 = p" using assms(3,4) by simp_all
  with nibbles [of "p * 16 + s"] d have "(p * 16 + s) AND 0x0F = s" "(p * 16 + s) AND 0xF0 = p * 16" by simp_all
  moreover have "\<not> sz_nextByteFull (sz_start_signal freq now z)" using assms(5) by (simp add: sz_start_signal_def sz_setData_def)
  ultimately show ?thesis using assms(2,4) d
    by (simp add: sz_decode_def sz_pulse_nibble_def sz_setData_def flag_pulse_def Let_def)
qed

lemma decode_whole:
  assumes "sz_whole u" and "sz_nextByteFull z"
  shows "sz_decode freq now u z =
    (let z = sz_start_signal freq now z
     in z\<lparr>sz_nextByteFull := False,
       sz_buffer := fifo_push (if sz_pulse z then flag_pulse (sz_duration u) else sz_duration u) (sz_buffer z)\<rparr>)"
proof -
  have u: "0 \<le> u" "u < 240" "u mod 16 \<noteq> 15" using assms(1) by (simp_all add: sz_whole_def)
  then have "u AND 0x0F = u mod 16" "u AND 0xF0 = u div 16 * 16" "u div 16 < 15" using nibbles [of u] by auto
  moreover have "sz_nextByteFull (sz_start_signal freq now z)" using assms(2) by (simp add: sz_start_signal_def sz_setData_def)
  ultimately show ?thesis using u
    by (simp add: sz_decode_def sz_full_byte_def sz_setData_def flag_pulse_def Let_def)
qed

lemma decode_marks:
  "sz_decode freq now 0xF0 z = z\<lparr>sz_nextByteFull := True, sz_pulse := True\<rparr>"
  "0 \<le> p \<Longrightarrow> p < 15 \<Longrightarrow> sz_decode freq now (p * 16 + 15) z = z\<lparr>sz_nextByteFull := True, sz_pulse := False,
     sz_buffer := fold fifo_push (if p = 0 then [] else [flag_pulse (sz_duration p)]) (sz_buffer z)\<rparr>"
proof -
  show "sz_decode freq now 0xF0 z = z\<lparr>sz_nextByteFull := True, sz_pulse := True\<rparr>" by (simp add: sz_decode_def)
  assume p: "0 \<le> p" "p < 15"
  then have d: "0 \<le> p * 16 + 15" "p * 16 + 15 < 256" "(p * 16 + 15) mod 16 = 15" "(p * 16 + 15) div 16 = p" by simp_all
  with nibbles [OF d(1,2)] have "(p * 16 + 15) AND 0x0F = 15" "(p * 16 + 15) AND 0xF0 = p * 16" by simp_all
  then show "sz_decode freq now (p * 16 + 15) z = z\<lparr>sz_nextByteFull := True, sz_pulse := False,
     sz_buffer := fold fifo_push (if p = 0 then [] else [flag_pulse (sz_duration p)]) (sz_buffer z)\<rparr>"
    using p by (simp add: sz_decode_def sz_pulse_nibble_def sz_setData_def flag_pulse_def)
qed

text \<open>A pair whose first byte is not the mark of a long space after a short pulse.\<close>

definition sz_prompt :: "int \<times> int \<Rightarrow> bool" where
  "sz_prompt ps \<longleftrightarrow> (case ps of (p, s) \<Rightarrow> 15 \<le> p \<or> s < 15)"

lemma decode_pair:
  assumes "sz_pair_ok ps" and "\<not> sz_nextByteFull z" and "sz_newSignal z \<longrightarrow> sz_prompt ps"
  shows "let z' = sz_receive freq (sz_bytes now (sz_encode_pair ps)) z in \<not> sz_nextByteFull z' \<and> \<not> sz_newSignal z' \<and>
    sz_buffer z' = fold fifo_push (sz_samples ps) (sz_buffer (sz_start_signal freq now z))"
proof -
  obtain p s where ps: "ps = (p, s)" by fastforce
  have ok: "sz_whole p" "sz_whole s" "0 < p" "0 \<le> s" using assms(1) by (auto simp: ps sz_pair_ok_def sz_whole_def)
  have gap: "sz_gap freq now (z\<lparr>sz_nextByteFull := a, sz_pulse := b\<rparr>) = sz_gap freq now z" for a b by (simp add: sz_gap_def)
  note simps = gap sz_receive_simps decode_marks decode_whole decode_packed [of 0 s] decode_packed [of p s]
    sz_start_signal_def sz_setData_def ps sz_encode_pair_def sz_samples_def sz_prompt_def Let_def
  show ?thesis
    using ok assms(2,3) decode_marks(2) [of 0]
    by (cases "p < 15"; cases "s < 15"; cases "sz_newSignal z"; simp add: simps decode_packed [of 0 s, simplified])
qed

lemma decode_pairs:
  assumes "list_all sz_pair_ok pairs" and "\<not> sz_nextByteFull z" and "\<not> sz_newSignal z"
  shows "sz_buffer (sz_receive freq (sz_bytes now (concat (map sz_encode_pair pairs))) z) =
    fold fifo_push (concat (map sz_samples pairs)) (sz_buffer z)"
  using assms
proof (induction pairs arbitrary: z)
  case (Cons ps pairs)
  let ?z = "sz_receive freq (sz_bytes now (sz_encode_pair ps)) z"
  have "sz_start_signal freq now z = z" using Cons.prems(3) by (simp add: sz_start_signal_def)
  with decode_pair [of ps z freq now] Cons.prems
    have z: "\<not> sz_nextByteFull ?z" "\<not> sz_newSignal ?z" "sz_buffer ?z = fold fifo_push (sz_samples ps) (sz_buffer z)"
    by (simp_all add: Let_def)
  from Cons.IH [OF _ z(1,2)] Cons.prems(1) z(3) show ?case by (simp add: sz_receive_simps)
qed (simp add: sz_receive_simps)



text \<open>
  C38: Two signals the Streamzap plugin gets wrong. When a signal starts with a short pulse and a space of 15 units or
  more, the pulse is delivered before the pause. A whole duration whose low nibble is all ones, here a space of
  \<open>16 * k + 15\<close> units, is taken for the mark of a long space: it becomes a pulse of \<open>k\<close> units, and the byte that
  follows is taken for the space.
\<close>

theorem streamzap_misreads:
  assumes "0 < p" "p < 15" and "15 \<le> s" "sz_whole s" and "0 < k" "k < 15" and "\<not> sz_nextByteFull z"
  shows "(sz_newSignal z \<longrightarrow> sz_buffer (sz_receive freq (sz_bytes now (sz_encode_pair (p, s))) z) =
      fold fifo_push [flag_pulse (sz_duration p), sz_gap freq now z, sz_duration s] (sz_buffer z)) \<and>
    (\<not> sz_newSignal z \<longrightarrow> sz_buffer (sz_receive freq (sz_bytes now (sz_encode_pair (p, k * 16 + 15) @ [s])) z) =
      fold fifo_push [flag_pulse (sz_duration p), flag_pulse (sz_duration k), sz_duration s] (sz_buffer z))"
proof -
  have gap: "sz_gap freq now (z\<lparr>sz_nextByteFull := a, sz_pulse := b, sz_buffer := c\<rparr>) = sz_gap freq now z" for a b c
    by (simp add: sz_gap_def)
  show ?thesis using assms
    by (simp add: sz_encode_pair_def sz_receive_simps decode_marks decode_whole sz_start_signal_def sz_setData_def gap Let_def)
qed

theorem streamzap_misreads_witness:
  "sz_buffer (sz_receive 1000000 (sz_bytes 50000 (sz_encode_pair (2, 17))) (streamzap_init fifo_init 0)) =
      fold fifo_push [640 OR PULSE_BIT, 115280, 4480] fifo_init"
proof -
  let ?z = "streamzap_init fifo_init 0"
  have eq: "[flag_pulse (sz_duration 2), sz_gap 1000000 50000 ?z, sz_duration 17] = [640 OR PULSE_BIT, 115280, 4480]" by code_simp
  have z: "sz_buffer ?z = fifo_init" "\<not> sz_nextByteFull ?z" "sz_newSignal ?z" by (simp_all add: streamzap_init_def fifo_init_def)
  from streamzap_misreads [of 2 17 1 ?z 1000000 50000] z
  have "sz_buffer (sz_receive 1000000 (sz_bytes 50000 (sz_encode_pair (2, 17))) ?z) =
      fold fifo_push [flag_pulse (sz_duration 2), sz_gap 1000000 50000 ?z, sz_duration 17] fifo_init"
    by (simp add: sz_whole_def)
  then show ?thesis by (simp only: eq)
qed

end
