(* ===== verification/Udp.thy ===== *)
theory Udp
  imports RoundTrip
begin

text \<open>
  The plugin that receives samples over the network, \<open>DLL/UDP/Server.cpp\<close>: a datagram is a list of words of 16
  bits, low byte first, with the level in the highest bit and the duration in units of 1/16384 second in the
  others. The ring buffer is that of the other plugins.
\<close>

definition udp_sample :: "int \<Rightarrow> int \<Rightarrow> lirc_t" where
  "udp_sample packed0 packed1 =
    (let data = (if packed1 AND 0x80 \<noteq> 0 then 0 else PULSE_BIT);
         tmp = packed1 * 256 OR packed0;
         tmp = u32 ((tmp AND 0x7FFF) * 15625) div 256
     in data OR (tmp AND PULSE_MASK))"

fun udp_samples :: "int list \<Rightarrow> lirc_t list" where
  "udp_samples (b0 # b1 # bs) = udp_sample b0 b1 # udp_samples bs"
| "udp_samples _ = []"

text \<open>A datagram of an odd number of bytes is ignored, and so is one that does not fit into the buffer, an error of \<open>recv\<close>.\<close>

definition udp_processData :: "int list \<Rightarrow> fifo \<Rightarrow> fifo" where
  "udp_processData datagram f =
    (if 0 < length datagram \<and> length datagram \<le> 8192 \<and> even (length datagram) then fold fifo_push (udp_samples datagram) f
     else f)"

subsection \<open>Correctness\<close>

text \<open>A duration at a level, as the sender packs it, and the sample it stands for.\<close>

definition udp_word :: "bool \<times> int \<Rightarrow> int list" where
  "udp_word lt = (case lt of (pulse, t) \<Rightarrow> [t mod 256, t div 256 + (if pulse then 0 else 0x80)])"

definition udp_ticks :: "int \<Rightarrow> int" where
  "udp_ticks usecs = usecs * 16384 div 1000000"

definition udp_usecs :: "int \<Rightarrow> lirc_t" where
  "udp_usecs t = t * 15625 div 256"

lemma udp_usecs_bounds:
  assumes "0 \<le> t" "t < 32768"
  shows "0 \<le> udp_usecs t" and "udp_usecs t \<le> 1999938" and "t * 1000000 - 16384 < udp_usecs t * 16384" and "udp_usecs t * 16384 \<le> t * 1000000"
  using assms by (auto simp: udp_usecs_def)

lemma low_byte: "0 \<le> b \<Longrightarrow> b < 256 \<Longrightarrow> a * 256 OR b = a * 256 + (b :: int)"
proof -
  assume b: "0 \<le> b" "b < 256"
  have "push_bit 8 a AND take_bit 8 b = 0" by (rule bit_eqI) (auto simp: bit_simps)
  moreover have "push_bit 8 a = a * 256" "take_bit 8 b = b"
    using b by (simp_all add: push_bit_eq_mult take_bit_int_eq_self)
  ultimately have "a * 256 AND b = 0" by simp
  then show "a * 256 OR b = a * 256 + b" by (simp add: disjunctive_add_eq_or)
qed

lemma udp_sample_word:
  assumes "0 \<le> t" "t < 32768"
  shows "udp_sample (t mod 256) (t div 256 + (if pulse then 0 else 0x80)) = (if pulse then flag_pulse (udp_usecs t) else udp_usecs t)"
proof -
  let ?p = "t div 256 + (if pulse then 0 else 0x80)"
  have q: "0 \<le> t div 256" "t div 256 < 128" using assms by simp_all
  have "list_all (\<lambda>k. k AND 0x80 = 0 \<and> (k + 0x80) AND 0x80 = 0x80) [0..127 :: int]" by code_simp
  with q have level: "?p AND 0x80 = (if pulse then 0 else 0x80)" by (auto simp: list_all_iff)
  have "?p * 256 OR t mod 256 = t + (if pulse then 0 else 32768)" using low_byte [of "t mod 256" ?p] by simp
  moreover have "x AND 0x7FFF = x mod 32768" for x :: int
    using take_bit_eq_mask [of 15 x] by (simp add: mask_eq_exp_minus_1 take_bit_eq_mod)
  then have "(t + (if pulse then 0 else 32768)) AND 0x7FFF = t" using assms by simp
  moreover have "u32 (t * 15625) = t * 15625" using assms by (intro u32_id) simp_all
  moreover have "udp_usecs t AND PULSE_MASK = udp_usecs t"
    using udp_usecs_bounds [OF assms] by (cases "udp_usecs t = 0") (auto intro!: lasting_take simp: lasting_def)
  ultimately show ?thesis using level
    by (simp add: udp_sample_def flag_pulse_def udp_usecs_def or.commute)
qed

lemma udp_samples_words:
  "\<forall>(p, t) \<in> set ws. 0 \<le> t \<and> t < 32768 \<Longrightarrow>
   udp_samples (concat (map udp_word ws)) = map (\<lambda>(p, t). if p then flag_pulse (udp_usecs t) else udp_usecs t) ws"
  by (induction ws) (auto simp: udp_word_def udp_sample_word)

lemma length_udp_words: "length (concat (map udp_word ws)) = 2 * length ws"
  by (induction ws) (auto simp: udp_word_def)



end
