(* ===== verification/Mce.thy ===== *)
theory Mce
  imports RoundTrip
begin

text \<open>
  The plugin for Media Center receivers, \<open>DLL/MCE/SendReceiveData.cpp\<close> and \<open>MCEDefines.h\<close>. The driver delivers
  and takes durations in microseconds, pulses positive and spaces negative. What \<open>DeviceIoControl\<close> answers is an
  input, what is asked of the driver is recorded. The ring buffer is that of the other plugins.
\<close>

abbreviation (input) MCE_BLASTER_1 :: int where "MCE_BLASTER_1 \<equiv> 1"
abbreviation (input) MCE_BLASTER_2 :: int where "MCE_BLASTER_2 \<equiv> 2"
abbreviation (input) MCE_BLASTER_BOTH :: int where "MCE_BLASTER_BOTH \<equiv> 3"

subsection \<open>Ports\<close>

text \<open>Bit \<open>i\<close> of an \<open>int\<close>, which is negative when bit 31 is set.\<close>

definition FirstLowBit :: "int \<Rightarrow> int" where
  "FirstLowBit m = (case find (\<lambda>i. \<not> bit m i) [0..<32] of Some i \<Rightarrow> int i | None \<Rightarrow> - 1)"

fun high_bit_loop :: "int \<Rightarrow> int \<Rightarrow> nat list \<Rightarrow> int \<Rightarrow> int" where
  "high_bit_loop m bitCount [] cnt = 0"
| "high_bit_loop m bitCount (i # is) cnt =
    (if bit m i then (if cnt + 1 = bitCount then i32 (2 ^ i) else high_bit_loop m bitCount is (cnt + 1))
     else high_bit_loop m bitCount is cnt)"

definition GetHighBit :: "int \<Rightarrow> int \<Rightarrow> int" where
  "GetHighBit m bitCount = high_bit_loop m bitCount [0..<32] 0"

text \<open>The ports to send on; \<open>getAvailableBlasters\<close> yields 0 when the driver does not answer.\<close>

definition calcBlasterPort :: "int \<Rightarrow> int option \<Rightarrow> int \<Rightarrow> int" where
  "calcBlasterPort transmitChannelMask answer numTransmitPorts =
    (let blasters = (case answer of None \<Rightarrow> 0 | Some b \<Rightarrow> b)
     in if transmitChannelMask = MCE_BLASTER_BOTH then blasters
        else if transmitChannelMask = MCE_BLASTER_1 then GetHighBit blasters (sub32 numTransmitPorts 1)
        else if transmitChannelMask = MCE_BLASTER_2 then GetHighBit blasters numTransmitPorts
        else 0)"

subsection \<open>Receiving\<close>

record mce =
  mc_buffer :: fifo
  mc_lastTime :: int
  mc_calls :: "string list"

definition mc_setData :: "lirc_t \<Rightarrow> mce \<Rightarrow> mce" where
  "mc_setData data m = m\<lparr>mc_buffer := fifo_push data (mc_buffer m)\<rparr>"

definition mce_magnitude :: "lirc_t \<Rightarrow> lirc_t" where
  "mce_magnitude x = (if x < 0 then mul32 x (- 1) else x)"

definition mce_sample :: "lirc_t \<Rightarrow> lirc_t" where
  "mce_sample x = (if x < 0 then mul32 x (- 1) else x OR PULSE_BIT)"

definition mce_total :: "lirc_t list \<Rightarrow> lirc_t" where
  "mce_total pData = fold (\<lambda>x t. add32 t (mce_magnitude x)) pData 0"

text \<open>The pause before the block: the time since the last one, less what this one took, and the time-out.\<close>

definition mce_gap :: "int \<Rightarrow> int \<Rightarrow> lirc_t list \<Rightarrow> mce \<Rightarrow> lirc_t" where
  "mce_gap freq now pData m =
    (let d = add32 (sub32 (i32 (quot (i64 ((now - mc_lastTime m) * 1000000)) freq)) (mce_total pData)) 30000
     in if d < 0 \<or> d > PULSE_MASK then PULSE_MASK else d)"

definition mce_sendToDecoder :: "int \<Rightarrow> int \<Rightarrow> lirc_t list \<Rightarrow> mce \<Rightarrow> mce" where
  "mce_sendToDecoder freq now pData m =
     fold mc_setData (map mce_sample (butlast pData)) (mc_setData (mce_gap freq now pData m) (m\<lparr>mc_lastTime := now\<rparr>))"

text \<open>
  The receiving thread: what the read of a block came to, with the counter when it returned. An empty block is an
  error that is passed over; a failed read resets the receiver, and so does the exit event, which then ends the
  thread.
\<close>

datatype mce_io = Block "lirc_t list" | Failed | Interrupted

definition mce_restart :: "mce \<Rightarrow> mce" where
  "mce_restart m = m\<lparr>mc_calls := mc_calls m @ [''Reset'', ''StartReceive'']\<rparr>"

fun mce_thread :: "int \<Rightarrow> (int \<times> mce_io) list \<Rightarrow> mce \<Rightarrow> mce" where
  "mce_thread freq [] m = m"
| "mce_thread freq ((now, io) # ios) m =
    (case io of
       Block pData \<Rightarrow> mce_thread freq ios (if pData = [] then m else mce_sendToDecoder freq now pData m)
     | Failed \<Rightarrow> mce_thread freq ios (mce_restart m)
     | Interrupted \<Rightarrow> (mce_restart m)\<lparr>mc_calls := mc_calls (mce_restart m) @ [''StopReceive'']\<rparr>)"

definition mce_threadProc :: "int \<Rightarrow> bool \<Rightarrow> (int \<times> mce_io) list \<Rightarrow> mce \<Rightarrow> mce" where
  "mce_threadProc freq started ios m =
    (if started then mce_thread freq ios (m\<lparr>mc_calls := mc_calls m @ [''StartReceive'']\<rparr>) else m)"

subsection \<open>Sending\<close>

text \<open>Durations rounded to 50 microseconds.\<close>

definition mce_round :: "lirc_t \<Rightarrow> lirc_t" where
  "mce_round d = mul32 (quot (add32 d 25) 50) 50"

fun mce_data :: "bool \<Rightarrow> lirc_t list \<Rightarrow> lirc_t list" where
  "mce_data space [] = []"
| "mce_data space (d # ds) = (if space then mul32 (mce_round d) (- 1) else mce_round d) # mce_data (\<not> space) ds"

record mce_transmission =
  mt_port :: int
  mt_period :: int
  mt_byteCount :: int
  mt_data :: "lirc_t list"

definition mce_transmit :: "lirc_t list \<Rightarrow> int \<Rightarrow> int \<Rightarrow> mce_transmission" where
  "mce_transmit data transmitMask period = \<lparr>mt_port = transmitMask, mt_period = period,
     mt_byteCount = 4 * int (length data), mt_data = data\<rparr>"

text \<open>
  \<^const>\<open>None\<close> is nothing sent: no port, or no signal. \<open>init_send\<close> has filled the send buffer with \<open>signals\<close>
  when it succeeds.
\<close>

definition mce_send :: "int \<Rightarrow> int \<Rightarrow> lirc_t list option \<Rightarrow> mce_transmission option" where
  "mce_send blasterPort freq signals =
    (if blasterPort = 0 then None
     else (let carrierFrequency = (if freq = 0 then 38000 else freq)
           in case signals of
                None \<Rightarrow> None
              | Some ds \<Rightarrow> Some (mce_transmit (mce_data False ds) blasterPort (quot 1000000 carrierFrequency))))"

subsection \<open>Correctness\<close>

lemma mce_round_eq:
  assumes "0 \<le> d" "d < 2 ^ 31 - 100"
  shows "mce_round d = (d + 25) div 50 * 50"
proof -
  have "(d + 25) div 50 * 50 \<le> d + 25" "0 \<le> (d + 25) div 50 * 50" using assms by simp_all
  with assms show ?thesis by (simp add: mce_round_def c_arith quot_nonneg i32_id in32_def)
qed

text \<open>Durations that are still durations after rounding.\<close>

definition mce_duration :: "lirc_t \<Rightarrow> bool" where
  "mce_duration d \<longleftrightarrow> 25 \<le> d \<and> d \<le> PULSE_MASK - 25"

lemma mce_round_positive: "mce_duration d \<Longrightarrow> 0 < mce_round d \<and> mce_round d \<le> PULSE_MASK \<and> \<bar>mce_round d - d\<bar> \<le> 25"
proof -
  assume d: "mce_duration d"
  then have "mce_round d = (d + 25) div 50 * 50" by (intro mce_round_eq) (simp_all add: mce_duration_def)
  moreover have "1 \<le> (d + 25) div 50" using d zdiv_mono1 [of 50 "d + 25" 50] by (simp add: mce_duration_def)
  moreover have "(d + 25) div 50 * 50 \<le> d + 25" "d - 25 \<le> (d + 25) div 50 * 50" by linarith+
  ultimately show ?thesis using d by (simp add: mce_duration_def)
qed

lemma mce_sample_data:
  "list_all mce_duration ds \<Longrightarrow> map mce_sample (mce_data space ds) = marked (\<not> space) (map mce_round ds)"
proof (induction ds arbitrary: space)
  case (Cons d ds)
  then have r: "0 < mce_round d" "mce_round d \<le> PULSE_MASK" using mce_round_positive [of d] by simp_all
  then have "mul32 (mce_round d) (- 1) = - mce_round d" "mul32 (- mce_round d) (- 1) = mce_round d"
    by (simp_all add: mul32_def i32_id in32_def)
  with Cons r show ?case by (simp add: mce_sample_def flag_pulse_def)
qed simp

lemma mce_data_Nil [simp]: "mce_data space ds = [] \<longleftrightarrow> ds = []"
  by (cases ds) simp_all

lemma butlast_mce_data: "butlast (mce_data space ds) = mce_data space (butlast ds)"
proof (induction ds arbitrary: space)
  case (Cons d ds)
  then show ?case by (cases "ds = []") simp_all
qed simp

lemma fold_mc_setData: "mc_buffer (fold mc_setData xs m) = fold fifo_push xs (mc_buffer m)"
  by (induction xs arbitrary: m) (simp_all add: mc_setData_def)

text \<open>
  C36: One Media Center device hears another. What the plugin sends for a signal, received as one block, becomes a pause and
  the pulses and spaces of that signal in their order, the gap at its end left out, each of them within 25
  microseconds of what \<open>init_send\<close> asked for.
\<close>

theorem mce_hears_mce:
  assumes "mce_send blasterPort carrier (Some ds) = Some t" and "list_all mce_duration ds"
  shows "mc_buffer (mce_thread freq [(now, Block (mt_data t))] m) =
      (if ds = [] then mc_buffer m
       else fold fifo_push (mce_gap freq now (mt_data t) m # air (map mce_round (butlast ds))) (mc_buffer m)) \<and>
    (\<forall>d \<in> set ds. \<bar>mce_round d - d\<bar> \<le> 25)"
proof -
  have t: "mt_data t = mce_data False ds"
    using assms(1) by (auto simp: mce_send_def mce_transmit_def Let_def split: if_splits)
  have "map mce_sample (butlast (mt_data t)) = air (map mce_round (butlast ds))"
    using mce_sample_data [of "butlast ds" False] assms(2)
    by (simp add: t butlast_mce_data air_marked list_all_iff in_set_butlastD)
  moreover have "mt_data t = [] \<longleftrightarrow> ds = []" by (simp add: t)
  moreover have "\<forall>d \<in> set ds. \<bar>mce_round d - d\<bar> \<le> 25" using assms(2) mce_round_positive by (simp add: list_all_iff)
  ultimately show ?thesis
    by (simp add: mce_sendToDecoder_def fold_mc_setData mc_setData_def)
qed

theorem mce_hears_mce_witness:
  "mc_buffer (mce_thread 1000000 [(50000, Block (mt_data (the (mce_send 1 38000 (Some [9010, 4480, 560, 40000])))))]
      \<lparr>mc_buffer = fifo_init, mc_lastTime = 0, mc_calls = []\<rparr>) =
    fold fifo_push [25950, flag_pulse 9000, 4500, flag_pulse 550] fifo_init"
proof -
  let ?t = "mce_transmit (mce_data False [9010, 4480, 560, 40000]) 1 26"
  let ?m = "\<lparr>mc_buffer = fifo_init, mc_lastTime = 0, mc_calls = []\<rparr>"
  have t: "mce_send 1 38000 (Some [9010, 4480, 560, 40000]) = Some ?t" by code_simp
  have eq: "mce_gap 1000000 50000 (mt_data ?t) ?m # air (map mce_round (butlast [9010, 4480, 560, 40000])) =
      [25950, flag_pulse 9000, 4500, flag_pulse 550]"
    by code_simp
  have "list_all mce_duration [9010, 4480, 560, 40000]" by code_simp
  from mce_hears_mce [OF t this, of 1000000 50000 ?m] show ?thesis by (simp only: t option.sel eq mce.select_convs) simp
qed

end
