(* ===== verification/Iguana.thy ===== *)
theory Iguana
  imports RoundTrip
begin

text \<open>
  The plugin for IguanaIR devices, \<open>DLL/Iguana/SendReceiveData.cpp\<close>. A daemon speaks for the device: what its
  packets say is an input, what is requested from it is recorded. A packet holds words of 32 bits with the level
  in bit 24 and the duration below. The ring buffer is that of the other plugins.
\<close>

abbreviation (input) IG_PULSE_BIT :: int where "IG_PULSE_BIT \<equiv> 0x01000000"
abbreviation (input) IG_PULSE_MASK :: int where "IG_PULSE_MASK \<equiv> 0x00FFFFFF"
abbreviation (input) IG_DEV_SEND :: int where "IG_DEV_SEND \<equiv> 0x15"
abbreviation (input) IG_DEV_SETCHANNELS :: int where "IG_DEV_SETCHANNELS \<equiv> 0x17"
abbreviation (input) IG_DEV_SETCARRIER :: int where "IG_DEV_SETCARRIER \<equiv> 0x19"

subsection \<open>Receiving\<close>

text \<open>
  \<open>prevCode\<close>, -1 at the start, is the sample that is still growing: the same level may go on in the next packet.
  \<open>buffer\<close> has room for 8 samples; more set \<open>ig_ub\<close>.
\<close>

record iguana =
  ig_buffer :: fifo
  ig_prevCode :: lirc_t
  ig_currentCarrier :: int
  ig_requests :: "(int \<times> int list) list"
  ig_ub :: bool

definition ig_sample :: "lirc_t \<Rightarrow> lirc_t" where
  "ig_sample code =
    (let prev = code AND IG_PULSE_MASK; prev = (if prev > PULSE_MASK then PULSE_MASK else prev)
     in if code AND IG_PULSE_BIT \<noteq> 0 then prev OR PULSE_BIT else prev)"

definition ig_same_level :: "lirc_t \<Rightarrow> lirc_t \<Rightarrow> bool" where
  "ig_same_level prev code \<longleftrightarrow>
     (prev AND PULSE_BIT \<noteq> 0 \<and> code AND IG_PULSE_BIT \<noteq> 0) \<or> (prev AND PULSE_BIT = 0 \<and> code AND IG_PULSE_BIT = 0)"

definition ig_extend :: "lirc_t \<Rightarrow> lirc_t \<Rightarrow> lirc_t" where
  "ig_extend prev code =
    (if (prev AND PULSE_MASK) + (code AND IG_PULSE_MASK) > PULSE_MASK then (prev AND PULSE_BIT) OR PULSE_MASK
     else add32 prev (code AND IG_PULSE_MASK))"

fun ig_codes :: "lirc_t list \<Rightarrow> lirc_t \<Rightarrow> lirc_t list \<Rightarrow> lirc_t \<times> lirc_t list" where
  "ig_codes [] prev out = (prev, out)"
| "ig_codes (code # rest) prev out =
    (if prev = - 1 then ig_codes rest (ig_sample code) out
     else if ig_same_level prev code then ig_codes rest (ig_extend prev code) out
     else ig_codes rest (ig_sample code) (out @ [prev]))"

definition ig_packet :: "lirc_t list \<Rightarrow> iguana \<Rightarrow> iguana" where
  "ig_packet code ig =
    (let (prev, out) = ig_codes code (ig_prevCode ig) []
     in ig\<lparr>ig_prevCode := prev, ig_buffer := fold fifo_push out (ig_buffer ig), ig_ub := ig_ub ig \<or> length out > 8\<rparr>)"

text \<open>
  What \<open>iguanaReadResponse\<close> came to, each with \<open>recvDone\<close> when it returned. Time-outs and errors are waited out
  until the plugin is told to stop.
\<close>

datatype ig_response = Ig_none | Ig_error | Ig_other | Ig_recv "lirc_t list"

fun ig_loop :: "(ig_response \<times> bool) list \<Rightarrow> iguana \<Rightarrow> iguana" where
  "ig_loop [] ig = ig"
| "ig_loop ((response, recvDone) # rs) ig =
    (let ig = (case response of Ig_recv code \<Rightarrow> ig_packet code ig | _ \<Rightarrow> ig)
     in if recvDone then ig else ig_loop rs ig)"

definition iguana_init :: "fifo \<Rightarrow> iguana" where
  "iguana_init f = \<lparr>ig_buffer = f\<lparr>bufferStart := 0, bufferEnd := 0\<rparr>, ig_prevCode = - 1, ig_currentCarrier = - 1,
     ig_requests = [], ig_ub = False\<rparr>"

subsection \<open>Sending\<close>

text \<open>The daemon's answers to the requests are the arguments of type \<^typ>\<open>bool\<close>.\<close>

definition htonl :: "int \<Rightarrow> int" where
  "htonl x = (x mod 256) * 2 ^ 24 + (x div 256 mod 256) * 2 ^ 16 + (x div 2 ^ 16 mod 256) * 256 + x div 2 ^ 24 mod 256"

definition ig_request :: "int \<Rightarrow> int list \<Rightarrow> iguana \<Rightarrow> iguana" where
  "ig_request code data ig = ig\<lparr>ig_requests := ig_requests ig @ [(code, data)]\<rparr>"

definition ig_setTransmitters :: "bool \<Rightarrow> int \<Rightarrow> iguana \<Rightarrow> bool \<times> iguana" where
  "ig_setTransmitters answer channels ig = (answer, ig_request IG_DEV_SETCHANNELS [if channels > 15 then 15 else channels] ig)"

definition ig_set_carrier :: "bool \<Rightarrow> int \<Rightarrow> iguana \<Rightarrow> iguana" where
  "ig_set_carrier answer freq ig =
    (if freq \<noteq> u32 (ig_currentCarrier ig) \<and> freq \<ge> 25000 \<and> freq \<le> 100000
     then (let ig = ig_request IG_DEV_SETCARRIER [htonl freq] ig in if answer then ig\<lparr>ig_currentCarrier := freq\<rparr> else ig)
     else ig)"

definition ig_word :: "lirc_t \<Rightarrow> int" where
  "ig_word x = (let w = x AND PULSE_MASK in if x AND PULSE_BIT \<noteq> 0 then w OR IG_PULSE_BIT else w)"

definition ig_send :: "int \<Rightarrow> bool \<Rightarrow> bool \<Rightarrow> tx \<Rightarrow> iguana \<Rightarrow> (bool \<times> tx \<times> iguana) option" where
  "ig_send repeats carrier_answer send_answer t ig =
    (let ig = ig_set_carrier carrier_answer (r_freq (tx_remote t)) ig
     in case init_send repeats t of
          None \<Rightarrow> None
        | Some (ok, t') \<Rightarrow>
            if \<not> ok then Some (False, t', ig)
            else Some (send_answer, t', ig_request IG_DEV_SEND (map ig_word (take (nat (sb_wptr t')) (sb_data t'))) ig))"

subsection \<open>Correctness\<close>

text \<open>The words of a signal whose durations arrive in pieces, from the given level on.\<close>

definition leveled :: "bool \<Rightarrow> lirc_t \<Rightarrow> lirc_t" where
  "leveled p d = (if p then flag_pulse d else d)"

fun pieces_words :: "bool \<Rightarrow> lirc_t list list \<Rightarrow> lirc_t list" where
  "pieces_words p [] = []"
| "pieces_words p (ps # pss) = map (leveled p) ps @ pieces_words (\<not> p) pss"

definition pieces_ok :: "lirc_t list \<Rightarrow> bool" where
  "pieces_ok ps \<longleftrightarrow> ps \<noteq> [] \<and> list_all (\<lambda>d. 0 \<le> d) ps \<and> sum_list ps \<le> PULSE_MASK"

definition received :: "(ig_response \<times> bool) list \<Rightarrow> lirc_t list" where
  "received rs = concat (map (\<lambda>(r, _). case r of Ig_recv code \<Rightarrow> code | _ \<Rightarrow> []) rs)"

lemma leveled_parts:
  assumes "0 \<le> d" "d \<le> PULSE_MASK"
  shows "leveled p d AND PULSE_MASK = d" "leveled p d AND PULSE_BIT \<noteq> 0 \<longleftrightarrow> p" "leveled p d \<noteq> - 1"
    "leveled p d = (if p then d + PULSE_BIT else d)"
proof -
  have d: "d AND PULSE_MASK = d" "d AND PULSE_BIT = 0"
    using assms lasting_take [of d] lasting_bit [of d] by (cases "d = 0"; simp add: lasting_def)+
  then show "leveled p d AND PULSE_MASK = d" "leveled p d AND PULSE_BIT \<noteq> 0 \<longleftrightarrow> p"
    by (simp_all add: leveled_def flag_pulse_def bit.conj_disj_distrib2)
  show eq: "leveled p d = (if p then d + PULSE_BIT else d)"
    using d(2) by (simp add: leveled_def flag_pulse_def disjunctive_add_eq_or)
  show "leveled p d \<noteq> - 1" using assms by (simp add: eq)
qed

lemma ig_sample_leveled: "0 \<le> d \<Longrightarrow> d \<le> PULSE_MASK \<Longrightarrow> ig_sample (leveled p d) = leveled p d"
  using leveled_parts(1,2) [of d p] by (simp add: ig_sample_def leveled_def flag_pulse_def)

lemma ig_extend_leveled:
  assumes "0 \<le> d" "0 \<le> e" "d + e \<le> PULSE_MASK"
  shows "ig_extend (leveled p d) (leveled p e) = leveled p (d + e)"
  using assms leveled_parts(1,4) [of d p] leveled_parts(1,4) [of e p] leveled_parts(4) [of "d + e" p]
  by (simp add: ig_extend_def add32_def i32_id in32_def)

lemma ig_same_level_leveled:
  assumes "0 \<le> d" "d \<le> PULSE_MASK" "0 \<le> e" "e \<le> PULSE_MASK"
  shows "ig_same_level (leveled p d) (leveled q e) \<longleftrightarrow> p = q"
  using leveled_parts(2) [of d p] leveled_parts(2) [of e q] assms by (auto simp: ig_same_level_def)

lemma ig_codes_pieces:
  assumes "0 \<le> d" "list_all (\<lambda>e. 0 \<le> e) ps" "d + sum_list ps \<le> PULSE_MASK"
  shows "ig_codes (map (leveled p) ps @ ws) (leveled p d) out = ig_codes ws (leveled p (d + sum_list ps)) out"
  using assms
proof (induction ps arbitrary: d)
  case (Cons e ps)
  have "0 \<le> sum_list ps" using Cons.prems(2) by (intro sum_list_nonneg) (simp add: list_all_iff)
  with Cons.prems have e: "0 \<le> d" "d \<le> PULSE_MASK" "0 \<le> e" "e \<le> PULSE_MASK" "d + e \<le> PULSE_MASK" by simp_all
  from Cons.IH [of "d + e"] Cons.prems e show ?case
    by (simp add: leveled_parts(3) [OF e(1,2)] ig_same_level_leveled [OF e(1-4)] ig_extend_leveled [OF e(1,3,5)] add.assoc)
qed simp

lemma ig_codes_signal:
  assumes "0 \<le> d" "d \<le> PULSE_MASK" and "list_all pieces_ok pss"
  shows "ig_codes (pieces_words (\<not> p) pss) (leveled p d) out =
    (last (marked p (d # map sum_list pss)), out @ butlast (marked p (d # map sum_list pss)))"
  using assms
proof (induction pss arbitrary: p d out)
  case (Cons ps pss)
  from Cons.prems(3) obtain e es where ps: "ps = e # es" "0 \<le> e" "list_all (\<lambda>d. 0 \<le> d) es" "e + sum_list es \<le> PULSE_MASK"
    by (cases ps) (auto simp: pieces_ok_def)
  have es: "0 \<le> sum_list es" using ps(3) by (intro sum_list_nonneg) (simp add: list_all_iff)
  with ps have e: "e \<le> PULSE_MASK" "0 \<le> e + sum_list es" by simp_all
  have "ig_codes (pieces_words (\<not> p) (ps # pss)) (leveled p d) out =
      ig_codes (pieces_words p pss) (leveled (\<not> p) (e + sum_list es)) (out @ [leveled p d])"
    using ig_same_level_leveled [OF Cons.prems(1,2) ps(2) e(1), of p "\<not> p"]
    by (simp add: ps(1) leveled_parts(3) [OF Cons.prems(1,2)] ig_sample_leveled [OF ps(2) e(1)] ig_codes_pieces [OF ps(2-4)])
  also have "\<dots> = (last (marked (\<not> p) (sum_list ps # map sum_list pss)),
      (out @ [leveled p d]) @ butlast (marked (\<not> p) (sum_list ps # map sum_list pss)))"
    using Cons.IH [of "e + sum_list es" "\<not> p" "out @ [leveled p d]"] Cons.prems(3) e(2) ps(1,4) by simp
  finally show ?case by (simp add: leveled_def)
qed (simp add: leveled_def)

lemma ig_codes_append:
  "ig_codes (ws @ vs) prev out = (let (prev', out') = ig_codes ws prev out in ig_codes vs prev' out')"
  by (induction ws prev out rule: ig_codes.induct) simp_all

lemma ig_codes_out: "ig_codes ws prev out = (fst (ig_codes ws prev []), out @ snd (ig_codes ws prev []))"
proof (induction ws arbitrary: prev out)
  case (Cons w ws)
  show ?case
    using Cons [of "ig_sample w" "out @ [prev]"] Cons [of "ig_sample w" "[prev]"] Cons [of "ig_sample w" out]
      Cons [of "ig_extend prev w" out] by simp
qed simp

lemma length_ig_codes: "length (snd (ig_codes ws prev out)) \<le> length out + length ws"
proof (induction ws prev out rule: ig_codes.induct)
  case (2 code rest prev out)
  then show ?case by (cases "prev = - 1"; cases "ig_same_level prev code"; simp)
qed simp

text \<open>Where the packets are cut does not matter, and neither do time-outs and errors.\<close>

lemma ig_loop_codes:
  assumes "list_all (\<lambda>(r, recvDone). \<not> recvDone) rs"
  shows "ig_prevCode (ig_loop rs ig) = fst (ig_codes (received rs) (ig_prevCode ig) []) \<and>
    ig_buffer (ig_loop rs ig) = fold fifo_push (snd (ig_codes (received rs) (ig_prevCode ig) [])) (ig_buffer ig)"
  using assms
proof (induction rs arbitrary: ig)
  case (Cons x rs)
  obtain r where x: "x = (r, False)" using Cons.prems by (cases x) auto
  show ?case
  proof (cases r)
    case (Ig_recv code)
    obtain prev out where c: "ig_codes code (ig_prevCode ig) [] = (prev, out)" by fastforce
    with Cons ig_codes_out [of "received rs" prev out] show ?thesis
      by (simp add: x Ig_recv received_def ig_codes_append ig_packet_def)
  qed (use Cons x in \<open>simp_all add: received_def\<close>)
qed (simp add: received_def)

lemma ig_loop_ub:
  assumes "list_all (\<lambda>(r, recvDone). length (received [(r, recvDone)]) \<le> 8) rs"
  shows "ig_ub (ig_loop rs ig) = ig_ub ig"
  using assms
proof (induction rs arbitrary: ig)
  case (Cons x rs)
  obtain r e where x: "x = (r, e)" by fastforce
  have "ig_ub (case r of Ig_recv code \<Rightarrow> ig_packet code ig | _ \<Rightarrow> ig) = ig_ub ig"
  proof (cases r)
    case (Ig_recv code)
    obtain prev out where c: "ig_codes code (ig_prevCode ig) [] = (prev, out)" by fastforce
    with Ig_recv Cons.prems length_ig_codes [of code "ig_prevCode ig" "[]"] show ?thesis
      by (simp add: x received_def ig_packet_def)
  qed simp_all
  with Cons show ?case by (simp add: x Let_def split del: if_split) (simp split: if_splits)
qed simp

text \<open>
  C31: The Iguana plugin puts a signal together. However the daemon cuts the durations into pieces and the pieces into
  packets, and whatever time-outs and errors come in between, the ring buffer gets every duration whole, pulses and
  spaces in turn, the last one held back because it may go on; packets of at most 8 words stay within the local
  buffer.
\<close>

theorem iguana_signal:
  assumes "received rs = pieces_words p pss" and "list_all pieces_ok pss" and "list_all (\<lambda>(r, recvDone). \<not> recvDone) rs"
    and "ig_prevCode ig = - 1"
  shows "ig_buffer (ig_loop rs ig) = fold fifo_push (butlast (marked p (map sum_list pss))) (ig_buffer ig) \<and>
    (list_all (\<lambda>(r, recvDone). length (received [(r, recvDone)]) \<le> 8) rs \<longrightarrow> ig_ub (ig_loop rs ig) = ig_ub ig)"
proof -
  have "snd (ig_codes (pieces_words p pss) (- 1) []) = butlast (marked p (map sum_list pss))"
  proof (cases pss)
    case (Cons ps qss)
    from assms(2) Cons obtain e es where ps: "ps = e # es" "0 \<le> e" "list_all (\<lambda>d. 0 \<le> d) es" "e + sum_list es \<le> PULSE_MASK"
      by (cases ps) (auto simp: pieces_ok_def)
    have "0 \<le> sum_list es" using ps(3) by (intro sum_list_nonneg) (simp add: list_all_iff)
    with ps have e: "e \<le> PULSE_MASK" "0 \<le> e + sum_list es" by simp_all
    with ig_codes_signal [of "e + sum_list es" qss p "[]"] assms(2) Cons ps(4) show ?thesis
      by (simp add: ps(1) ig_sample_leveled [OF ps(2) e(1)] ig_codes_pieces [OF ps(2-4)])
  qed simp
  with ig_loop_codes [OF assms(3), of ig] assms(1,4) ig_loop_ub [of rs ig] show ?thesis by simp
qed

theorem iguana_signal_witness:
  "ig_buffer (ig_loop [(Ig_recv [0x1000000 OR 9000, 4000], False), (Ig_none, False), (Ig_recv [500, 0x1000000 OR 560, 560], False)]
      (iguana_init fifo_init)) = fold fifo_push [flag_pulse 9000, 4500, flag_pulse 560] fifo_init"
proof -
  let ?rs = "[(Ig_recv [0x1000000 OR 9000, 4000], False), (Ig_none, False), (Ig_recv [500, 0x1000000 OR 560, 560], False)]"
  let ?pss = "[[9000], [4000, 500], [560], [560]]"
  have "received ?rs = pieces_words True ?pss" "list_all pieces_ok ?pss" by code_simp+
  moreover have "butlast (marked True (map sum_list ?pss)) = [flag_pulse 9000, 4500, flag_pulse 560]" by simp
  moreover have "ig_buffer (iguana_init fifo_init) = fifo_init" by (simp add: iguana_init_def fifo_init_def)
  ultimately show ?thesis
    using iguana_signal [of ?rs True ?pss "iguana_init fifo_init"] by (simp add: iguana_init_def)
qed

text \<open>
  C39: The Iguana plugin sends no pulse. For a remote and a button that \<open>init_send\<close> and the decoder are proved to agree
  on, the plugin hands every duration of the signal to the daemon as a space: it looks for \<open>PULSE_BIT\<close> in the send
  buffer, and \<open>init_send\<close> never sets it.
\<close>

theorem iguana_sends_spaces:
  assumes "sendable (tx_remote t) (tx_code t)" and "timings_ok (tx_remote t)" and "r_min_repeat (tx_remote t) \<le> 0"
    and "lasting (signal_gap (tx_remote t) (n_code (tx_code t)))" and "length (sb_data t) = 2048"
  shows "\<exists>t' ig'. ig_send 0 a b t ig = Some (b, t', ig') \<and>
    last (ig_requests ig') =
      (IG_DEV_SEND, plain_signal (tx_remote t) (n_code (tx_code t)) @ [signal_gap (tx_remote t) (n_code (tx_code t))]) \<and>
    (\<forall>w \<in> set (snd (last (ig_requests ig'))). w AND IG_PULSE_BIT = 0)"
proof -
  let ?rem = "tx_remote t" and ?c = "n_code (tx_code t)"
  obtain t' where t': "init_send 0 t = Some (True, t')" "take (nat (sb_wptr t')) (sb_data t') = plain_signal ?rem ?c @ [signal_gap ?rem ?c]"
    using plain_send [OF assms(1,3,5)] by blast
  let ?ds = "plain_signal ?rem ?c @ [signal_gap ?rem ?c]"
  have "lasting d" if "d \<in> set ?ds" for d
    using that assms(2,4) by (auto simp: plain_signal_def cells_def cell_def timings_ok_def split: if_splits)
  then have las: "\<forall>d \<in> set ?ds. d AND PULSE_MASK = d \<and> d AND PULSE_BIT = 0" using lasting_take lasting_bit by blast
  then have "map ig_word ?ds = ?ds" by (intro map_idI) (auto simp: ig_word_def Let_def)
  with t' have "ig_send 0 a b t ig = Some (b, t', ig_request IG_DEV_SEND ?ds (ig_set_carrier a (r_freq ?rem) ig))"
    by (simp add: ig_send_def)
  moreover have "ig_requests (ig_request c ds i) = ig_requests i @ [(c, ds)]" for c ds i by (simp add: ig_request_def)
  ultimately show ?thesis using las by simp
qed

theorem iguana_sends_spaces_witness:
  "\<exists>t' ig'. ig_send 0 True True sample_tx (iguana_init fifo_init) = Some (True, t', ig') \<and>
    last (ig_requests ig') =
      (IG_DEV_SEND, plain_signal (tx_remote sample_tx) (n_code (tx_code sample_tx)) @
        [signal_gap (tx_remote sample_tx) (n_code (tx_code sample_tx))]) \<and>
    (\<forall>w \<in> set (snd (last (ig_requests ig'))). w AND IG_PULSE_BIT = 0)"
proof -
  have t: "tx_remote sample_tx = nec_remote" "tx_code sample_tx = nec_codes ! 0" "length (sb_data sample_tx) = 2048"
    by (simp_all add: idle_tx_def)
  have nec: "timings_ok nec_remote" "lasting (signal_gap nec_remote (n_code (nec_codes ! 0)))" "r_min_repeat nec_remote \<le> 0"
    by code_simp+
  show ?thesis by (rule iguana_sends_spaces) (simp_all only: t nec nec_sendable)
qed

end
