(* ===== verification/Serial.thy ===== *)
theory Serial
  imports RoundTrip
begin

text \<open>
  The plugin for receivers at a serial port, \<open>DLL/Serial/irdriver.cpp\<close>. A receiver at the DCD pin changes the
  level of the pin, a receiver at the RX pin makes the port receive a byte at each pulse. The time of an event is read
  from two clocks, the high-resolution counter and the seconds. The ring buffer is that of the other plugins.
\<close>

text \<open>The time that was read last is \<open>sr_lr\<close> in seconds and \<open>sr_hr\<close> on the counter.\<close>

record serial =
  sr_buffer :: fifo
  sr_devicetype :: bool
  sr_virtpulse :: int
  sr_prev :: int
  sr_sense :: int
  sr_hr :: int
  sr_lr :: int

definition sr_setData :: "lirc_t \<Rightarrow> serial \<Rightarrow> serial" where
  "sr_setData data s = s\<lparr>sr_buffer := fifo_push data (sr_buffer s)\<rparr>"

text \<open>The sense of the receiver: what the pin says when it is idle, unless the settings give it.\<close>

definition initial_sense :: "int \<Rightarrow> int \<Rightarrow> int" where
  "initial_sense setting dcd = (if setting = - 1 then dcd else setting)"

definition serial_start :: "fifo \<Rightarrow> bool \<Rightarrow> int \<Rightarrow> int \<Rightarrow> int \<Rightarrow> int \<Rightarrow> int \<Rightarrow> int \<Rightarrow> serial" where
  "serial_start f devicetype virtpulse setting settled dcd hr lr =
    \<lparr>sr_buffer = f\<lparr>bufferStart := 0, bufferEnd := 0\<rparr>, sr_devicetype = devicetype, sr_virtpulse = virtpulse, sr_prev = dcd,
      sr_sense = initial_sense setting settled, sr_hr = hr, sr_lr = lr\<rparr>"

definition counted_usecs :: "int \<Rightarrow> int \<Rightarrow> int \<Rightarrow> int" where
  "counted_usecs freq now last_time = i32 (quot (i64 ((now - last_time) * 1000000)) freq)"

text \<open>After more than 15 seconds the level must be the start of a pulse, so the sense is corrected.\<close>

definition dcd_event :: "int \<Rightarrow> int \<Rightarrow> int \<Rightarrow> int \<Rightarrow> serial \<Rightarrow> serial" where
  "dcd_event freq dcd hr lr s =
    (if dcd = sr_prev s then s
     else
       (let long_pause = i32 (lr - sr_lr s) > 15;
            deltv = (if long_pause then 0xFFFFFF else counted_usecs freq hr (sr_hr s));
            sense = (if long_pause \<and> dcd XOR sr_sense s = 0 then (if sr_sense s \<noteq> 0 then 0 else 1) else sr_sense s);
            s = s\<lparr>sr_prev := dcd, sr_sense := sense, sr_hr := hr, sr_lr := lr\<rparr>
        in sr_setData (if dcd XOR sense \<noteq> 0 then deltv else deltv OR 0x1000000) s))"

definition rx_event :: "int \<Rightarrow> int \<Rightarrow> int \<Rightarrow> serial \<Rightarrow> serial" where
  "rx_event freq hr lr s =
    (let deltv = counted_usecs freq hr (sr_hr s); s = s\<lparr>sr_hr := hr, sr_lr := lr\<rparr>
     in sr_setData (sr_virtpulse s OR 0x1000000) (sr_setData (sub32 deltv 100) s))"

text \<open>
  What the wait of the thread came to, with the level of the pin and the clocks: an event, the request to end, or
  something else, which is passed over.
\<close>

datatype serial_wait = Port_event int int int | Thread_event | Wait_failed

fun serial_thread :: "int \<Rightarrow> serial_wait list \<Rightarrow> serial \<Rightarrow> serial" where
  "serial_thread freq [] s = s"
| "serial_thread freq (w # ws) s =
    (case w of
       Thread_event \<Rightarrow> s
     | Wait_failed \<Rightarrow> serial_thread freq ws s
     | Port_event dcd hr lr \<Rightarrow> serial_thread freq ws (if sr_devicetype s then dcd_event freq dcd hr lr s else rx_event freq hr lr s))"

subsection \<open>Correctness\<close>

text \<open>
  The events of a signal on the pin: after each duration, of less than 16 seconds by either clock, the level changes.
\<close>

fun pin_events :: "int \<Rightarrow> int \<Rightarrow> int \<Rightarrow> (int \<times> int) list \<Rightarrow> serial_wait list" where
  "pin_events dcd hr lr [] = []"
| "pin_events dcd hr lr ((dh, dl) # ds) = Port_event (1 - dcd) (hr + dh) (lr + dl) # pin_events (1 - dcd) (hr + dh) (lr + dl) ds"

definition steady :: "int \<Rightarrow> int \<times> int \<Rightarrow> bool" where
  "steady freq d \<longleftrightarrow> (case d of (dh, dl) \<Rightarrow> 0 \<le> dh \<and> dh * 1000000 \<le> PULSE_MASK * freq \<and> 0 \<le> dl \<and> dl \<le> 15)"

definition tick_usecs :: "int \<Rightarrow> int \<Rightarrow> lirc_t" where
  "tick_usecs freq dh = dh * 1000000 div freq"

lemma tick_usecs:
  assumes "0 \<le> dh" "dh * 1000000 \<le> PULSE_MASK * freq" "0 < freq" "freq < 2 ^ 32"
  shows "counted_usecs freq (hr + dh) hr = tick_usecs freq dh" and "0 \<le> tick_usecs freq dh" and "tick_usecs freq dh \<le> PULSE_MASK"
proof -
  have "dh * 1000000 div freq \<le> PULSE_MASK * freq div freq" using assms(2,3) by (intro zdiv_mono1)
  with assms show t: "0 \<le> tick_usecs freq dh" "tick_usecs freq dh \<le> PULSE_MASK" by (simp_all add: tick_usecs_def pos_imp_zdiv_nonneg_iff)
  have "dh * 1000000 < 2 ^ 63" using assms(2,4) by simp
  with assms(1,3) have "counted_usecs freq (hr + dh) hr = i32 (tick_usecs freq dh)"
    by (simp add: counted_usecs_def tick_usecs_def i64_id quot_nonneg)
  also have "\<dots> = tick_usecs freq dh" using t by (intro i32_id) (simp add: in32_def)
  finally show "counted_usecs freq (hr + dh) hr = tick_usecs freq dh" .
qed

lemma level_bits: "dcd \<in> {0, 1 :: int} \<Longrightarrow> sense \<in> {0, 1} \<Longrightarrow> dcd XOR sense = (if dcd = sense then 0 else 1)"
  by auto

lemma serial_pin_signal:
  assumes "list_all (steady freq) ds" "0 < freq" "freq < 2 ^ 32" and "sr_devicetype s" "sr_prev s \<in> {0, 1}" "sr_sense s \<in> {0, 1}"
  shows "sr_buffer (serial_thread freq (pin_events (sr_prev s) (sr_hr s) (sr_lr s) ds) s) =
    fold fifo_push (marked (sr_prev s \<noteq> sr_sense s) (map (\<lambda>(dh, dl). tick_usecs freq dh) ds)) (sr_buffer s)"
  using assms(1,4-)
proof (induction ds arbitrary: s)
  case (Cons d ds)
  obtain dh dl where d: "d = (dh, dl)" by fastforce
  then have st: "0 \<le> dh" "dh * 1000000 \<le> PULSE_MASK * freq" "0 \<le> dl" "dl \<le> 15" using Cons.prems(1) by (simp_all add: steady_def)
  note t = tick_usecs [OF st(1,2) assms(2,3)]
  let ?dcd = "1 - sr_prev s" and ?t = "tick_usecs freq dh"
  let ?s = "s\<lparr>sr_prev := ?dcd, sr_hr := sr_hr s + dh, sr_lr := sr_lr s + dl,
    sr_buffer := fifo_push (if sr_prev s \<noteq> sr_sense s then flag_pulse ?t else ?t) (sr_buffer s)\<rparr>"
  have dcd: "?dcd \<in> {0, 1}" "?dcd \<noteq> sr_prev s" "?dcd = sr_sense s \<longleftrightarrow> sr_prev s \<noteq> sr_sense s" using Cons.prems(3,4) by (cases "sr_prev s = 0"; cases "sr_sense s = 0"; simp)+
  have "i32 dl = dl" using st(3,4) by (intro i32_id) (simp add: in32_def)
  with st(4) have "dcd_event freq ?dcd (sr_hr s + dh) (sr_lr s + dl) s = ?s"
    using dcd(2,3) level_bits [OF dcd(1) Cons.prems(4)]
    by (simp add: dcd_event_def t(1) sr_setData_def flag_pulse_def Let_def)
  then show ?case using Cons.IH [of ?s] Cons.prems dcd(1,3) by (simp add: d dcd(3))
qed simp

text \<open>
  C29: The serial plugin delivers the signal whatever it believes the idle level to be. When the level changes after more
  than 15 seconds, that is taken for the start of a pulse and the sense is set right; then the pause, and every
  pulse and every space in its order, each to the microsecond of the counter, are in the ring buffer.
\<close>

theorem serial_signal:
  assumes "sr_devicetype s" and "sr_prev s \<in> {0, 1}" "sr_sense s \<in> {0, 1}" and "15 < lr - sr_lr s" "lr - sr_lr s < 2 ^ 31"
    and "list_all (steady freq) ds" and "0 < freq" "freq < 2 ^ 32"
  shows "sr_buffer (serial_thread freq (Port_event (1 - sr_prev s) hr lr # pin_events (1 - sr_prev s) hr lr ds) s) =
    fold fifo_push (PULSE_MASK # marked True (map (\<lambda>(dh, dl). tick_usecs freq dh) ds)) (sr_buffer s)"
proof -
  let ?dcd = "1 - sr_prev s"
  have dcd: "?dcd \<in> {0, 1}" "?dcd \<noteq> sr_prev s" using assms(2) by (cases "sr_prev s = 0"; simp)+
  let ?s = "s\<lparr>sr_prev := ?dcd, sr_sense := 1 - ?dcd, sr_hr := hr, sr_lr := lr, sr_buffer := fifo_push PULSE_MASK (sr_buffer s)\<rparr>"
  have "i32 (lr - sr_lr s) = lr - sr_lr s" using assms(4,5) by (intro i32_id) (simp add: in32_def)
  then have "dcd_event freq ?dcd hr lr s = ?s"
    using assms(2-4) by (cases "sr_prev s = 0"; cases "sr_sense s = 0"; simp add: dcd_event_def sr_setData_def Let_def)
  moreover have "?dcd \<noteq> 1 - ?dcd" "1 - ?dcd \<in> {0, 1}" using assms(2) by (cases "sr_prev s = 0"; simp)+
  ultimately show ?thesis using serial_pin_signal [OF assms(6-8), of ?s] assms(1) dcd(1) by simp
qed

theorem serial_signal_witness:
  "sr_buffer (serial_thread 1193180 (Port_event 1 30000000 25 # pin_events 1 30000000 25 [(10738, 0), (5369, 0), (668, 1)])
      (serial_start fifo_init True 100 1 1 0 0 0)) =
    fold fifo_push [PULSE_MASK, flag_pulse 8999, 4499, flag_pulse 559] fifo_init"
proof -
  let ?s = "serial_start fifo_init True 100 1 1 0 0 0"
  have s: "sr_devicetype ?s" "sr_prev ?s = 0" "sr_sense ?s = 1" "sr_lr ?s = 0" "sr_buffer ?s = fifo_init"
    by (simp_all add: serial_start_def initial_sense_def fifo_init_def)
  have "list_all (steady 1193180) [(10738, 0), (5369, 0), (668, 1)]" by code_simp
  moreover have "PULSE_MASK # marked True (map (\<lambda>(dh, dl). tick_usecs 1193180 dh) [(10738, 0), (5369, 0), (668, 1)]) =
      [PULSE_MASK, flag_pulse 8999, 4499, flag_pulse 559]"
    by (simp add: tick_usecs_def)
  ultimately show ?thesis
    using serial_signal [of ?s 25 1193180 "[(10738, 0), (5369, 0), (668, 1)]" 30000000] s by simp
qed

end
