(* ===== verification/SerialSend.thy ===== *)
theory SerialSend
  imports RoundTrip
begin

text \<open>
  Sending at a serial port, \<open>DLL/Serial/Transmit.cpp\<close>: the light is switched with the DTR pin or with the break of
  the TX pin, and the carrier is made by the transmitter or by the program, pulse for pulse of the carrier or with
  the bytes of a pattern. What is done to the port is recorded, with the time that the busy wait reaches in between.
\<close>

abbreviation (input) HARDCARRIER :: int where "HARDCARRIER \<equiv> 0x0001"
abbreviation (input) TXTRANSMITTER :: int where "TXTRANSMITTER \<equiv> 0x0002"
abbreviation (input) INVERTED :: int where "INVERTED \<equiv> 0x0004"
abbreviation (input) MAXPULSEBYTES :: nat where "MAXPULSEBYTES \<equiv> 256"

datatype port_op = Dtr bool | Break bool | Wait_until int | Write_bytes "int list" | Set_byte_size int | Close_port
  | Priority_class int | Thread_priority int

record sender =
  tr_type :: int
  tr_freq :: int
  tr_lasttime :: int
  tr_pulse_width :: int
  tr_space_width :: int
  tr_pulse_byte_length :: int
  tr_pulsedata :: "int list"
  tr_log :: "port_op list"
  tr_ub :: bool

definition sender_init :: sender where
  "sender_init = \<lparr>tr_type = 0, tr_freq = 0, tr_lasttime = 0, tr_pulse_width = 13, tr_space_width = 13,
     tr_pulse_byte_length = 78, tr_pulsedata = replicate MAXPULSEBYTES 0, tr_log = [], tr_ub = False\<rparr>"

definition port_ops :: "port_op list \<Rightarrow> sender \<Rightarrow> sender" where
  "port_ops ops t = t\<lparr>tr_log := tr_log t @ ops\<rparr>"

subsection \<open>Switching the light\<close>

text \<open>\<open>type%4\<close> chooses the pin and the carrier; an inverted transmitter has on and off exchanged.\<close>

definition pin_ops :: "bool \<Rightarrow> int \<Rightarrow> port_op list" where
  "pin_ops b kind = (if kind = 3 then [Break b] else if kind = 2 then [] else [Dtr b])"

definition light_ops :: "bool \<Rightarrow> int \<Rightarrow> port_op list" where
  "light_ops b type = pin_ops (if type AND INVERTED \<noteq> 0 then \<not> b else b) (type mod 4)"

definition light :: "bool \<Rightarrow> sender \<Rightarrow> sender" where
  "light b t = port_ops (light_ops b (tr_type t)) t"

definition SetTransmitPort :: "int \<Rightarrow> sender \<Rightarrow> sender" where
  "SetTransmitPort type t = light False (t\<lparr>tr_type := type\<rparr>)"

subsection \<open>Time\<close>

definition tr_ticks :: "int \<Rightarrow> sender \<Rightarrow> int" where
  "tr_ticks usecs t = quot (i64 (usecs * tr_freq t)) 1000000"

definition init_timer :: "int \<Rightarrow> int \<Rightarrow> sender \<Rightarrow> sender" where
  "init_timer freq now t = t\<lparr>tr_freq := freq, tr_lasttime := now\<rparr>"

definition uwait :: "int \<Rightarrow> sender \<Rightarrow> sender" where
  "uwait usecs t =
    (let end_time = i64 (tr_lasttime t + tr_ticks usecs t) in port_ops [Wait_until end_time] (t\<lparr>tr_lasttime := end_time\<rparr>))"

subsection \<open>Pulses and spaces\<close>

definition soft_period :: "sender \<Rightarrow> sender" where
  "soft_period t =
    (let t = light False (uwait (tr_pulse_width t) (light True t)) in uwait (tr_space_width t) t)"

partial_function (option) soft_loop :: "int \<Rightarrow> sender \<Rightarrow> sender option" where
  "soft_loop end_time t =
    (let t = soft_period t in if tr_lasttime t < end_time then soft_loop end_time t else Some t)"

definition send_pulse_dtr_soft :: "int \<Rightarrow> sender \<Rightarrow> sender option" where
  "send_pulse_dtr_soft usecs t = soft_loop (i64 (tr_lasttime t + tr_ticks usecs t)) t"

definition send_space_hard_or_dtr :: "int \<Rightarrow> sender \<Rightarrow> sender" where
  "send_space_hard_or_dtr len t = (if len = 0 then t else uwait len (light False t))"

definition send_pulse_hard :: "int \<Rightarrow> sender \<Rightarrow> sender" where
  "send_pulse_hard len t = (if len = 0 then t else uwait len (light True t))"

text \<open>The pattern is an array of \<open>int\<close>, of which the bytes are written, least significant first.\<close>

definition int_bytes :: "int \<Rightarrow> int list" where
  "int_bytes x = [x mod 256, x div 256 mod 256, x div 2 ^ 16 mod 256, x div 2 ^ 24 mod 256]"

definition send_pulse_tx_soft :: "int \<Rightarrow> sender \<Rightarrow> sender" where
  "send_pulse_tx_soft usecs t =
    (let n = nat (usecs div tr_pulse_byte_length t); bytes = concat (map int_bytes (tr_pulsedata t))
     in port_ops [Write_bytes (take n bytes)]
       (t\<lparr>tr_lasttime := i64 (tr_lasttime t + tr_ticks usecs t), tr_ub := tr_ub t \<or> n > length bytes\<rparr>))"

definition send_space_tx_soft :: "int \<Rightarrow> sender \<Rightarrow> sender" where
  "send_space_tx_soft len t = (if len = 0 then t else uwait len t)"

definition serial_send_pulse :: "int \<Rightarrow> sender \<Rightarrow> sender option" where
  "serial_send_pulse len t =
    (let kind = tr_type t mod 4
     in if kind = 0 then send_pulse_dtr_soft len t
        else if kind = 2 then Some (send_pulse_tx_soft len t) else Some (send_pulse_hard len t))"

definition serial_send_space :: "int \<Rightarrow> sender \<Rightarrow> sender" where
  "serial_send_space len t =
    (if tr_type t mod 4 = 2 then send_space_tx_soft len t else send_space_hard_or_dtr len t)"

subsection \<open>The transmission\<close>

text \<open>The answers of the port to \<open>GetCommState\<close> and \<open>SetCommState\<close> are arguments.\<close>

definition tx_pattern :: "ir_remote \<Rightarrow> int" where
  "tx_pattern rem = (if r_freq rem \<ge> 48000 then 0x55 else if r_duty_cycle rem < 50 then 0x5b else 0x12)"

definition config_transmitter :: "bool \<Rightarrow> bool \<Rightarrow> ir_remote \<Rightarrow> sender \<Rightarrow> ir_remote \<times> sender" where
  "config_transmitter got set_ok rem t =
    (let rem = (if r_freq rem = 0 then rem\<lparr>r_freq := 38000\<rparr> else rem);
         rem = (if r_duty_cycle rem = 0 then rem\<lparr>r_duty_cycle := 50\<rparr> else rem);
         pulse_width = u32 (r_duty_cycle rem * 10000) div r_freq rem;
         t = t\<lparr>tr_pulse_width := pulse_width, tr_space_width := u32 (1000000 div r_freq rem - pulse_width)\<rparr>
     in if tr_type t \<noteq> TXTRANSMITTER then (rem, t)
        else if \<not> got then (rem, port_ops [Close_port] t)
        else (let low = r_freq rem < 48000;
                  t = t\<lparr>tr_pulse_byte_length := if low then 78 else 87, tr_pulsedata := replicate MAXPULSEBYTES (tx_pattern rem)\<rparr>
              in (rem, port_ops (if set_ok then [Set_byte_size (if low then 7 else 8)] else [Close_port]) t)))"

fun serial_signals :: "bool \<Rightarrow> lirc_t list \<Rightarrow> sender \<Rightarrow> sender option" where
  "serial_signals pulse [] t = Some t"
| "serial_signals pulse (x # xs) t =
    (if pulse then Option.bind (serial_send_pulse (u32 x) t) (serial_signals False xs)
     else serial_signals True xs (serial_send_space (u32 x) t))"

text \<open>
  \<open>process\<close> and \<open>thread\<close> are the priorities that are found; \<open>freq\<close> and \<open>now\<close> are what the timer answers. The
  variables for the two priorities are exchanged where they are read.
\<close>

definition REALTIME_PRIORITY_CLASS :: int where "REALTIME_PRIORITY_CLASS = 0x100"
definition THREAD_PRIORITY_TIME_CRITICAL :: int where "THREAD_PRIORITY_TIME_CRITICAL = 15"

definition Transmit :: "bool \<Rightarrow> bool \<Rightarrow> int \<Rightarrow> int \<Rightarrow> int \<Rightarrow> int \<Rightarrow> int \<Rightarrow> tx \<Rightarrow> sender \<Rightarrow> (bool \<times> tx \<times> sender) option" where
  "Transmit got set_ok process thread freq now repeats s t =
    (let mythreadpriority = process; mypriorityclass = thread;
         (rem, t) = config_transmitter got set_ok (tx_remote s) t;
         t = port_ops [Priority_class REALTIME_PRIORITY_CLASS, Thread_priority THREAD_PRIORITY_TIME_CRITICAL] t;
         t = init_timer freq now t
     in case init_send repeats (s\<lparr>tx_remote := rem\<rparr>) of
          None \<Rightarrow> None
        | Some (ok, s') \<Rightarrow>
            map_option (\<lambda>t. (ok, s', port_ops [Priority_class mypriorityclass, Thread_priority mythreadpriority] t))
              (if ok then serial_signals True (take (nat (sb_wptr s')) (sb_data s')) t else Some t))"

subsection \<open>Correctness\<close>

text \<open>A counter that is neither too fast nor near its end.\<close>

definition timer_ok :: "sender \<Rightarrow> bool" where
  "timer_ok t \<longleftrightarrow> 0 < tr_freq t \<and> tr_freq t \<le> 2 ^ 30 \<and> 0 \<le> tr_lasttime t"

lemma tr_ticks_bounds:
  assumes "timer_ok t" "0 \<le> u" "u < 2 ^ 32"
  shows "tr_ticks u t = u * tr_freq t div 1000000" and "0 \<le> tr_ticks u t" and "tr_ticks u t < 2 ^ 43"
    and "tr_ticks u t * 1000000 \<le> u * tr_freq t" and "u * tr_freq t < tr_ticks u t * 1000000 + 1000000"
proof -
  have "0 \<le> u * tr_freq t" using assms by (simp add: timer_ok_def)
  moreover have le: "u * tr_freq t \<le> 4294967295 * 1073741824"
    using assms by (intro mult_mono) (simp_all add: timer_ok_def)
  ultimately show t: "tr_ticks u t = u * tr_freq t div 1000000" by (simp add: tr_ticks_def i64_id quot_nonneg)
  show "0 \<le> tr_ticks u t" using \<open>0 \<le> u * tr_freq t\<close> by (simp add: t)
  show "tr_ticks u t < 2 ^ 43" using le by (simp add: t)
  show "tr_ticks u t * 1000000 \<le> u * tr_freq t" "u * tr_freq t < tr_ticks u t * 1000000 + 1000000"
    unfolding t by linarith+
qed

lemma uwait_eq:
  assumes "timer_ok t" "tr_lasttime t < 2 ^ 62" "0 \<le> u" "u < 2 ^ 32"
  shows "uwait u t = t\<lparr>tr_lasttime := tr_lasttime t + tr_ticks u t, tr_log := tr_log t @ [Wait_until (tr_lasttime t + tr_ticks u t)]\<rparr>"
proof -
  have "i64 (tr_lasttime t + tr_ticks u t) = tr_lasttime t + tr_ticks u t"
    using assms(1,2) tr_ticks_bounds(2,3) [OF assms(1,3,4)] by (intro i64_id) (simp_all add: timer_ok_def)
  then show ?thesis by (simp add: uwait_def port_ops_def Let_def)
qed

lemma light_eq: "light b t = t\<lparr>tr_log := tr_log t @ light_ops b (tr_type t)\<rparr>"
  by (simp add: light_def port_ops_def)

lemma timer_ok_update [simp]:
  "timer_ok (t\<lparr>tr_log := l\<rparr>) = timer_ok t" "0 \<le> x \<Longrightarrow> timer_ok t \<Longrightarrow> timer_ok (t\<lparr>tr_lasttime := x\<rparr>)"
  "tr_ticks u (t\<lparr>tr_log := l\<rparr>) = tr_ticks u t" "tr_ticks u (t\<lparr>tr_lasttime := x\<rparr>) = tr_ticks u t"
  by (simp_all add: timer_ok_def tr_ticks_def)

paragraph \<open>The carrier made by the program\<close>

text \<open>One period of the carrier that starts at \<open>start\<close>: light for \<open>a\<close> ticks of the counter and dark for \<open>b\<close>.\<close>

definition carrier_cycle :: "int \<Rightarrow> int \<Rightarrow> int \<Rightarrow> int \<Rightarrow> port_op list" where
  "carrier_cycle type a b start =
     light_ops True type @ [Wait_until (start + a)] @ light_ops False type @ [Wait_until (start + a + b)]"

definition carrier :: "int \<Rightarrow> int \<Rightarrow> int \<Rightarrow> int \<Rightarrow> nat \<Rightarrow> port_op list" where
  "carrier type a b start n = concat (map (\<lambda>k. carrier_cycle type a b (start + int k * (a + b))) [0..<n])"

lemma carrier_Suc: "carrier type a b start (Suc n) = carrier_cycle type a b start @ carrier type a b (start + (a + b)) n"
proof -
  have "[0..<Suc n] = 0 # map Suc [0..<n]" by (simp add: map_Suc_upt upt_conv_Cons del: upt_Suc)
  then show ?thesis by (simp add: carrier_def o_def algebra_simps del: upt_Suc)
qed

definition widths_ok :: "sender \<Rightarrow> bool" where
  "widths_ok t \<longleftrightarrow> 0 \<le> tr_pulse_width t \<and> tr_pulse_width t < 2 ^ 32 \<and> 0 \<le> tr_space_width t \<and> tr_space_width t < 2 ^ 32"

lemma soft_period_eq:
  assumes "timer_ok t" "tr_lasttime t < 2 ^ 61" "widths_ok t"
  defines "a \<equiv> tr_ticks (tr_pulse_width t) t" and "b \<equiv> tr_ticks (tr_space_width t) t"
  shows "soft_period t = t\<lparr>tr_lasttime := tr_lasttime t + (a + b),
    tr_log := tr_log t @ carrier_cycle (tr_type t) a b (tr_lasttime t)\<rparr>"
proof -
  have w: "0 \<le> tr_pulse_width t" "tr_pulse_width t < 2 ^ 32" "0 \<le> tr_space_width t" "tr_space_width t < 2 ^ 32"
    using assms(3) by (simp_all add: widths_ok_def)
  let ?t1 = "light True t"
  let ?t2 = "light False (uwait (tr_pulse_width t) ?t1)"
  have t1: "uwait (tr_pulse_width t) ?t1 = t\<lparr>tr_lasttime := tr_lasttime t + a,
      tr_log := tr_log t @ light_ops True (tr_type t) @ [Wait_until (tr_lasttime t + a)]\<rparr>"
    using uwait_eq [of ?t1 "tr_pulse_width t"] assms(1,2) w by (simp add: light_eq a_def)
  have t2: "?t2 = t\<lparr>tr_lasttime := tr_lasttime t + a,
      tr_log := tr_log t @ light_ops True (tr_type t) @ [Wait_until (tr_lasttime t + a)] @ light_ops False (tr_type t)\<rparr>"
    unfolding t1 by (simp add: light_eq)
  have a: "0 \<le> a" "a < 2 ^ 43" using tr_ticks_bounds(2,3) [OF assms(1) w(1,2)] by (simp_all add: a_def)
  have "0 \<le> tr_lasttime t" using assms(1) by (simp add: timer_ok_def)
  then have "timer_ok ?t2" "tr_lasttime ?t2 < 2 ^ 62" unfolding t2 using assms(1,2) a by simp_all
  from uwait_eq [OF this w(3,4)] show ?thesis
    by (simp add: soft_period_def t2 carrier_cycle_def b_def add.assoc Let_def)
qed

lemma soft_loop_carrier:
  assumes "timer_ok t" "widths_ok t" "tr_lasttime t < 2 ^ 61" "end_time < 2 ^ 61" "0 < a + b"
    and "a = tr_ticks (tr_pulse_width t) t" and "b = tr_ticks (tr_space_width t) t"
  shows "\<exists>n > 0. soft_loop end_time t = Some (t\<lparr>tr_lasttime := tr_lasttime t + int n * (a + b),
      tr_log := tr_log t @ carrier (tr_type t) a b (tr_lasttime t) n\<rparr>) \<and>
    end_time \<le> tr_lasttime t + int n * (a + b) \<and> (n = 1 \<or> tr_lasttime t + int n * (a + b) < end_time + (a + b))"
  using assms
proof (induction "nat (end_time - tr_lasttime t)" arbitrary: t rule: less_induct)
  case less
  let ?t = "t\<lparr>tr_lasttime := tr_lasttime t + (a + b), tr_log := tr_log t @ carrier_cycle (tr_type t) a b (tr_lasttime t)\<rparr>"
  have p: "soft_period t = ?t" using soft_period_eq [OF less.prems(1,3,2)] less.prems(6,7) by simp
  show ?case
  proof (cases "tr_lasttime ?t < end_time")
    case True
    have ok: "timer_ok ?t" "widths_ok ?t" "tr_lasttime ?t < 2 ^ 61"
      using less.prems(1,2,4,5) True by (simp_all add: timer_ok_def widths_ok_def)
    have "nat (end_time - tr_lasttime ?t) < nat (end_time - tr_lasttime t)" using True less.prems(5) by simp
    from less.hyps [OF this ok less.prems(4,5)] less.prems(6,7) obtain n where n: "n > 0"
      "soft_loop end_time ?t = Some (?t\<lparr>tr_lasttime := tr_lasttime ?t + int n * (a + b),
        tr_log := tr_log ?t @ carrier (tr_type t) a b (tr_lasttime ?t) n\<rparr>)"
      "end_time \<le> tr_lasttime ?t + int n * (a + b)" "n = 1 \<or> tr_lasttime ?t + int n * (a + b) < end_time + (a + b)"
      by auto
    have "soft_loop end_time t = soft_loop end_time ?t"
      using True by (subst soft_loop.simps) (simp add: p Let_def)
    with n True show ?thesis
      by (intro exI [of _ "Suc n"]) (auto simp: carrier_Suc algebra_simps)
  next
    case False
    then have "soft_loop end_time t = Some ?t" by (subst soft_loop.simps) (simp add: p Let_def)
    with False show ?thesis
      by (intro exI [of _ 1]) (simp add: carrier_def)
  qed
qed

text \<open>Without a tick of the counter in a period, time stands still.\<close>

lemma soft_loop_stuck:
  assumes "soft_loop end_time t = Some t'" and "timer_ok t" "widths_ok t" "tr_lasttime t < 2 ^ 61"
    and "tr_ticks (tr_pulse_width t) t + tr_ticks (tr_space_width t) t = 0"
  shows "end_time \<le> tr_lasttime t"
proof -
  have "timer_ok t \<longrightarrow> widths_ok t \<longrightarrow> tr_lasttime t < 2 ^ 61 \<longrightarrow>
      tr_ticks (tr_pulse_width t) t + tr_ticks (tr_space_width t) t = 0 \<longrightarrow> end_time \<le> tr_lasttime t"
    using assms(1)
  proof (rule soft_loop.raw_induct [rotated])
    fix loop :: "int \<Rightarrow> sender \<Rightarrow> sender option" and e t t'
    assume IH: "\<And>e t t'. loop e t = Some t' \<Longrightarrow> timer_ok t \<longrightarrow> widths_ok t \<longrightarrow> tr_lasttime t < 2 ^ 61 \<longrightarrow>
        tr_ticks (tr_pulse_width t) t + tr_ticks (tr_space_width t) t = 0 \<longrightarrow> e \<le> tr_lasttime t"
      and step: "(let t = soft_period t in if tr_lasttime t < e then loop e t else Some t) = Some t'"
    show "timer_ok t \<longrightarrow> widths_ok t \<longrightarrow> tr_lasttime t < 2 ^ 61 \<longrightarrow>
        tr_ticks (tr_pulse_width t) t + tr_ticks (tr_space_width t) t = 0 \<longrightarrow> e \<le> tr_lasttime t"
    proof (intro impI)
      assume ok: "timer_ok t" "widths_ok t" "tr_lasttime t < 2 ^ 61"
        and zero: "tr_ticks (tr_pulse_width t) t + tr_ticks (tr_space_width t) t = 0"
      let ?p = "t\<lparr>tr_log := tr_log t @ carrier_cycle (tr_type t) (tr_ticks (tr_pulse_width t) t)
        (tr_ticks (tr_space_width t) t) (tr_lasttime t)\<rparr>"
      have p: "soft_period t = ?p" using soft_period_eq [OF ok(1,3,2)] zero by simp
      show "e \<le> tr_lasttime t"
      proof (rule ccontr)
        assume "\<not> e \<le> tr_lasttime t"
        with step p have "loop e ?p = Some t'" by (simp add: Let_def)
        from IH [OF this] ok zero have "e \<le> tr_lasttime t" by (simp add: widths_ok_def)
        with \<open>\<not> e \<le> tr_lasttime t\<close> show False by simp
      qed
    qed
  qed
  with assms show ?thesis by simp
qed

text \<open>
  C28: The carrier that the program makes ends, and on time: a pulse returns exactly when a period of the carrier takes
  at least one tick of the counter, or the pulse takes none. Then the light is switched on and off for a whole number of
  periods, one at least, and the time afterwards is less than a period behind the end that was asked for.
\<close>

theorem serial_soft_carrier:
  assumes "timer_ok t" and "widths_ok t" and "tr_lasttime t < 2 ^ 60" and "0 \<le> usecs" "usecs < 2 ^ 32"
    and "a = tr_ticks (tr_pulse_width t) t" and "b = tr_ticks (tr_space_width t) t"
    and "end_time = tr_lasttime t + tr_ticks usecs t"
  shows "((\<exists>t'. send_pulse_dtr_soft usecs t = Some t') \<longleftrightarrow> 0 < a + b \<or> tr_ticks usecs t = 0) \<and>
    (\<forall>t'. send_pulse_dtr_soft usecs t = Some t' \<longrightarrow>
      (\<exists>n > 0. tr_log t' = tr_log t @ carrier (tr_type t) a b (tr_lasttime t) n \<and>
        tr_lasttime t' = tr_lasttime t + int n * (a + b) \<and> end_time \<le> tr_lasttime t' \<and>
        (n = 1 \<or> tr_lasttime t' < end_time + (a + b))))"
proof -
  note tk = tr_ticks_bounds(2,3) [OF assms(1,4,5)]
  have w: "0 \<le> a" "0 \<le> b" using assms(1,2,6,7) tr_ticks_bounds(2) by (simp_all add: widths_ok_def)
  have "0 \<le> tr_lasttime t" using assms(1) by (simp add: timer_ok_def)
  then have e: "end_time < 2 ^ 61" "send_pulse_dtr_soft usecs t = soft_loop end_time t"
    using tk assms(3) by (simp_all add: assms(8) send_pulse_dtr_soft_def i64_id)
  have last: "tr_lasttime t < 2 ^ 61" using assms(3) by simp
  show ?thesis
  proof (cases "0 < a + b")
    case True
    with soft_loop_carrier [OF assms(1,2) last e(1) True assms(6,7)] e(2) show ?thesis by auto
  next
    case False
    then have zero: "a = 0" "b = 0" using w by simp_all
    then have p: "soft_period t = t\<lparr>tr_log := tr_log t @ carrier_cycle (tr_type t) 0 0 (tr_lasttime t)\<rparr>"
      using soft_period_eq [OF assms(1) last assms(2)] assms(6,7) by simp
    show ?thesis
    proof (cases "tr_ticks usecs t = 0")
      case True
      then have "soft_loop end_time t = Some (t\<lparr>tr_log := tr_log t @ carrier_cycle (tr_type t) 0 0 (tr_lasttime t)\<rparr>)"
        by (subst soft_loop.simps) (simp add: p assms(8) Let_def)
      with e(2) True zero show ?thesis by (auto intro!: exI [of _ 1] simp: carrier_def assms(8))
    next
      case never: False
      then have "\<not> end_time \<le> tr_lasttime t" using tk(1) by (simp add: assms(8))
      with soft_loop_stuck [OF _ assms(1,2) last, of end_time] zero assms(6,7) have "soft_loop end_time t = None"
        by (cases "soft_loop end_time t") auto
      with zero e(2) never show ?thesis by simp
    qed
  qed
qed

theorem serial_soft_carrier_witness:
  "\<exists>n t'. send_pulse_dtr_soft 560 (init_timer 1193180 5000 sender_init) = Some t' \<and> 0 < n \<and>
    tr_log t' = carrier 0 15 15 5000 n \<and> tr_lasttime t' = 5000 + int n * 30 \<and> 5668 \<le> tr_lasttime t' \<and> (n = 1 \<or> tr_lasttime t' < 5698)"
proof -
  let ?t = "init_timer 1193180 5000 sender_init"
  have t: "timer_ok ?t" "widths_ok ?t" "tr_lasttime ?t = 5000" "tr_log ?t = []" "tr_type ?t = 0"
    by (simp_all add: init_timer_def sender_init_def timer_ok_def widths_ok_def)
  have ticks: "15 = tr_ticks (tr_pulse_width ?t) ?t" "15 = tr_ticks (tr_space_width ?t) ?t" "tr_ticks 560 ?t = 668" by code_simp+
  have last: "tr_lasttime ?t < 2 ^ 60" and e: "5668 = tr_lasttime ?t + tr_ticks 560 ?t" by (simp_all add: t(3) ticks(3))
  have "(\<exists>t'. send_pulse_dtr_soft 560 ?t = Some t') \<and> (\<forall>t'. send_pulse_dtr_soft 560 ?t = Some t' \<longrightarrow>
      (\<exists>n > 0. tr_log t' = [] @ carrier 0 15 15 5000 n \<and> tr_lasttime t' = 5000 + int n * (15 + 15) \<and>
        5668 \<le> tr_lasttime t' \<and> (n = 1 \<or> tr_lasttime t' < 5668 + (15 + 15))))"
    using serial_soft_carrier [OF t(1,2) last _ _ ticks(1,2) e] unfolding t(3-5) ticks(3) by simp
  then show ?thesis by auto
qed

paragraph \<open>The carrier made by the transmitter\<close>

text \<open>The light switched at the given times, from the given level on.\<close>

fun edge_ops :: "int \<Rightarrow> bool \<Rightarrow> int list \<Rightarrow> port_op list" where
  "edge_ops type p [] = []"
| "edge_ops type p (w # ws) = light_ops p type @ [Wait_until w] @ edge_ops type (\<not> p) ws"

text \<open>The times at which the durations end, each rounded down to a tick of the counter.\<close>

fun edge_times :: "sender \<Rightarrow> int \<Rightarrow> lirc_t list \<Rightarrow> int list" where
  "edge_times t start [] = []"
| "edge_times t start (d # ds) = (start + tr_ticks d t) # edge_times t (start + tr_ticks d t) ds"

lemma length_edge_times [simp]: "length (edge_times t start ds) = length ds"
  by (induction ds arbitrary: start) simp_all

lemma edge_times_update [simp]: "edge_times (t\<lparr>tr_log := l\<rparr>) = edge_times t" "edge_times (t\<lparr>tr_lasttime := x\<rparr>) = edge_times t"
proof -
  have "edge_times (t\<lparr>tr_log := l\<rparr>) start ds = edge_times t start ds" "edge_times (t\<lparr>tr_lasttime := x\<rparr>) start ds = edge_times t start ds"
    for start ds by (induction ds arbitrary: start) simp_all
  then show "edge_times (t\<lparr>tr_log := l\<rparr>) = edge_times t" "edge_times (t\<lparr>tr_lasttime := x\<rparr>) = edge_times t" by blast+
qed

lemma lasting_word: "lasting d \<Longrightarrow> u32 d = d \<and> 0 \<le> d \<and> d < 2 ^ 32 \<and> d \<noteq> 0"
  by (simp add: lasting_def u32_id)

lemma edge_times_near:
  assumes "timer_ok t" "list_all lasting ds" "k < length ds"
  shows "(edge_times t start ds ! k - start) * 1000000 \<le> sum_list (take (Suc k) ds) * tr_freq t \<and>
    sum_list (take (Suc k) ds) * tr_freq t < (edge_times t start ds ! k - start + int (Suc k)) * 1000000"
  using assms(2,3)
proof (induction ds arbitrary: start k)
  case (Cons d ds)
  then have d: "tr_ticks d t * 1000000 \<le> d * tr_freq t" "d * tr_freq t < tr_ticks d t * 1000000 + 1000000"
    using tr_ticks_bounds(4,5) [OF assms(1)] lasting_word [of d] by simp_all
  show ?case
  proof (cases k)
    case (Suc j)
    with Cons.IH [of j "start + tr_ticks d t"] Cons.prems d show ?thesis by (simp add: algebra_simps)
  qed (use d in simp)
qed simp

lemma serial_signals_hard:
  assumes "list_all lasting ds" "timer_ok t" "odd (tr_type t)" "tr_lasttime t * 1000000 + sum_list ds * tr_freq t < 2 ^ 62 * 1000000"
  shows "\<exists>t'. serial_signals p ds t = Some t' \<and> tr_log t' = tr_log t @ edge_ops (tr_type t) p (edge_times t (tr_lasttime t) ds)"
  using assms
proof (induction ds arbitrary: p t)
  case (Cons d ds)
  have d: "u32 d = d" "0 \<le> d" "d < 2 ^ 32" "d \<noteq> 0" using Cons.prems(1) lasting_word [of d] by simp_all
  let ?l = "light p t" and ?w = "tr_lasttime t + tr_ticks d t"
  let ?t = "t\<lparr>tr_lasttime := ?w, tr_log := tr_log t @ light_ops p (tr_type t) @ [Wait_until ?w]\<rparr>"
  note tk = tr_ticks_bounds(2,3) [OF Cons.prems(2) d(2,3)]
  have "0 \<le> sum_list (d # ds)" using Cons.prems(1) by (intro sum_list_nonneg) (auto simp: list_all_iff lasting_def)
  then have "0 \<le> sum_list (d # ds) * tr_freq t" using Cons.prems(2) by (intro mult_nonneg_nonneg) (simp_all add: timer_ok_def)
  with Cons.prems(2,4) have l: "tr_lasttime t < 2 ^ 62" "0 \<le> tr_lasttime t" by (simp_all add: timer_ok_def)
  have "uwait d ?l = ?t" using uwait_eq [of ?l d] Cons.prems(2) l(1) d(2,3) by (simp add: light_eq)
  moreover have kind: "tr_type t mod 4 \<noteq> 0" "tr_type t mod 4 \<noteq> 2" using Cons.prems(3) by presburger+
  ultimately have step: "serial_signals p (d # ds) t = serial_signals (\<not> p) ds ?t"
    using d by (cases p) (simp_all add: serial_send_pulse_def serial_send_space_def send_pulse_hard_def send_space_hard_or_dtr_def)
  have "timer_ok ?t" using Cons.prems(2) tk(1) l(2) by simp
  moreover have "tr_lasttime ?t * 1000000 + sum_list ds * tr_freq ?t < 2 ^ 62 * 1000000"
    using Cons.prems(4) tr_ticks_bounds(4) [OF Cons.prems(2) d(2,3)] by (simp add: algebra_simps)
  ultimately show ?case using Cons.IH [of ?t "\<not> p"] Cons.prems(1,3) unfolding step by auto
qed simp



paragraph \<open>The carrier made of bytes\<close>

lemma repeated_pattern: "i < 4 * m \<Longrightarrow> concat (replicate m [v, 0, 0, 0]) ! i = (if i mod 4 = 0 then v else (0 :: int))"
proof (induction m arbitrary: i)
  case (Suc m)
  show ?case
  proof (cases "i < 4")
    case True
    then have "i \<in> {0, 1, 2, 3}" by auto
    then show ?thesis by auto
  next
    case False
    then have "concat (replicate (Suc m) [v, 0, 0, 0]) ! i = concat (replicate m [v, 0, 0, 0]) ! (i - 4)"
      by (simp add: nth_append nth_Cons' numeral_eq_Suc)
    moreover have "(i - 4) mod 4 = i mod 4" using False by (simp add: le_mod_geq)
    ultimately show ?thesis using Suc.IH [of "i - 4"] Suc.prems False by simp
  qed
qed simp

text \<open>
  C40: The carrier of bytes has holes. With the TX pin and no carrier of the transmitter, a pulse is written as as many
  bytes as it lasts, but the pattern is kept in an array of \<open>int\<close>: only every fourth byte is the pattern, the three
  between are zero. And an inverted transmitter of this kind is never configured, so that its pattern is not even set.
\<close>

theorem serial_pattern_holes:
  assumes "t' = snd (config_transmitter True True rem (SetTransmitPort type sender_init))" and "type \<in> {2, 6}"
    and "0 \<le> usecs" "usecs div tr_pulse_byte_length t' \<le> 1024"
  shows "\<exists>bytes. tr_log (send_pulse_tx_soft usecs t') = tr_log t' @ [Write_bytes bytes] \<and>
    int (length bytes) = usecs div tr_pulse_byte_length t' \<and>
    (\<forall>i < length bytes. bytes ! i = (if type = 2 \<and> i mod 4 = 0 then 
      (if r_freq rem \<ge> 48000 then 0x55 else if r_duty_cycle rem \<noteq> 0 \<and> r_duty_cycle rem < 50 then 0x5b else 0x12) else 0))"
proof -
  let ?v = "if type = 2 then
      (if r_freq rem \<ge> 48000 then 0x55 else if r_duty_cycle rem \<noteq> 0 \<and> r_duty_cycle rem < 50 then 0x5b else 0x12) else 0 :: int"
  have p: "0 < tr_pulse_byte_length t'" "tr_pulsedata t' = replicate 256 ?v"
    using assms(2) by (auto simp: assms(1) config_transmitter_def SetTransmitPort_def light_def port_ops_def sender_init_def
      tx_pattern_def Let_def)
  have "int_bytes ?v = [?v, 0, 0, 0]" by (simp add: int_bytes_def)
  then have bytes: "concat (map int_bytes (tr_pulsedata t')) = concat (replicate 256 [?v, 0, 0, 0])"
    by (simp only: p(2) map_replicate)
  let ?n = "nat (usecs div tr_pulse_byte_length t')" and ?bs = "concat (replicate 256 [?v, 0, 0, 0])"
  have len: "length ?bs = 1024" by (simp add: length_concat sum_list_replicate)
  have n: "?n \<le> 1024" "int ?n = usecs div tr_pulse_byte_length t'"
    using assms(3,4) p(1) by (simp_all add: pos_imp_zdiv_nonneg_iff)
  have "take ?n ?bs ! i = (if i mod 4 = 0 then ?v else 0)" if "i < ?n" for i
    using that n(1) repeated_pattern [of i 256 ?v] by simp
  then show ?thesis using len n
    by (intro exI [of _ "take ?n ?bs"]) (simp add: send_pulse_tx_soft_def bytes port_ops_def Let_def)
qed

theorem serial_pattern_holes_witness:
  "\<exists>bytes. tr_log (send_pulse_tx_soft 560 (snd (config_transmitter True True nec_remote (SetTransmitPort 2 sender_init)))) =
      [Set_byte_size 7, Write_bytes bytes] \<and> length bytes = 7 \<and> bytes ! 0 = 0x12 \<and> bytes ! 1 = 0"
proof -
  let ?t = "snd (config_transmitter True True nec_remote (SetTransmitPort 2 sender_init))"
  have t: "tr_log ?t = [Set_byte_size 7]" "tr_pulse_byte_length ?t = 78" by code_simp+
  have rem: "r_freq nec_remote = 0" "r_duty_cycle nec_remote = 0" by code_simp+
  obtain bytes where b: "tr_log (send_pulse_tx_soft 560 ?t) = tr_log ?t @ [Write_bytes bytes]"
    "int (length bytes) = 560 div tr_pulse_byte_length ?t"
    "\<forall>i < length bytes. bytes ! i = (if (2 :: int) = 2 \<and> i mod 4 = 0 then
      (if r_freq nec_remote \<ge> 48000 then 0x55 else if r_duty_cycle nec_remote \<noteq> 0 \<and> r_duty_cycle nec_remote < 50 then 0x5b else 0x12) else 0)"
    using serial_pattern_holes [of ?t nec_remote 2 560] t(2) by auto
  then have len: "length bytes = 7" by (simp add: t(2))
  with b(3) rem have "bytes ! 0 = 0x12" "bytes ! 1 = 0" by simp_all
  with b(1) len t(1) show ?thesis by simp
qed

end
