(* ===== verification/Audio.thy ===== *)
theory Audio
  imports CFloat RoundTrip
begin

text \<open>
  The plugin that listens at an audio input, \<open>DLL/AudioCapture/AnalyseAudio.cpp\<close>: a receiver at the line input makes
  8-bit samples around 128 that leave the band of the noise as long as a pulse lasts. The ring buffer is that of the
  other plugins; \<open>au_wakes\<close> counts how often the decoder is woken.
\<close>

abbreviation (input) MAX_SPACE :: int where "MAX_SPACE \<equiv> 10000"

text \<open>A conversion from \<open>double\<close> to \<open>int\<close> truncates, and yields the smallest \<open>int\<close> when that does not fit.\<close>

definition int_of_double :: "rat \<Rightarrow> int" where
  "int_of_double x = (let n = (if x < 0 then \<lceil>x\<rceil> else \<lfloor>x\<rfloor>) in if in32 n then n else - (2 ^ 31))"

datatype polarity = SP_POSITIVE | SP_NEGATIVE | SP_AUTOMATIC

record audio =
  au_multiplyConstant :: rat
  au_sampleCount :: int
  au_maxCount :: int
  au_numberOfChans :: nat
  au_leftChannel :: bool
  au_pulse :: bool
  au_noiseValue :: int
  au_inverted :: bool
  au_detected :: bool
  au_gapInSamples :: int
  au_buffer :: fifo
  au_wakes :: nat
  au_ub :: bool

definition audio_init :: "int \<Rightarrow> int \<Rightarrow> bool \<Rightarrow> int \<Rightarrow> polarity \<Rightarrow> fifo \<Rightarrow> audio" where
  "audio_init frequency numberOfChannels leftChannel noiseValue signalPolarity f =
    (let c = float64 (1000000 / of_int frequency)
     in \<lparr>au_multiplyConstant = c, au_sampleCount = 0, au_maxCount = 0xFFFFFFFF div \<lfloor>c\<rfloor>,
       au_numberOfChans = (if numberOfChannels < 1 then 1 else if numberOfChannels > 2 then 2 else nat numberOfChannels),
       au_leftChannel = leftChannel, au_pulse = False, au_noiseValue = noiseValue,
       au_inverted = (signalPolarity = SP_NEGATIVE), au_detected = (signalPolarity \<noteq> SP_AUTOMATIC), au_gapInSamples = 0,
       au_buffer = f\<lparr>bufferStart := 0, bufferEnd := 0\<rparr>, au_wakes = 0, au_ub = \<lfloor>c\<rfloor> = 0\<rparr>)"

definition detectSignalPolarity :: "int \<Rightarrow> audio \<Rightarrow> audio" where
  "detectSignalPolarity sample a =
    (if \<bar>sample - 128\<bar> > au_noiseValue a then a\<lparr>au_inverted := \<not> sample > 128, au_detected := True\<rparr> else a)"

definition au_setData :: "lirc_t \<Rightarrow> audio \<Rightarrow> audio" where
  "au_setData data a = a\<lparr>au_buffer := fifo_push data (au_buffer a)\<rparr>"

definition au_usecs :: "int \<Rightarrow> audio \<Rightarrow> lirc_t" where
  "au_usecs n a = int_of_double (float64 (of_int n * au_multiplyConstant a))"

text \<open>What is counted since the last change, and the count starts anew.\<close>

definition au_change :: "bool \<Rightarrow> audio \<Rightarrow> audio" where
  "au_change to_pulse a =
    (let x = au_usecs (au_sampleCount a) a; x = (if x > PULSE_MASK then PULSE_MASK else x)
     in au_setData (if to_pulse then x else x OR PULSE_BIT) (a\<lparr>au_sampleCount := 0, au_pulse := to_pulse\<rparr>))"

definition sendBuffer :: "bool \<Rightarrow> audio \<Rightarrow> audio" where
  "sendBuffer space a =
    (if space then
       (let a = a\<lparr>au_gapInSamples := add32 (au_gapInSamples a) 1\<rparr>
        in if au_usecs (au_gapInSamples a) a > MAX_SPACE \<and> \<not> fifo_empty (au_buffer a) then a\<lparr>au_wakes := au_wakes a + 1\<rparr> else a)
     else a\<lparr>au_gapInSamples := 0\<rparr>)"

definition changeToPulse :: "int \<Rightarrow> audio \<Rightarrow> bool" where
  "changeToPulse sample a \<longleftrightarrow>
     (if au_inverted a then sample < 128 - au_noiseValue a else sample > 128 + au_noiseValue a)"

text \<open>Every so often the count is reset.\<close>

definition au_reset :: "audio \<Rightarrow> audio" where
  "au_reset a = (if au_sampleCount a > au_maxCount a then a\<lparr>au_sampleCount := 0, au_pulse := False\<rparr> else a)"

definition decode_sample :: "int \<Rightarrow> audio \<Rightarrow> audio" where
  "decode_sample sample a =
    (let a = (if au_detected a then a else detectSignalPolarity sample a);
         a = au_reset a;
         p = changeToPulse sample a;
         a = (if p \<noteq> au_pulse a then au_change p a else a);
         a = sendBuffer (\<not> p) a
     in a\<lparr>au_sampleCount := au_sampleCount a + 1\<rparr>)"

text \<open>The samples of the channel that is listened to. The right one of half a frame is behind the data.\<close>

fun channel_samples :: "nat \<Rightarrow> bool \<Rightarrow> int list \<Rightarrow> int list" where
  "channel_samples chans left [] = []"
| "channel_samples chans left [l] = (if chans > 1 \<and> \<not> left then [] else [l])"
| "channel_samples chans left (l # r # data) =
    (if chans > 1 then (if left then l else r) # channel_samples chans left data
     else l # channel_samples chans left (r # data))"

definition decodeData :: "int list \<Rightarrow> audio \<Rightarrow> audio" where
  "decodeData data a =
    (let overrun = au_numberOfChans a > 1 \<and> \<not> au_leftChannel a \<and> odd (length data)
     in fold decode_sample (channel_samples (au_numberOfChans a) (au_leftChannel a) data) (a\<lparr>au_ub := au_ub a \<or> overrun\<rparr>))"

subsection \<open>Correctness\<close>

text \<open>Runs of samples above and below the noise, in turn.\<close>

fun level_runs :: "bool \<Rightarrow> nat list \<Rightarrow> bool list" where
  "level_runs p [] = []"
| "level_runs p (n # ns) = replicate n p @ level_runs (\<not> p) ns"

definition run_usecs :: "nat \<Rightarrow> audio \<Rightarrow> lirc_t" where
  "run_usecs n a = min PULSE_MASK (au_usecs (int n) a)"

lemma changeToPulse_sel [simp]:
  "changeToPulse x (a\<lparr>au_sampleCount := c\<rparr>) = changeToPulse x a" "changeToPulse x (a\<lparr>au_pulse := p\<rparr>) = changeToPulse x a"
  "changeToPulse x (a\<lparr>au_buffer := f\<rparr>) = changeToPulse x a" "changeToPulse x (a\<lparr>au_gapInSamples := n\<rparr>) = changeToPulse x a"
  "changeToPulse x (a\<lparr>au_wakes := w\<rparr>) = changeToPulse x a"
  by (simp_all add: changeToPulse_def)

text \<open>A state that differs only in what the samples change.\<close>

definition same_input :: "audio \<Rightarrow> audio \<Rightarrow> bool" where
  "same_input a b \<longleftrightarrow> au_multiplyConstant b = au_multiplyConstant a \<and> au_maxCount b = au_maxCount a \<and>
     au_numberOfChans b = au_numberOfChans a \<and> au_leftChannel b = au_leftChannel a \<and> au_noiseValue b = au_noiseValue a \<and>
     au_inverted b = au_inverted a \<and> au_detected b = au_detected a \<and> au_ub b = au_ub a"

lemma same_input_trans: "same_input a b \<Longrightarrow> same_input b c \<Longrightarrow> same_input a c"
  by (simp add: same_input_def)

lemma same_input_facts:
  assumes "same_input a b"
  shows "changeToPulse x b = changeToPulse x a" "run_usecs n b = run_usecs n a"
  using assms by (simp_all add: same_input_def changeToPulse_def run_usecs_def au_usecs_def)

lemma sendBuffer_keeps [simp]:
  "same_input a (sendBuffer p b) = same_input a b" "au_pulse (sendBuffer p a) = au_pulse a"
  "au_sampleCount (sendBuffer p a) = au_sampleCount a" "au_buffer (sendBuffer p a) = au_buffer a"
  by (simp_all add: sendBuffer_def same_input_def Let_def)

lemma au_change_sel [simp]:
  "same_input a (au_change p b) = same_input a b" "au_pulse (au_change p a) = p" "au_sampleCount (au_change p a) = 0"
  by (simp_all add: au_change_def au_setData_def same_input_def Let_def)

lemma au_change_buffer:
  assumes "au_sampleCount a = int n"
  shows "au_buffer (au_change (\<not> p) a) = fifo_push (if p then flag_pulse (run_usecs n a) else run_usecs n a) (au_buffer a)"
  by (simp add: au_change_def au_setData_def run_usecs_def flag_pulse_def assms min_def au_usecs_def Let_def not_le
      if_distrib)

lemma decode_sample_step:
  assumes "au_detected a" "au_sampleCount a \<le> au_maxCount a" and "p = changeToPulse x a"
  shows "same_input a (decode_sample x a)" "au_pulse (decode_sample x a) = p"
    "au_sampleCount (decode_sample x a) = (if p = au_pulse a then au_sampleCount a + 1 else 1)"
    "au_buffer (decode_sample x a) = (if p = au_pulse a then au_buffer a else au_buffer (au_change p a))"
proof -
  let ?b = "sendBuffer (\<not> p) (if p \<noteq> au_pulse a then au_change p a else a)"
  have eq: "decode_sample x a = ?b\<lparr>au_sampleCount := au_sampleCount ?b + 1\<rparr>"
    using assms by (simp add: decode_sample_def au_reset_def Let_def)
  have upd: "same_input a (b\<lparr>au_sampleCount := c\<rparr>) = same_input a b" for b c by (simp add: same_input_def)
  have refl: "same_input a a" by (simp add: same_input_def)
  show "same_input a (decode_sample x a)" "au_pulse (decode_sample x a) = p"
    "au_sampleCount (decode_sample x a) = (if p = au_pulse a then au_sampleCount a + 1 else 1)"
    "au_buffer (decode_sample x a) = (if p = au_pulse a then au_buffer a else au_buffer (au_change p a))"
    unfolding eq by (simp_all add: upd refl)
qed

lemma decode_run:
  assumes "au_detected a" and "0 \<le> au_sampleCount a" "au_sampleCount a + int (length xs) \<le> au_maxCount a"
    and "\<forall>x \<in> set xs. changeToPulse x a = au_pulse a"
  shows "let b = fold decode_sample xs a in same_input a b \<and> au_pulse b = au_pulse a \<and> au_buffer b = au_buffer a \<and>
    au_sampleCount b = au_sampleCount a + int (length xs)"
  using assms
proof (induction xs arbitrary: a)
  case (Cons x xs)
  let ?a = "decode_sample x a"
  have st: "same_input a ?a" "au_pulse ?a = au_pulse a" "au_sampleCount ?a = au_sampleCount a + 1" "au_buffer ?a = au_buffer a"
    using decode_sample_step [of a "changeToPulse x a" x] Cons.prems by simp_all
  then have d: "au_detected ?a" "au_maxCount ?a = au_maxCount a" using Cons.prems(1) by (simp_all add: same_input_def)
  have "let b = fold decode_sample xs ?a in same_input ?a b \<and> au_pulse b = au_pulse ?a \<and> au_buffer b = au_buffer ?a \<and>
      au_sampleCount b = au_sampleCount ?a + int (length xs)"
    using Cons.prems by (intro Cons.IH) (simp_all add: d st same_input_facts [OF st(1)])
  with st show ?case by (auto simp: Let_def intro: same_input_trans)
qed (simp add: same_input_def)

lemma decode_runs:
  assumes "au_detected a" and "au_sampleCount a = int c" "int c \<le> au_maxCount a"
    and "list_all (\<lambda>n. 0 < n \<and> int n \<le> au_maxCount a) ns"
    and "map (\<lambda>x. changeToPulse x a) xs = level_runs (\<not> au_pulse a) ns"
  shows "au_buffer (fold decode_sample xs a) =
    fold fifo_push (marked (au_pulse a) (map (\<lambda>n. run_usecs n a) (butlast (c # ns)))) (au_buffer a)"
  using assms
proof (induction ns arbitrary: a c xs)
  case (Cons n ns)
  from Cons.prems(4) obtain m where n: "n = Suc m" "int n \<le> au_maxCount a" by (cases n) auto
  from Cons.prems(5) obtain ys zs where xs: "xs = ys @ zs" "map (\<lambda>x. changeToPulse x a) ys = replicate n (\<not> au_pulse a)"
    "map (\<lambda>x. changeToPulse x a) zs = level_runs (au_pulse a) ns"
    by (auto simp: map_eq_append_conv)
  from xs(2) n(1) obtain y ws where ys: "ys = y # ws" "changeToPulse y a = (\<not> au_pulse a)"
    "map (\<lambda>x. changeToPulse x a) ws = replicate m (\<not> au_pulse a)"
    by auto
  let ?p = "au_pulse a"
  let ?a = "decode_sample y a"
  have st: "same_input a ?a" "au_pulse ?a = (\<not> ?p)" "au_sampleCount ?a = 1"
    "au_buffer ?a = fifo_push (if ?p then flag_pulse (run_usecs c a) else run_usecs c a) (au_buffer a)"
    using decode_sample_step [of a "\<not> ?p" y] Cons.prems(1-3) ys(2) au_change_buffer [of a c ?p] by simp_all
  have len: "length ws = m" using arg_cong [OF ys(3), of length] by simp
  have ws: "\<forall>x \<in> set ws. changeToPulse x ?a = au_pulse ?a"
    using ys(3) by (simp add: same_input_facts [OF st(1)] st(2)) (metis in_set_replicate list.set_map image_eqI)
  let ?b = "fold decode_sample ws ?a"
  have b: "same_input ?a ?b" "au_pulse ?b = (\<not> ?p)" "au_buffer ?b = au_buffer ?a" "au_sampleCount ?b = int n"
    using decode_run [OF _ _ _ ws] st Cons.prems(1) n len by (auto simp: same_input_def Let_def)
  have ab: "same_input a ?b" using same_input_trans [OF st(1) b(1)] .
  then have d: "au_detected ?b" "au_maxCount ?b = au_maxCount a" using Cons.prems(1) by (simp_all add: same_input_def)
  have "au_buffer (fold decode_sample zs ?b) =
      fold fifo_push (marked (au_pulse ?b) (map (\<lambda>n. run_usecs n ?b) (butlast (n # ns)))) (au_buffer ?b)"
    using Cons.prems(4) n(2) xs(3) by (intro Cons.IH) (simp_all add: d b(2,4) same_input_facts [OF ab])
  then show ?case by (simp add: xs(1) ys(1) b(2,3) st(4) same_input_facts [OF ab])
qed simp

lemma channel_samples_append:
  "chans \<le> 1 \<or> even (length xs) \<Longrightarrow> channel_samples chans left (xs @ ys) = channel_samples chans left xs @ channel_samples chans left ys"
  by (induction chans left xs rule: channel_samples.induct) (auto simp: channel_samples.simps(2) split: if_splits, (cases ys; simp)+)

lemma decode_sample_keeps [simp]:
  "au_numberOfChans (decode_sample x a) = au_numberOfChans a" "au_leftChannel (decode_sample x a) = au_leftChannel a"
proof -
  have ops: "au_numberOfChans (detectSignalPolarity x a) = au_numberOfChans a" "au_numberOfChans (au_reset a) = au_numberOfChans a"
    "au_numberOfChans (au_change p a) = au_numberOfChans a" "au_numberOfChans (sendBuffer p a) = au_numberOfChans a"
    "au_leftChannel (detectSignalPolarity x a) = au_leftChannel a" "au_leftChannel (au_reset a) = au_leftChannel a"
    "au_leftChannel (au_change p a) = au_leftChannel a" "au_leftChannel (sendBuffer p a) = au_leftChannel a" for p a
    by (simp_all add: detectSignalPolarity_def au_reset_def au_change_def au_setData_def sendBuffer_def Let_def)
  show "au_numberOfChans (decode_sample x a) = au_numberOfChans a" "au_leftChannel (decode_sample x a) = au_leftChannel a"
    by (simp_all add: decode_sample_def ops Let_def)
qed

lemma fold_decode_sample_keeps [simp]:
  "au_numberOfChans (fold decode_sample xs a) = au_numberOfChans a" "au_leftChannel (fold decode_sample xs a) = au_leftChannel a"
  by (induction xs arbitrary: a) simp_all

text \<open>How the recording is cut into buffers does not matter as long as a frame is not cut.\<close>

lemma decodeData_chunks:
  assumes "list_all (\<lambda>c. au_numberOfChans a \<le> 1 \<or> even (length c)) chunks"
  shows "fold decodeData chunks a = fold decode_sample (channel_samples (au_numberOfChans a) (au_leftChannel a) (concat chunks)) a"
  using assms
proof (induction chunks arbitrary: a)
  case (Cons c chunks)
  have ub: "(au_ub a \<or> au_numberOfChans a > 1 \<and> \<not> au_leftChannel a \<and> odd (length c)) = au_ub a" using Cons.prems by auto
  have d: "decodeData c a = fold decode_sample (channel_samples (au_numberOfChans a) (au_leftChannel a) c) a"
    by (simp only: decodeData_def Let_def ub) simp
  show ?case using Cons by (simp add: d channel_samples_append)
qed simp

lemma run_usecs_near:
  assumes "8000 \<le> f" "f \<le> 200000" "au_multiplyConstant a = float64 (1000000 / of_int f)" and "int n * 1000000 \<le> PULSE_MASK * f"
  shows "0 \<le> run_usecs n a" "\<bar>run_usecs n a * f - int n * 1000000\<bar> \<le> 2 * f"
proof -
  let ?e = "1000000 / of_int f :: rat" and ?c = "au_multiplyConstant a"
  let ?y = "float64 (of_int (int n) * ?c)" and ?x = "of_nat n * ?e"
  have f: "0 < (of_int f :: rat)" using assms(1) by simp
  have e: "0 < ?e" using f by simp
  have c: "\<bar>?c - ?e\<bar> \<le> ?e / 2 ^ 53" unfolding assms(3) using e by (intro fl_error) simp
  have x: "0 \<le> ?x" "?x \<le> 16777215"
  proof -
    show "0 \<le> ?x" using e by simp
    have "(of_int (int n * 1000000) :: rat) \<le> of_int (PULSE_MASK * f)" using assms(4) by (simp only: of_int_le_iff)
    then show "?x \<le> 16777215" using f by (simp add: field_simps)
  qed
  have c0: "0 \<le> ?c" unfolding assms(3) by (rule fl_nonneg)
  have near: "\<bar>of_nat n * ?c - ?x\<bar> \<le> ?x / 2 ^ 53"
  proof -
    have "of_nat n * ?c - ?x = of_nat n * (?c - ?e)" by (simp only: right_diff_distrib)
    then have "\<bar>of_nat n * ?c - ?x\<bar> = of_nat n * \<bar>?c - ?e\<bar>" by (simp only: abs_mult abs_of_nat)
    also have "\<dots> \<le> of_nat n * (?e / 2 ^ 53)" using c by (intro mult_left_mono) simp_all
    finally show ?thesis by simp
  qed
  have "0 \<le> of_int (int n) * ?c" using c0 by simp
  from fl_error [OF this, of 53] have y: "\<bar>?y - of_nat n * ?c\<bar> \<le> of_nat n * ?c / 2 ^ 53" by simp
  have "?x / 2 ^ 53 \<le> 16777215 / 2 ^ 53" using x(2) by (rule divide_right_mono) simp
  also have "\<dots> \<le> 1 / 4" by simp
  finally have "?x / 2 ^ 53 \<le> 1 / 4" .
  with near have nc: "\<bar>of_nat n * ?c - ?x\<bar> \<le> 1 / 4" by linarith
  then have "of_nat n * ?c \<le> 16777216" using x(2) by linarith
  then have "of_nat n * ?c / 2 ^ 53 \<le> 16777216 / 2 ^ 53" by (rule divide_right_mono) simp
  also have "\<dots> \<le> 1 / 4" by simp
  finally have "of_nat n * ?c / 2 ^ 53 \<le> 1 / 4" .
  with y nc have near: "\<bar>?y - ?x\<bar> \<le> 1 / 2" by linarith
  have y0: "0 \<le> ?y" by (rule fl_nonneg)
  let ?n = "\<lfloor>?y\<rfloor>"
  have n: "of_int ?n \<le> ?y" "?y < of_int ?n + 1" "0 \<le> ?n" using y0 by linarith+
  then have "(of_int ?n :: rat) \<le> of_int 16777216" using near x(2) unfolding of_int_numeral by linarith
  then have "?n \<le> 16777216" by (simp only: of_int_le_iff)
  with n(3) have "au_usecs (int n) a = ?n" using y0 by (simp add: au_usecs_def int_of_double_def in32_def Let_def)
  then have r: "run_usecs n a = min PULSE_MASK ?n" by (simp add: run_usecs_def)
  show "0 \<le> run_usecs n a" using n(3) by (simp add: r)
  have "of_int (run_usecs n a) \<le> ?x + 1 / 2 \<and> ?x - 3 / 2 \<le> of_int (run_usecs n a)"
  proof (cases "?n \<le> 16777215")
    case True
    then have "run_usecs n a = ?n" by (simp add: r)
    then show ?thesis using n(1,2) near by (simp only:) linarith
  next
    case False
    then have "run_usecs n a = 16777215" by (simp add: r)
    moreover have "(of_int 16777216 :: rat) \<le> of_int ?n" using False by (simp only: of_int_le_iff)
    ultimately show ?thesis using n(1,2) near x(2) by (simp only: of_int_numeral)
  qed
  then have "\<bar>of_int (run_usecs n a) - ?x\<bar> \<le> 2" by linarith
  then have "\<bar>of_int (run_usecs n a) - ?x\<bar> * of_int f \<le> 2 * of_int f" using f by (intro mult_right_mono) simp_all
  moreover have "\<bar>of_int (run_usecs n a) - ?x\<bar> * of_int f = \<bar>(of_int (run_usecs n a) - ?x) * of_int f\<bar>"
    using f by (simp add: abs_mult)
  moreover have "(of_int (run_usecs n a) - ?x) * of_int f = of_int (run_usecs n a * f - int n * 1000000)"
    using f by (simp add: algebra_simps)
  ultimately have "(of_int \<bar>run_usecs n a * f - int n * 1000000\<bar> :: rat) \<le> of_int (2 * f)" by simp
  then show "\<bar>run_usecs n a * f - int n * 1000000\<bar> \<le> 2 * f" by (simp only: of_int_le_iff)
qed



paragraph \<open>Polarity\<close>

definition opposite :: "polarity \<Rightarrow> polarity" where
  "opposite pol = (case pol of SP_POSITIVE \<Rightarrow> SP_NEGATIVE | SP_NEGATIVE \<Rightarrow> SP_POSITIVE | SP_AUTOMATIC \<Rightarrow> SP_AUTOMATIC)"

definition upside_down :: "int \<Rightarrow> int" where
  "upside_down x = 256 - x"

text \<open>The state on the recording that is upside down.\<close>

definition turned :: "audio \<Rightarrow> audio" where
  "turned a = (if au_detected a then a\<lparr>au_inverted := \<not> au_inverted a\<rparr> else a)"

definition polar_ok :: "audio \<Rightarrow> bool" where
  "polar_ok a \<longleftrightarrow> 0 \<le> au_noiseValue a \<and> (\<not> au_detected a \<longrightarrow> \<not> au_inverted a)"

lemma au_change_commute:
  "au_change p (a\<lparr>au_inverted := i\<rparr>) = (au_change p a)\<lparr>au_inverted := i\<rparr>"
  "sendBuffer p (a\<lparr>au_inverted := i\<rparr>) = (sendBuffer p a)\<lparr>au_inverted := i\<rparr>"
  by (simp_all add: au_change_def au_setData_def sendBuffer_def au_usecs_def Let_def)

definition after_detection :: "bool \<Rightarrow> audio \<Rightarrow> audio" where
  "after_detection p a =
    (let a = au_reset a;
         a = (if p \<noteq> au_pulse a then au_change p a else a);
         a = sendBuffer (\<not> p) a
     in a\<lparr>au_sampleCount := au_sampleCount a + 1\<rparr>)"

definition detection :: "int \<Rightarrow> audio \<Rightarrow> audio" where
  "detection x a = (if au_detected a then a else detectSignalPolarity x a)"

lemma decode_sample_split: "decode_sample x a = after_detection (changeToPulse x (detection x a)) (detection x a)"
proof -
  have "changeToPulse x (au_reset b) = changeToPulse x b" for b by (simp add: au_reset_def)
  then show ?thesis by (simp only: decode_sample_def after_detection_def detection_def Let_def)
qed

lemma after_detection_inverted: "after_detection p (a\<lparr>au_inverted := i\<rparr>) = (after_detection p a)\<lparr>au_inverted := i\<rparr>"
proof -
  have "au_reset (a\<lparr>au_inverted := i\<rparr>) = (au_reset a)\<lparr>au_inverted := i\<rparr>" by (simp add: au_reset_def)
  then show ?thesis by (simp add: after_detection_def au_change_commute Let_def)
qed

lemma after_detection_keeps:
  "au_detected (after_detection p a) = au_detected a" "au_inverted (after_detection p a) = au_inverted a"
  "au_noiseValue (after_detection p a) = au_noiseValue a"
  by (simp_all add: after_detection_def au_reset_def au_change_def au_setData_def sendBuffer_def Let_def)

lemma detection_turned:
  assumes "polar_ok a"
  shows "detection (upside_down x) (turned a) = turned (detection x a)" "polar_ok (detection x a)"
    "changeToPulse (upside_down x) (turned (detection x a)) = changeToPulse x (detection x a)"
  using assms by (cases a; auto simp: detection_def turned_def detectSignalPolarity_def upside_down_def polar_ok_def changeToPulse_def)+

lemma decode_sample_turned:
  assumes "polar_ok a"
  shows "decode_sample (upside_down x) (turned a) = turned (decode_sample x a)" "polar_ok (decode_sample x a)"
proof -
  have "after_detection p (turned b) = turned (after_detection p b)" for p b
    by (simp add: turned_def after_detection_inverted after_detection_keeps)
  with detection_turned [OF assms, of x]
  show "decode_sample (upside_down x) (turned a) = turned (decode_sample x a)" "polar_ok (decode_sample x a)"
    by (simp_all add: decode_sample_split polar_ok_def after_detection_keeps)
qed

lemma decode_samples_turned:
  "polar_ok a \<Longrightarrow> fold decode_sample (map upside_down xs) (turned a) = turned (fold decode_sample xs a) \<and> polar_ok (fold decode_sample xs a)"
  by (induction xs arbitrary: a) (simp_all add: decode_sample_turned)

lemma channel_samples_map: "channel_samples chans left (map f xs) = map f (channel_samples chans left xs)"
  by (induction chans left xs rule: channel_samples.induct) simp_all

lemma decodeData_turned:
  assumes "polar_ok a"
  shows "decodeData (map upside_down xs) (turned a) = turned (decodeData xs a) \<and> polar_ok (decodeData xs a)"
proof -
  let ?ub = "au_ub a \<or> 1 < au_numberOfChans a \<and> \<not> au_leftChannel a \<and> odd (length xs)"
  have t: "au_numberOfChans (turned a) = au_numberOfChans a" "au_leftChannel (turned a) = au_leftChannel a"
    "au_ub (turned a) = au_ub a" "(turned a)\<lparr>au_ub := ?ub\<rparr> = turned (a\<lparr>au_ub := ?ub\<rparr>)"
    by (simp_all add: turned_def)
  have "polar_ok (a\<lparr>au_ub := ?ub\<rparr>)" using assms by (simp add: polar_ok_def)
  from decode_samples_turned [OF this] show ?thesis
    by (simp only: decodeData_def Let_def channel_samples_map length_map t)
qed

text \<open>
  C32: The polarity of the audio input does not matter. A recording that is upside down, with the opposite setting, or
  with the polarity left to be detected, puts the same samples into the ring buffer and wakes the decoder as often,
  after every buffer.
\<close>

theorem audio_polarity:
  assumes "0 \<le> noise"
  shows "let a = fold decodeData chunks (audio_init f chans left noise pol q);
      b = fold decodeData (map (map (\<lambda>x. 256 - x)) chunks) (audio_init f chans left noise (opposite pol) q)
    in au_buffer b = au_buffer a \<and> au_wakes b = au_wakes a \<and> au_detected b = au_detected a"
proof -
  let ?a = "audio_init f chans left noise pol q"
  have "audio_init f chans left noise (opposite pol) q = turned ?a" "polar_ok ?a"
    using assms by (cases pol; simp add: audio_init_def turned_def opposite_def polar_ok_def Let_def)+
  moreover have "fold decodeData (map (map upside_down) chunks) (turned b) = turned (fold decodeData chunks b)" if "polar_ok b" for b
    using that by (induction chunks arbitrary: b) (simp_all add: decodeData_turned)
  moreover have "(\<lambda>x. 256 - x) = upside_down" by (simp add: fun_eq_iff upside_down_def)
  ultimately show ?thesis by (simp add: turned_def Let_def)
qed

theorem audio_polarity_witness:
  "let a = fold decodeData [[128, 128, 90, 90, 90, 128]] (audio_init 48000 1 True 20 SP_AUTOMATIC fifo_init);
      b = fold decodeData [[128, 128, 166, 166, 166, 128]] (audio_init 48000 1 True 20 SP_AUTOMATIC fifo_init)
    in au_buffer b = au_buffer a \<and> au_wakes b = au_wakes a \<and> au_detected b = au_detected a"
  using audio_polarity [of 20 "[[128, 128, 90, 90, 90, 128]]" 48000 1 True SP_AUTOMATIC fifo_init]
  by (simp add: opposite_def)

end
