(* ===== verification/Keypads.thy ===== *)
theory Keypads
  imports DriverLaws
begin

text \<open>
  Plugins for remotes whose receiver delivers keys instead of signals, so that they write the line for the clients
  themselves: \<open>DLL/FireFly/SendReceiveData.cpp\<close>, half of whose keys are those of a keyboard,
  \<open>DLL/MaxterPlus/SendReceiveData.cpp\<close> and \<open>DLL/Chinavision/ChinavisionAPI.cpp\<close>. What Windows reports is an input.
\<close>

text \<open>The line, \<open>%016llx %02x %s %s\<close> with the code 0, is that of \<^const>\<open>message_text\<close>.\<close>

definition key_line :: "int \<Rightarrow> string \<Rightarrow> string \<Rightarrow> string" where
  "key_line repeats button remote = message_text remote button [] 0 repeats"

record keypad =
  kp_irCode :: int
  kp_last :: int
  kp_repeats :: int

definition keypad_init :: keypad where
  "keypad_init = \<lparr>kp_irCode = 0, kp_last = 0, kp_repeats = 0\<rparr>"

subsection \<open>FireFly\<close>

definition firefly_buttons :: "(int \<times> string) list" where
  "firefly_buttons = [
    (26, ''CLOSE''), (17, ''MUTE''), (13, ''VOL+''), (14, ''VOL-''), (2, ''CH+''), (3, ''CH-''), (1, ''LAST''),
    (24, ''EXIT''), (27, ''OPTION''), (16, ''FIREFLY''), (15, ''MENU''), (11, ''REC''), (20, ''GUIDE''),
    (9, ''STOP''), (8, ''PREV''), (4, ''PLAY''), (7, ''NEXT''), (6, ''REW''), (10, ''PAUSE''), (5, ''FWD''),
    (148, ''0''), (149, ''1''), (150, ''2''), (151, ''3''), (152, ''4''), (153, ''5''), (154, ''6''), (155, ''7''),
    (156, ''8''), (157, ''9''), (137, ''LEFT''), (139, ''RIGHT''), (138, ''UP''), (140, ''DOWN''), (113, ''OK'')]"

text \<open>What the two threads see: a report of the device, or a key of the keyboard that goes down or up.\<close>

datatype firefly_event = Hid_report int | Key_down int | Key_up int

definition firefly_handle :: "firefly_event \<Rightarrow> keypad \<Rightarrow> keypad" where
  "firefly_handle e k =
    (case e of
       Hid_report b \<Rightarrow> if b \<noteq> 0 then k\<lparr>kp_irCode := b, kp_repeats := 0\<rparr> else k
     | Key_down v \<Rightarrow> k\<lparr>kp_repeats := if kp_last k = v mod 256 + 100 then u32 (kp_repeats k + 1) else 0,
         kp_irCode := (v mod 256 + 100) mod 256\<rparr>
     | Key_up v \<Rightarrow> k\<lparr>kp_last := 0, kp_repeats := 0\<rparr>)"

definition firefly_decodeCommand :: "keypad \<Rightarrow> string option \<times> keypad" where
  "firefly_decodeCommand k =
    (case map_of firefly_buttons (kp_irCode k) of
       None \<Rightarrow> (None, k\<lparr>kp_irCode := 0\<rparr>)
     | Some button \<Rightarrow> (Some (key_line (kp_repeats k) button ''FireFlyMini''), k\<lparr>kp_last := kp_irCode k, kp_irCode := 0\<rparr>))"

text \<open>The decoder runs when there is a code.\<close>

fun firefly_run :: "firefly_event list \<Rightarrow> keypad \<Rightarrow> string list \<times> keypad" where
  "firefly_run [] k = ([], k)"
| "firefly_run (e # es) k =
    (let k = firefly_handle e k;
         (out, k) = (if kp_irCode k = 0 then (None, k) else firefly_decodeCommand k);
         (outs, k) = firefly_run es k
     in ((case out of None \<Rightarrow> outs | Some l \<Rightarrow> l # outs), k))"

subsection \<open>MaxterPlus\<close>

definition maxter_buttons :: "(int \<times> string) list" where
  "maxter_buttons = [
    (12, ''POWER''), (63, ''0''), (1, ''1''), (2, ''2''), (3, ''3''), (4, ''4''), (5, ''5''), (6, ''6''), (7, ''7''),
    (8, ''8''), (9, ''9''), (40, ''REC_TV''), (38, ''GUIDE''), (37, ''LIVE_TV''), (35, ''BACK''), (15, ''MORE''),
    (30, ''UP''), (31, ''DOWN''), (32, ''LEFT''), (33, ''RIGHT''), (34, ''OK''), (17, ''VOL-''), (16, ''VOL+''),
    (19, ''CH/PG-''), (18, ''CH/PG+''), (23, ''RECORD''), (13, ''MCE''), (25, ''STOP''), (11, ''MENU''),
    (21, ''<<''), (24, ''||''), (20, ''>>''), (10, ''ESC''), (27, ''|<<''), (22, ''PLAY''), (26, ''>>|''),
    (14, ''MUTE''), (93, ''*''), (74, ''CLEAR''), (92, ''#''), (98, ''MOUSE_BUTTON_LEFT''),
    (79, ''MOUSE_BUTTON_RIGHT''), (94, ''MOUSE_UP''), (95, ''MOUSE_DOWN''), (96, ''MOUSE_LEFT''),
    (97, ''MOUSE_RIGHT''), (100, ''HELP''), (36, ''DVD_MENU''), (99, ''FULLSCREEN''), (106, ''ENTER'')]"

definition maxter_report :: "int \<Rightarrow> keypad \<Rightarrow> keypad" where
  "maxter_report b k = k\<lparr>kp_irCode := b, kp_repeats := if b = kp_last k then u32 (kp_repeats k + 1) else 0\<rparr>"

definition maxter_decodeCommand :: "keypad \<Rightarrow> string option \<times> keypad" where
  "maxter_decodeCommand k =
    (case map_of maxter_buttons (kp_irCode k AND 0x7F) of
       None \<Rightarrow> (None, k\<lparr>kp_irCode := 0, kp_repeats := 0\<rparr>)
     | Some button \<Rightarrow> (Some (key_line (kp_repeats k) button ''MaxterPlus''), k\<lparr>kp_last := kp_irCode k, kp_irCode := 0\<rparr>))"

subsection \<open>Chinavision\<close>

definition chinavision_buttons :: "int \<Rightarrow> (int \<times> string) list" where
  "chinavision_buttons report = (if report = 1 then
    [(0x3D04, ''Close''), (0x4B00, ''Page+''), (0x4E00, ''Page-''), (0x808, ''MyPC''), (0x2A00, ''Backspace''),
    (0x3, ''Numlock''), (0x708, ''Desktop'')]
   else if report = 3 then
    [(0x18A, ''E-mail''), (0x223, ''WWW''), (0xB6, ''Rewind''), (0xCD, ''Play''), (0xB5, ''FastForard''),
    (0xCB, ''SkipBackwards''), (0xB7, ''Stop''), (0xCA, ''SkipForwards''), (0xE9, ''Vol+''), (0xEA, ''Vol-''),
    (0x230, ''FullScreen''), (0xE2, ''Mute'')]
   else if report = 4 then
    [(0x1E05, ''A''), (0x1F05, ''B''), (0x2005, ''C''), (0x2105, ''D'')]
   else if report = 5 then
    [(0x2B00, ''Tab''), (0x40000, ''Up''), (0x8, ''Windows''), (0x5000, ''Left''), (0x2800, ''Enter''),
    (0x4F00, ''Right''), (0x1201, ''Open''), (0x5100, ''Down''), (0x2900, ''Esc''), (0x2C0000, ''Cascade'')]
   else if report = 6 then
    [(0x81, ''Power'')] else [])"

definition mouse_button :: "int \<Rightarrow> string" where
  "mouse_button tempCode =
    (let mouseX = tempCode div 2 ^ 8 mod 256; mouseY = tempCode div 2 ^ 16 mod 256
     in if mouseX \<noteq> 0 \<and> mouseY = 0 then (if mouseX \<ge> 230 then ''Mouse-Left'' else ''Mouse-Right'')
        else if mouseX = 0 \<and> mouseY \<noteq> 0 then (if mouseY \<ge> 230 then ''Mouse-Up'' else ''Mouse-Down'')
        else if mouseX \<noteq> 0 \<and> mouseY \<noteq> 0 then
          (if mouseX \<ge> 230 \<and> mouseY \<ge> 230 then ''Mouse-Up-Left''
           else if mouseX \<ge> 230 \<and> mouseY \<le> 30 then ''Mouse-Down-Left''
           else if mouseX \<le> 30 \<and> mouseY \<ge> 230 then ''Mouse-Up-Right''
           else if mouseX \<le> 30 \<and> mouseY \<le> 30 then ''Mouse-Down-Right'' else [])
        else if tempCode mod 256 = 32 then ''MouseButton-Left'' else ''MouseButton-Right'')"

text \<open>The code of a report of up to four bytes; one without a key is dropped.\<close>

definition chinavision_report :: "int list \<Rightarrow> int \<Rightarrow> int" where
  "chinavision_report bytes irCode =
    (let b = (\<lambda>i. if i < length bytes then bytes ! i else 0); code = b 0 + b 1 * 2 ^ 8 + b 2 * 2 ^ 16 + b 3 * 2 ^ 24
     in if code div 256 \<noteq> 0 then code else irCode)"

definition chinavision_button :: "int \<Rightarrow> string" where
  "chinavision_button irCode =
    (let tempCode = irCode div 256; reportID = irCode mod 256
     in if reportID = 2 then mouse_button tempCode
        else case map_of (chinavision_buttons reportID) tempCode of None \<Rightarrow> [] | Some button \<Rightarrow> button)"

definition chinavision_decodeCommand :: "int \<Rightarrow> string \<times> int" where
  "chinavision_decodeCommand irCode = (key_line 0 (chinavision_button irCode) ''PC_Remote'', 0)"

subsection \<open>Correctness\<close>

lemma button_names_plain:
  "map_of firefly_buttons c = Some b \<Longrightarrow> plain_name b \<and> c < 256" "map_of maxter_buttons c = Some b \<Longrightarrow> plain_name b \<and> c < 128"
proof -
  have "list_all (\<lambda>(c, b). plain_name b \<and> c < 256) firefly_buttons" "list_all (\<lambda>(c, b). plain_name b \<and> c < 128) maxter_buttons"
    by code_simp+
  then show "map_of firefly_buttons c = Some b \<Longrightarrow> plain_name b \<and> c < 256" "map_of maxter_buttons c = Some b \<Longrightarrow> plain_name b \<and> c < 128"
    by (auto simp: list_all_iff dest!: map_of_SomeD)
qed

lemma firefly_decode_button:
  assumes "map_of firefly_buttons (kp_irCode k) = Some button"
  shows "firefly_decodeCommand k =
    (Some (key_line (kp_repeats k) button ''FireFlyMini''), k\<lparr>kp_last := kp_irCode k, kp_irCode := 0\<rparr>)"
  using assms by (simp add: firefly_decodeCommand_def)

lemma firefly_press:
  assumes "map_of firefly_buttons (v + 100) = Some button" and "0 \<le> v"
    and "r = (if kp_last k = v + 100 then u32 (kp_repeats k + 1) else 0)"
  shows "firefly_run (Key_down v # es) k =
    (let (outs, k') = firefly_run es (k\<lparr>kp_irCode := 0, kp_last := v + 100, kp_repeats := r\<rparr>)
     in (key_line r button ''FireFlyMini'' # outs, k'))"
proof -
  have v: "v mod 256 = v" "(v + 100) mod 256 = v + 100" "v + 100 \<noteq> 0"
    using button_names_plain(1) [OF assms(1)] assms(2) by simp_all
  have "firefly_handle (Key_down v) k = k\<lparr>kp_repeats := r, kp_irCode := v + 100\<rparr>"
    using v assms(3) by (simp add: firefly_handle_def)
  moreover have "firefly_decodeCommand (k\<lparr>kp_repeats := r, kp_irCode := v + 100\<rparr>) =
      (Some (key_line r button ''FireFlyMini''), k\<lparr>kp_irCode := 0, kp_last := v + 100, kp_repeats := r\<rparr>)"
    using assms(1) by (cases k) (simp add: firefly_decode_button)
  ultimately show ?thesis using v(3) by simp
qed

lemma firefly_hold:
  assumes "map_of firefly_buttons (v + 100) = Some button" and "0 \<le> v" and "kp_last k = v + 100" "kp_irCode k = 0"
    and "0 \<le> kp_repeats k" "kp_repeats k + int n < 2 ^ 32"
  shows "firefly_run (replicate n (Key_down v) @ es) k =
    (let (outs, k') = firefly_run es (k\<lparr>kp_repeats := kp_repeats k + int n\<rparr>)
     in (map (\<lambda>i. key_line (kp_repeats k + int (Suc i)) button ''FireFlyMini'') [0..<n] @ outs, k'))"
  using assms(3-)
proof (induction n arbitrary: k)
  case (Suc n)
  let ?k = "k\<lparr>kp_irCode := 0, kp_last := v + 100, kp_repeats := kp_repeats k + 1\<rparr>"
  have "u32 (kp_repeats k + 1) = kp_repeats k + 1" using Suc.prems by (intro u32_id) simp_all
  then have press: "firefly_run (Key_down v # replicate n (Key_down v) @ es) k =
      (let (outs, k') = firefly_run (replicate n (Key_down v) @ es) ?k
       in (key_line (kp_repeats k + 1) button ''FireFlyMini'' # outs, k'))"
    using firefly_press [OF assms(1,2), of "kp_repeats k + 1" k] Suc.prems(1) by simp
  have k: "?k = k\<lparr>kp_repeats := kp_repeats k + 1\<rparr>" using Suc.prems(1,2) by (cases k) simp
  have upt: "[0..<Suc n] = 0 # map Suc [0..<n]" by (simp add: map_Suc_upt upt_conv_Cons del: upt_Suc)
  have "firefly_run (replicate n (Key_down v) @ es) ?k =
      (let (outs, k') = firefly_run es (?k\<lparr>kp_repeats := kp_repeats ?k + int n\<rparr>)
       in (map (\<lambda>i. key_line (kp_repeats ?k + int (Suc i)) button ''FireFlyMini'') [0..<n] @ outs, k'))"
    using Suc.prems by (intro Suc.IH) simp_all
  with press show ?case
    by (simp add: k upt o_def add.assoc split: prod.split del: upt_Suc firefly_run.simps)
qed simp

text \<open>
  C33: The FireFly plugin counts repeats. A key of the keyboard that is held down is reported with the repeat counts
  0, 1, 2 and so on, and from 0 again after it was let go; and the repeat filter of the server reads every one of
  these lines back: the code 0, the count, the button and the remote.
\<close>

theorem firefly_repeats:
  assumes "map_of firefly_buttons (v + 100) = Some button" and "0 \<le> v" and "kp_last k \<noteq> v + 100" and "n < 2 ^ 31" "m < 2 ^ 31"
  shows "fst (firefly_run (replicate (Suc n) (Key_down v) @ Key_up v # replicate (Suc m) (Key_down v)) k) =
      map (\<lambda>r. key_line (int r) button ''FireFlyMini'') ([0..<Suc n] @ [0..<Suc m]) \<and>
    (\<forall>r. 0 \<le> r \<and> r < 2 ^ 31 \<longrightarrow> (\<exists>rest. scan_code_repeat (key_line r button ''FireFlyMini'') = Some (0, r, rest) \<and>
      scan_names rest = Some (button, ''FireFlyMini'')))"
proof -
  let ?line = "\<lambda>r. key_line (int r) button ''FireFlyMini''"
  have hold: "firefly_run (replicate (Suc n) (Key_down v) @ es) k =
      (let (outs, k') = firefly_run es (k\<lparr>kp_irCode := 0, kp_last := v + 100, kp_repeats := int n\<rparr>)
       in (map ?line [0..<Suc n] @ outs, k'))" if "kp_last k \<noteq> v + 100" "n < 2 ^ 31" for n es k
  proof -
    let ?k = "k\<lparr>kp_irCode := 0, kp_last := v + 100, kp_repeats := 0\<rparr>"
    have "int n < 2 ^ 31" using that(2) by simp
    then have "firefly_run (replicate n (Key_down v) @ es) ?k =
        (let (outs, k') = firefly_run es (?k\<lparr>kp_repeats := int n\<rparr>) in (map (\<lambda>i. ?line (Suc i)) [0..<n] @ outs, k'))"
      using firefly_hold [OF assms(1,2), of ?k n es] by simp
    moreover have "[0..<Suc n] = 0 # map Suc [0..<n]" by (simp add: map_Suc_upt upt_conv_Cons del: upt_Suc)
    ultimately show ?thesis
      using firefly_press [OF assms(1,2), of 0 k "replicate n (Key_down v) @ es"] that(1)
      by (simp add: o_def split: prod.split del: upt_Suc firefly_run.simps)
  qed
  have up: "firefly_run (Key_up v # es) (k\<lparr>kp_irCode := 0, kp_last := a, kp_repeats := r\<rparr>) =
      firefly_run es (k\<lparr>kp_irCode := 0, kp_last := 0, kp_repeats := 0\<rparr>)" for es a r
    by (simp add: firefly_handle_def split: prod.split)
  have zero: "v + 100 \<noteq> 0" using assms(2) by simp
  have "fst (firefly_run (replicate (Suc n) (Key_down v) @ Key_up v # replicate (Suc m) (Key_down v)) k) =
      map ?line ([0..<Suc n] @ [0..<Suc m])"
    using hold [OF assms(3,4), of "Key_up v # replicate (Suc m) (Key_down v)"]
      hold [of "k\<lparr>kp_irCode := 0, kp_last := 0, kp_repeats := 0\<rparr>" m "[]"] assms(5) zero
    by (simp add: up split: prod.split del: upt_Suc replicate_Suc firefly_run.simps(2))
  moreover have names: "plain_name ''FireFlyMini''" "plain_name button"
    using button_names_plain(1) [OF assms(1)] by (simp_all add: plain_name_def isspace_def)
  have "\<exists>rest. scan_code_repeat (key_line r button ''FireFlyMini'') = Some (0, r, rest) \<and>
      scan_names rest = Some (button, ''FireFlyMini'')" if "0 \<le> r" "r < 2 ^ 31" for r
    using scan_message(1) [OF names that, of 0] scan_message(2) [OF names that] by (simp add: key_line_def)
  ultimately show ?thesis by blast
qed

theorem firefly_repeats_witness:
  "fst (firefly_run [Key_down 37, Key_down 37, Key_down 37, Key_up 37, Key_down 37] keypad_init) =
    map (\<lambda>r. key_line r ''LEFT'' ''FireFlyMini'') [0, 1, 2, 0]"
proof -
  have b: "map_of firefly_buttons (37 + 100) = Some ''LEFT''" by code_simp
  have init: "kp_last keypad_init \<noteq> 37 + 100" by (simp add: keypad_init_def)
  have "replicate (Suc 2) (Key_down 37) @ Key_up 37 # replicate (Suc 0) (Key_down 37) =
      [Key_down 37, Key_down 37, Key_down 37, Key_up 37, Key_down 37]"
    "map (\<lambda>r. key_line (int r) ''LEFT'' ''FireFlyMini'') ([0..<Suc 2] @ [0..<Suc 0]) =
      map (\<lambda>r. key_line r ''LEFT'' ''FireFlyMini'') [0, 1, 2, 0]"
    by (simp_all add: numeral_2_eq_2)
  with firefly_repeats [OF b _ init, of 2 0] show ?thesis by (simp del: firefly_run.simps replicate_Suc upt_Suc)
qed

text \<open>
  A Chinavision report that is no known key still makes a line: its button is empty, so that a reader takes the
  name of the remote for the button and finds no remote.
\<close>

lemma chinavision_unnamed:
  assumes "chinavision_button irCode = []"
  shows "case scan_code_repeat (fst (chinavision_decodeCommand irCode)) of None \<Rightarrow> False
    | Some (code, reps, rest) \<Rightarrow> scan_names rest = None \<and> map_option fst (scan_word rest) = Some ''PC_Remote''"
proof -
  have "case scan_code_repeat (key_line 0 [] ''PC_Remote'') of None \<Rightarrow> False
    | Some (code, reps, rest) \<Rightarrow> scan_names rest = None \<and> map_option fst (scan_word rest) = Some ''PC_Remote''"
    by code_simp
  then show ?thesis by (simp add: chinavision_decodeCommand_def assms)
qed

lemma chinavision_unnamed_report: "chinavision_button (chinavision_report [3, 0x42, 0, 0] 0) = []"
  by code_simp

text \<open>A MaxterPlus key is repeated as long as its reports are the same, toggle bit included.\<close>

lemma maxter_repeats:
  assumes "map_of maxter_buttons (c AND 0x7F) = Some button" and "0 \<le> kp_repeats k" "kp_repeats k < 2 ^ 32 - 1"
  shows "maxter_decodeCommand (maxter_report c k) =
    (let r = (if c = kp_last k then kp_repeats k + 1 else 0)
     in (Some (key_line r button ''MaxterPlus''), k\<lparr>kp_irCode := 0, kp_last := c, kp_repeats := r\<rparr>))"
  using assms by (cases k) (simp add: maxter_decodeCommand_def maxter_report_def u32_id Let_def)

end
