(* ===== verification/IrMan.thy ===== *)
theory IrMan
  imports IRRemoteLaws
begin

text \<open>
  The plugin for the IRMan, \<open>DLL/IRMan/SendReceiveData.cpp\<close> and \<open>DLL/IRMan/Hardware.cpp\<close>: the device sends six bytes
  for a key, which are the code of the button. The plugins for TV cards (\<open>DLL/Beholder\<close>, \<open>DLL/Technisat\<close> and others)
  decode in the same way what the library of the vendor returns.
\<close>

text \<open>
  \<open>im_port\<close> is what the serial port holds, \<open>im_bytes\<close> what is in \<open>buffer\<close>, a local array of the loop whose contents
  are taken to survive from one turn to the next. \<open>im_codes\<close> records the codes that are announced.
\<close>

record irman =
  im_port :: "int list"
  im_bytes :: "int list"
  im_irCode :: ir_code
  im_start :: mytimeval
  im_end :: mytimeval
  im_last :: mytimeval
  im_codes :: "ir_code list"

definition irman_init :: "mytimeval \<Rightarrow> irman" where
  "irman_init t = \<lparr>im_port = [], im_bytes = [], im_irCode = 0, im_start = t, im_end = t, im_last = t, im_codes = []\<rparr>"

definition irman_code :: "int list \<Rightarrow> ir_code" where
  "irman_code bytes = fold (\<lambda>b code. shl64 code 8 OR of_int b) bytes 0xffff"

text \<open>
  One event of the port: bytes have arrived, \<open>now\<close> is the time before the read and \<open>later\<close> the time after it. Only
  as many bytes are read as are missing.
\<close>

definition irman_event :: "mytimeval \<Rightarrow> mytimeval \<Rightarrow> int list \<Rightarrow> irman \<Rightarrow> irman" where
  "irman_event now later arrived s =
    (let s = (if im_bytes s = [] then s\<lparr>im_start := now\<rparr> else s);
         port = im_port s @ arrived; missing = 6 - length (im_bytes s);
         bytes = im_bytes s @ take missing port;
         s = s\<lparr>im_port := drop missing port, im_bytes := bytes\<rparr>
     in if length bytes = 6 then
          s\<lparr>im_last := im_end s, im_irCode := irman_code bytes, im_bytes := [], im_end := later,
            im_codes := im_codes s @ [irman_code bytes]\<rparr>
        else s)"

definition irman_loop :: "(mytimeval \<times> mytimeval \<times> int list) list \<Rightarrow> irman \<Rightarrow> irman" where
  "irman_loop events s = fold (\<lambda>(now, later, arrived). irman_event now later arrived) events s"

text \<open>\<open>irman_decode\<close>: the fields of the code and the gaps, when the remote has 64 bits.\<close>

definition irman_decode :: "ir_remote \<Rightarrow> irman \<Rightarrow> ((ir_code \<times> ir_code \<times> ir_code) \<times> bool \<times> lirc_t \<times> lirc_t) option" where
  "irman_decode remote s =
    (case map_code remote 0 0 64 (im_irCode s) 0 0 of
       None \<Rightarrow> None
     | Some parts \<Rightarrow> Some (parts, map_gap remote (im_start s) (im_last s) 0))"

subsection \<open>Correctness\<close>

definition irman_framed :: "int list \<Rightarrow> irman \<Rightarrow> bool" where
  "irman_framed bytes s \<longleftrightarrow> length (im_bytes s) < 6 \<and>
     (\<exists>groups. list_all (\<lambda>g. length g = 6) groups \<and> im_codes s = map irman_code groups \<and>
       (groups \<noteq> [] \<longrightarrow> im_irCode s = irman_code (last groups)) \<and> bytes = concat groups @ im_bytes s @ im_port s)"

lemma irman_event_framed:
  assumes "irman_framed bytes s"
  shows "irman_framed (bytes @ arrived) (irman_event now later arrived s)"
proof -
  obtain groups where g: "length (im_bytes s) < 6" "list_all (\<lambda>g. length g = 6) groups" "im_codes s = map irman_code groups"
    "bytes = concat groups @ im_bytes s @ im_port s" "groups \<noteq> [] \<longrightarrow> im_irCode s = irman_code (last groups)"
    using assms by (auto simp: irman_framed_def)
  let ?m = "6 - length (im_bytes s)"
  let ?new = "im_bytes s @ take ?m (im_port s @ arrived)"
  have rest: "bytes @ arrived = concat groups @ ?new @ drop ?m (im_port s @ arrived)" by (simp add: g(4) del: take_append drop_append)
  have len: "length ?new \<le> 6" using g(1) by simp
  have sel: "im_bytes (if b then s\<lparr>im_start := now\<rparr> else s) = im_bytes s" "im_port (if b then s\<lparr>im_start := now\<rparr> else s) = im_port s"
    "im_codes (if b then s\<lparr>im_start := now\<rparr> else s) = im_codes s"
    "im_irCode (if b then s\<lparr>im_start := now\<rparr> else s) = im_irCode s" for b by simp_all
  let ?s = "irman_event now later arrived s"
  show ?thesis
  proof (cases "length ?new = 6")
    case True
    then have "im_bytes ?s = []" "im_port ?s = drop ?m (im_port s @ arrived)" "im_codes ?s = map irman_code (groups @ [?new])"
      "im_irCode ?s = irman_code (last (groups @ [?new]))"
      by (simp_all only: irman_event_def Let_def sel if_True) (simp_all add: g(3))
    moreover have "list_all (\<lambda>g. length g = 6) (groups @ [?new])" using g(2) True by simp
    moreover have "bytes @ arrived = concat (groups @ [?new]) @ [] @ drop ?m (im_port s @ arrived)" using rest by simp
    ultimately show ?thesis unfolding irman_framed_def by (metis length_0_conv zero_less_numeral)
  next
    case False
    then have "im_bytes ?s = ?new" "im_port ?s = drop ?m (im_port s @ arrived)" "im_codes ?s = map irman_code groups"
      "im_irCode ?s = im_irCode s"
      by (simp_all only: irman_event_def Let_def sel if_False) (simp_all add: g(3))
    with rest g(2,5) len False show ?thesis unfolding irman_framed_def by (metis le_neq_implies_less)
  qed
qed

lemma irman_loop_framed: "irman_framed bytes s \<Longrightarrow> irman_framed (bytes @ concat (map (\<lambda>(_, _, a). a) events)) (irman_loop events s)"
proof (induction events arbitrary: bytes s)
  case (Cons e events)
  obtain now later a where e: "e = (now, later, a)" by (cases e)
  from Cons.IH [OF irman_event_framed [OF Cons.prems, of a now later]] show ?case by (simp add: e irman_loop_def)
qed (simp add: irman_loop_def)

lemma map_code_64:
  assumes "\<not> is_raw remote" and "0 \<le> r_pre_data_bits remote" "0 \<le> r_bits remote" "0 \<le> r_post_data_bits remote"
    and "r_bits remote + r_post_data_bits remote < 64" "r_pre_data_bits remote + r_bits remote + r_post_data_bits remote = 64"
  shows "\<exists>x y z. map_code remote 0 0 64 c 0 0 = Some (x, y, z) \<and> gen_ir_code remote x y z = c"
proof -
  let ?z = "c AND gen_mask (r_post_data_bits remote)" and ?y = "shr64 c (r_post_data_bits remote) AND gen_mask (r_bits remote)"
    and ?x = "shr64 (shr64 c (r_post_data_bits remote)) (r_bits remote) AND gen_mask (r_pre_data_bits remote)"
  have eq: "add32 (add32 0 64) 0 = 64" "bit_count remote = 64"
    using assms(2-) by (simp_all add: bit_count_def add32_def i32_id in32_def)
  have "c AND gen_mask 64 = c" by (rule bit_word_eqI) (simp add: bit_and_iff bit_gen_mask)
  then have "map_code remote 0 0 64 c 0 0 = Some (?x, ?y, ?z)" by (simp add: map_code_def eq Let_def)
  moreover have "gen_ir_code remote ?x ?y ?z = c"
  proof (rule bit_word_eqI)
    fix k assume k: "k < LENGTH(64)"
    show "bit (gen_ir_code remote ?x ?y ?z) k = bit c k"
      using k assms by (auto simp: bit_gen_ir_code bit_and_iff bit_shr64 bit_gen_mask nat_add_distrib)
  qed
  ultimately show ?thesis by blast
qed



end
