(* ===== verification/Spec2Isabelle.thy ===== *)
theory Spec2Isabelle
  imports ConfigLaws DriverLaws IrdroidLaws IRRecordLaws LengthsState LearnLaws
    EmulationLaws Streamzap Udp Mce Iguana Serial SerialSend Audio Keypads IrMan
begin

text \<open>
  WinLIRC receives and sends infrared remote controls on Windows. This library models its core: the
  decoder and encoder every plugin shares, the plugins of several families of devices, the configuration
  parser, the TCP server, the life cycle of the plugins, and \<open>irrecord\<close>, which learns the configuration of a
  remote from its signals; and it states what makes them correct.

  \<^bold>\<open>The program and its parts.\<close> \<open>winlirc/\<close> reads a configuration file into a list of remotes
  (\<open>config.cpp\<close>), loads one plugin (\<open>irdriver.cpp\<close>) and runs a TCP server (\<open>server.cpp\<close>). A plugin
  (\<open>DLL/*\<close>) samples a device into a ring buffer (\<open>fifo.h\<close>), reads it through the receive buffer, decodes
  it against every remote in turn (\<open>Receive.cpp\<close>), finds the button, counts repeats and formats a line
  (\<open>IRRemote.cpp\<close>). The line goes through the repeat filter of \<open>irdriver.cpp\<close> to every client of the
  server. In the other direction a client's command names a button, \<open>Send.cpp\<close> turns it into pulses
  and spaces and the plugin passes them to the device. \<open>IRRecord/\<close> is a program of its own: it measures the
  signals of an unknown remote, infers their format, decodes the buttons with the decoder of the plugins and
  prints the file that \<open>winlirc\<close> reads.

  \<^bold>\<open>Theories and sources: what all parts share.\<close>
    \<^item> \<open>Prelude\<close>: the collections of facts the components share, the state monad with its laws and the
      relations that every operation of a component keeps.
    \<^item> \<open>CText\<close>: what the program uses of the C library on text: \<open>strtok\<close>, \<open>strtoul\<close>, \<open>strtol\<close>, \<open>atoi\<close>,
      \<open>scanf\<close> and \<open>printf\<close> conversions. \<open>CFloat\<close>: rounding to a number of binary digits, with its error.
    \<^item> \<open>LircDefs\<close>: \<open>DLL/Common/LIRCDefines.h\<close> (and \<open>winlirc/remote.h\<close>): remotes, buttons, flags, the inline
      tests, C integer arithmetic at 32 and 64 bits (\<open>add32\<close>, \<open>mul32\<close>, \<open>i32\<close>, \<open>u32\<close>).
    \<^item> \<open>Device\<close>: \<open>DLL/Common/fifo.h\<close>, \<open>Hardware.h\<close> and the hardware functions of a mode-2 plugin.

  \<^bold>\<open>Decoding and encoding.\<close>
    \<^item> \<open>RecBuffer\<close>, \<open>Receive\<close>: \<open>DLL/Common/Receive.cpp\<close>: the receive buffer, every \<open>get_*\<close> function and
      \<open>receive_decode\<close> with its eight protocols. \<open>ReceiveLaws\<close>: bounds, what is kept, the signal.
    \<^item> \<open>Send\<close>: \<open>DLL/Common/Send.cpp\<close>; \<open>SendLaws\<close>, \<open>SendSignal\<close>: bounds, success, termination, and the
      signal of a button as a function of the remote. \<open>Sample\<close>: the remote the examples use.
    \<^item> \<open>RoundTrip\<close>: what is sent is decoded.
    \<^item> \<open>IRRemote\<close>, \<open>IRRemoteLaws\<close>, \<open>CommandLaws\<close>: \<open>DLL/Common/IRRemote.cpp\<close>: lookup, repeats and the line.

  \<^bold>\<open>The server.\<close>
    \<^item> \<open>Config\<close>, \<open>ConfigLaws\<close>: \<open>winlirc/config.cpp\<close> and \<open>config.h\<close>.
    \<^item> \<open>Server\<close>, \<open>ServerLaws\<close>: \<open>winlirc/server.cpp\<close>.
    \<^item> \<open>Driver\<close>, \<open>DriverLaws\<close>: \<open>winlirc/irdriver.cpp\<close> and \<open>readConfig\<close> of \<open>irconfig.cpp\<close>.

  \<^bold>\<open>The plugins.\<close>
    \<^item> \<open>Irdroid\<close>, \<open>IrdroidLaws\<close>: \<open>DLL/Irdroid/SendReceiveData.cpp\<close> (the same code as \<open>DLL/IRToy\<close>).
    \<^item> \<open>Serial\<close>: the timing of edges in \<open>DLL/Serial/irdriver.cpp\<close>; \<open>SerialSend\<close>: \<open>DLL/Serial/Transmit.cpp\<close>.
    \<^item> \<open>Audio\<close>: \<open>DLL/AudioCapture/AnalyseAudio.cpp\<close>.
    \<^item> \<open>Mce\<close>: \<open>DLL/MCE/SendReceiveData.cpp\<close>; \<open>Streamzap\<close>: \<open>DLL/Streamzap/StreamzapAPI.cpp\<close>; \<open>Iguana\<close>:
      \<open>DLL/Iguana/SendReceiveData.cpp\<close>; \<open>Udp\<close>: \<open>DLL/UDP/Server.cpp\<close>.
    \<^item> \<open>Keypads\<close>: \<open>DLL/FireFly\<close>, \<open>DLL/MaxterPlus\<close> and \<open>DLL/Chinavision\<close>, whose devices deliver keys; \<open>IrMan\<close>:
      \<open>DLL/IRMan\<close>, whose device delivers codes.

  \<^bold>\<open>irrecord.\<close>
    \<^item> \<open>Dump\<close>: \<open>IRRecord/dump_config.cpp\<close>, the printer of configurations; \<open>DumpRead\<close>, \<open>DumpLines\<close>, \<open>DumpLaws\<close>: the
      parser of \<open>Config\<close> reads what it prints.
    \<^item> \<open>IRRecord\<close>: the toggle bits, the pre and post data and the final file of \<open>IRRecord/irrecord.cpp\<close>;
      \<open>IRRecordLaws\<close>: they leave the signal of every button as it is.
    \<^item> \<open>Lengths\<close>: \<open>get_lengths\<close> with everything it calls: the buckets of durations, the search for the gap, the
      statistics of signals and the decision on the format. \<open>LengthsLaws\<close>, \<open>LengthsState\<close>: the buckets and the bounds of
      its tables; \<open>LearnLaws\<close>: what it learns.
    \<^item> \<open>Emulation\<close>, \<open>EmulationLaws\<close>: \<open>emulation_readdata\<close> of \<open>IRRecord/emulation.cpp\<close> and the analysis of raw files over
      it (\<open>irrecord -a\<close>).

  \<^bold>\<open>State.\<close> A structure of the source is a record with the source's field names: \<open>struct rbuf\<close> is
  the record \<open>rx\<close> (fields \<open>rb_*\<close>) together with the globals of \<open>IRRemote.cpp\<close> and the device, \<open>struct sbuf\<close>
  is \<open>tx\<close>, \<open>struct ir_remote\<close> and \<open>struct ir_ncode\<close> keep their names. A pointer into the list of
  remotes or into the codes of a remote is an index. A function with side effects is a value of the
  state monad over the record; a loop that need not end (\<open>init_send\<close>, the carrier of the serial plugin, the analysis
  of a raw file) is a partial function whose value None is not returning. Integers of the source are \<open>int\<close> with the
  wrap-around written out, 64-bit codes are words, the ring buffer's indices are 8-bit words. Undefined behaviour (an
  access outside an array, a null pointer) sets a flag of the state, so its absence is a theorem. In the plugins the
  clocks, the device and what Windows answers are inputs, and what is asked of them is recorded.

  \<^bold>\<open>What the theorems show.\<close> For the decoder: every access to its buffers is in bounds, whatever the
  device delivers and whatever the remote; trying one remote leaves the signal for the next; no more
  is read than the signal needs. For the encoder: the send buffer stays in bounds, success means a
  complete signal, the loop ends for every remote that is not XMP, and the buffer refines the abstract
  sequence of pulses and spaces. For the two together: a button that is sent is decoded to the same
  fields, is found as the first button with that code and is reported with the line the clients
  expect. For the plugins: each of them delivers the pulses and spaces of a signal in their order and within the
  precision of its device, however the stream of bytes, packets or samples is cut, and those that send put every edge
  on its time; the theorems of the kind error show what goes wrong where it does. For the parser:
  every remote it yields is usable by decoder and encoder, and what \<open>irrecord\<close> prints is read back as
  the same remote. For \<open>irrecord\<close>: its tables stay in bounds on any signal, the buckets partition the durations, a
  space-encoded remote is learned from its presses with all its parameters, the analysis of its recording finds the code
  of every button, and the final file sends the same signals. For the server: how the network cuts a stream
  of commands does not matter, its buffers stay in bounds, replies go only to the client that asked, a command reaches
  the plugin. For the life cycle: no function of a library is called before it is loaded or after it is freed.

  \<^bold>\<open>Interfaces.\<close> The locales state what one part promises to another: a bounded queue (\<open>Device\<close>), a
  source of samples that the receive buffer reads (\<open>RecBuffer\<close>), the relations kept by every
  operation of the decoder, of the encoder, of the parser and of the server. Each is interpreted on
  the model, in the theory of the part that provides it; the source of samples twice, on the ring buffer of the
  plugins and on the emulated receiver.

  \<^bold>\<open>Bounds and fuel.\<close> The loop over the bits of a serial remote runs on \<open>serial_fuel\<close>, three times the
  number of bits plus 1000; running out of it sets a flag. The emulated receiver, which never ends, delivers at most
  \<open>play_limit\<close>, 1024, samples to the two decodings of a button, each of which reads at most the 256 that the
  receive buffer holds. Files may include 11 levels deep, as
  \<open>MAX_INCLUDES\<close> and the depth test of the source have it. A line of a configuration file is cut at 1023 characters
  by \<open>fgets\<close>; the server has 8 slots and line buffers of \<open>MAX_DATA\<close> bytes.

  \<^bold>\<open>Not modelled.\<close> The dialogs, the tray icon, threads and locks (calls of the Windows API); opening
  sockets, ports and USB devices; the INI file; the dialogue of \<open>irrecord\<close> with its user; the other plugins, which hand
  what a library of the vendor delivers to \<open>map_code\<close> or look it up in a table; the CommandIR library, which packs signals
  for the USB protocol of its device; the viewers and the keymap converter under \<open>Tools\<close>;
  vendored code (tinyxml2, libusb, hidpi.h, the serial port class).
\<close>

end
